theory Spec2Isabelle
  imports Complex_Main "HOL-Library.Word"
begin

unbundle bit_operations_syntax

section \<open>Go library functions used by the processor\<close>

text \<open>
  A Go \<open>string\<close> is a byte sequence and \<open>len\<close>, slicing and the \<open>strings\<close> functions
  work on bytes; an Isabelle \<open>string\<close> is a list of 8-bit characters, so
  \<open>length\<close>, \<open>take\<close> and \<open>drop\<close> are \<open>len(s)\<close>, \<open>s[:n]\<close> and \<open>s[n:]\<close>.
\<close>

type_synonym byte = "8 word"
type_synonym u32 = "32 word"

datatype error =
    HexInvalid
  | ParseUintSyntax
  | ParseUintRange
  | InvalidContractParameter
  | InvalidValueData
  | DataTooShort
  | AddressDataTooShort
  | AmountDataTooShort
  | ParseAmountFailed error
  | ParseHexAmountFailed error
  | DecodeHexAddressFailed error
  | RedisUnavailable
  | UnsupportedValue
  | YearOutOfRange
  | MarshalTransferEventFailed error
  | MarshalAddressInfoFailed error
  | GetWatchAddressesFailed error
  | SaveTransferEventFailed error
  | PushBlockDataFailed error
  | GetLatestBlockFailed error
  | GetBlockFailed
  | InvalidBlockData
  | ProcessorAlreadyRunning
  | ProcessorNotRunning

definition HasPrefix :: "string \<Rightarrow> string \<Rightarrow> bool" where
  "HasPrefix s p = (take (length p) s = p)"

definition TrimPrefix :: "string \<Rightarrow> string \<Rightarrow> string" where
  "TrimPrefix s p = (if HasPrefix s p then drop (length p) s else s)"

definition TrimLeft :: "string \<Rightarrow> string \<Rightarrow> string" where
  "TrimLeft s cutset = dropWhile (\<lambda>c. c \<in> set cutset) s"

definition Repeat :: "string \<Rightarrow> nat \<Rightarrow> string" where
  "Repeat s n = concat (replicate n s)"

text \<open>\<open>encoding/hex\<close>: the value of one hexadecimal digit, either case.\<close>

definition fromHexChar :: "char \<Rightarrow> nat option" where
  "fromHexChar c =
     (let n = (of_char c :: nat) in
      if 48 \<le> n \<and> n \<le> 57 then Some (n - 48)
      else if 97 \<le> n \<and> n \<le> 102 then Some (n - 87)
      else if 65 \<le> n \<and> n \<le> 70 then Some (n - 55)
      else None)"

text \<open>\<open>hex.DecodeString\<close>: two digits per byte; an odd length or a character that is
  no hexadecimal digit is an error.\<close>

fun DecodeString :: "string \<Rightarrow> error + byte list" where
  "DecodeString [] = Inr []"
| "DecodeString [c] = Inl HexInvalid"
| "DecodeString (a # b # rest) =
     (case (fromHexChar a, fromHexChar b) of
        (Some h, Some l) \<Rightarrow>
          (case DecodeString rest of
             Inl e \<Rightarrow> Inl e
           | Inr bs \<Rightarrow> Inr (word_of_nat (h * 16 + l) # bs))
      | _ \<Rightarrow> Inl HexInvalid)"

text \<open>\<open>strconv.ParseUint(s, 16, 64)\<close>: the empty string is a syntax error; the
  characters are read from the left, a character that is no digit is a syntax error, and
  a digit that would take the value to \<open>2^64\<close> or more is a range error, whichever comes
  first. The value stays below \<open>2^64\<close> and is kept as an \<open>int\<close> in the loop.\<close>

fun parseUintLoop :: "int \<Rightarrow> string \<Rightarrow> error + int" where
  "parseUintLoop n [] = Inr n"
| "parseUintLoop n (c # cs) =
     (case fromHexChar c of
        None \<Rightarrow> Inl ParseUintSyntax
      | Some d \<Rightarrow>
          if n \<ge> 2 ^ 64 div 16 then Inl ParseUintRange
          else
            let n1 = n * 16 + int d in
            if n1 > 2 ^ 64 - 1 then Inl ParseUintRange
            else parseUintLoop n1 cs)"

definition ParseUint16 :: "string \<Rightarrow> error + 64 word" where
  "ParseUint16 s =
     (if s = [] then Inl ParseUintSyntax
      else case parseUintLoop 0 s of
             Inl e \<Rightarrow> Inl e
           | Inr n \<Rightarrow> Inr (word_of_int n))"

subsection \<open>\<open>crypto/sha256\<close>\<close>

text \<open>The round constants and the initial state of FIPS 180-4, in decimal.\<close>

definition K256 :: "u32 list" where
  "K256 = map word_of_int [
     1116352408, 1899447441, 3049323471, 3921009573, 961987163, 1508970993,
     2453635748, 2870763221, 3624381080, 310598401, 607225278, 1426881987,
     1925078388, 2162078206, 2614888103, 3248222580, 3835390401, 4022224774,
     264347078, 604807628, 770255983, 1249150122, 1555081692, 1996064986,
     2554220882, 2821834349, 2952996808, 3210313671, 3336571891, 3584528711,
     113926993, 338241895, 666307205, 773529912, 1294757372, 1396182291,
     1695183700, 1986661051, 2177026350, 2456956037, 2730485921, 2820302411,
     3259730800, 3345764771, 3516065817, 3600352804, 4094571909, 275423344,
     430227734, 506948616, 659060556, 883997877, 958139571, 1322822218,
     1537002063, 1747873779, 1955562222, 2024104815, 2227730452, 2361852424,
     2428436474, 2756734187, 3204031479, 3329325298]"

definition init256 :: "u32 list" where
  "init256 = map word_of_int [
     1779033703, 3144134277, 1013904242, 2773480762,
     1359893119, 2600822924, 528734635, 1541459225]"

definition be32 :: "byte list \<Rightarrow> u32" where
  "be32 bs = foldl (\<lambda>a b. push_bit 8 a OR ucast b) 0 bs"

definition bytes_of_u32 :: "u32 \<Rightarrow> byte list" where
  "bytes_of_u32 w = [ucast (drop_bit 24 w), ucast (drop_bit 16 w), ucast (drop_bit 8 w), ucast w]"

definition bytes_of_u64 :: "64 word \<Rightarrow> byte list" where
  "bytes_of_u64 w = map (\<lambda>i. ucast (drop_bit (8 * (7 - i)) w)) [0..<8]"

definition sha_pad :: "byte list \<Rightarrow> byte list" where
  "sha_pad m = m @ [0x80] @ replicate ((119 - length m mod 64) mod 64) 0
                 @ bytes_of_u64 (word_of_nat (8 * length m))"

fun chunks :: "nat \<Rightarrow> nat \<Rightarrow> 'a list \<Rightarrow> 'a list list" where
  "chunks 0 n xs = []"
| "chunks (Suc k) n xs = take n xs # chunks k n (drop n xs)"

definition ssig0 :: "u32 \<Rightarrow> u32" where
  "ssig0 x = word_rotr 7 x XOR word_rotr 18 x XOR drop_bit 3 x"

definition ssig1 :: "u32 \<Rightarrow> u32" where
  "ssig1 x = word_rotr 17 x XOR word_rotr 19 x XOR drop_bit 10 x"

definition bsig0 :: "u32 \<Rightarrow> u32" where
  "bsig0 x = word_rotr 2 x XOR word_rotr 13 x XOR word_rotr 22 x"

definition bsig1 :: "u32 \<Rightarrow> u32" where
  "bsig1 x = word_rotr 6 x XOR word_rotr 11 x XOR word_rotr 25 x"

definition ch :: "u32 \<Rightarrow> u32 \<Rightarrow> u32 \<Rightarrow> u32" where
  "ch x y z = (x AND y) XOR (NOT x AND z)"

definition maj :: "u32 \<Rightarrow> u32 \<Rightarrow> u32 \<Rightarrow> u32" where
  "maj x y z = (x AND y) XOR (x AND z) XOR (y AND z)"

fun schedule :: "nat \<Rightarrow> u32 list \<Rightarrow> u32 list" where
  "schedule 0 w = w"
| "schedule (Suc k) w =
     (let t = length w in
      schedule k (w @ [ssig1 (w ! (t - 2)) + w ! (t - 7) + ssig0 (w ! (t - 15)) + w ! (t - 16)]))"

fun sha_round :: "u32 list \<Rightarrow> u32 \<times> u32 \<Rightarrow> u32 list" where
  "sha_round [a, b, c, d, e, f, g, h] (k, w) =
     (let t1 = h + bsig1 e + ch e f g + k + w;
          t2 = bsig0 a + maj a b c
      in [t1 + t2, a, b, c, d + t1, e, f, g])"
| "sha_round s _ = s"

definition sha_block :: "u32 list \<Rightarrow> byte list \<Rightarrow> u32 list" where
  "sha_block hs blk =
     (let w = schedule 48 (map be32 (chunks 16 4 blk))
      in map2 (+) hs (foldl sha_round hs (zip K256 w)))"

text \<open>\<open>sha256.Sum256\<close> returns a \<open>[32]byte\<close>: eight state words of four bytes each.\<close>

definition Sum256 :: "byte list \<Rightarrow> byte list" where
  "Sum256 m =
     (let p = sha_pad m
      in concat (map bytes_of_u32 (foldl sha_block init256 (chunks (length p div 64) 64 p))))"

subsection \<open>\<open>btcutil/base58\<close>\<close>

definition alphabet :: string where
  "alphabet = ''123456789ABCDEFGHJKLMNPQRSTUVWXYZabcdefghijkmnopqrstuvwxyz''"

text \<open>The digits of the \<open>big.Int\<close> in base 58, least significant first, as \<open>Encode\<close>
  appends them before it reverses its answer.\<close>

function b58digits :: "int \<Rightarrow> string" where
  "b58digits x = (if x \<le> 0 then [] else (alphabet ! nat (x mod 58)) # b58digits (x div 58))"
  by pat_completeness auto
termination
  by (relation "measure nat") (auto intro: int_div_less_self)

declare b58digits.simps [simp del]

text \<open>\<open>big.Int.SetBytes\<close>: the bytes as a big-endian unsigned integer.\<close>

definition SetBytes :: "byte list \<Rightarrow> int" where
  "SetBytes b = foldl (\<lambda>a x. a * 256 + uint x) 0 b"

definition Encode :: "byte list \<Rightarrow> string" where
  "Encode b =
     rev (b58digits (SetBytes b)
          @ replicate (length (takeWhile (\<lambda>i. i = 0) b)) (alphabet ! 0))"

section \<open>Address codec\<close>

definition hexToTronAddress :: "string \<Rightarrow> error + string" where
  "hexToTronAddress hexAddress =
     (case DecodeString hexAddress of
        Inl e \<Rightarrow> Inl (DecodeHexAddressFailed e)
      | Inr addressBytes \<Rightarrow>
          (let hash1 = Sum256 addressBytes;
               hash2 = Sum256 hash1;
               checksum = take 4 hash2;
               payload = addressBytes @ checksum;
               tronAddress = Encode payload
           in Inr tronAddress))"

definition convertHexToBase58 :: "string \<Rightarrow> string" where
  "convertHexToBase58 hexAddr0 =
     (let hexAddr = TrimPrefix hexAddr0 ''0x'' in
      if length hexAddr = 0 then hexAddr
      else if HasPrefix hexAddr ''T'' then hexAddr
      else (case hexToTronAddress hexAddr of
              Inl e \<Rightarrow> hexAddr
            | Inr tronAddress \<Rightarrow> tronAddress))"

text \<open>The display-address shape, as \<open>isValidTronAddress\<close> of the configuration checks
  it: 34 characters, the first one \<open>T\<close>.\<close>

definition isValidTronAddress :: "string \<Rightarrow> bool" where
  "isValidTronAddress address = (\<not> (length address \<noteq> 34 \<or> \<not> HasPrefix address ''T''))"

section \<open>Data model\<close>

text \<open>
  The amounts of the program are \<open>float64\<close>. A finite \<open>float64\<close> is kept as its value, a
  rational number; the other values are the two infinities and \<open>NaN\<close>. The two zeros are
  one value: the program divides by \<open>1e6\<close> and by a power of ten only, never by \<open>-0\<close>,
  and the sign of a zero plays no part below.
\<close>

datatype float64 = Finite rat | PosInf | NegInf | NaN

text \<open>The integer part of the binary logarithm of a positive integer and of a positive
  rational.\<close>

function ilog2 :: "int \<Rightarrow> int" where
  "ilog2 n = (if n < 2 then 0 else 1 + ilog2 (n div 2))"
  by pat_completeness auto
termination
  by (relation "measure nat") auto

declare ilog2.simps [simp del]

definition floor_log2 :: "rat \<Rightarrow> int" where
  "floor_log2 a =
     (if 1 \<le> a then ilog2 \<lfloor>a\<rfloor>
      else let c = ilog2 \<lfloor>1 / a\<rfloor> in if 2 powi c = 1 / a then - c else - (c + 1))"

text \<open>Rounding to the nearest integer, a tie to the even one.\<close>

definition round_even :: "rat \<Rightarrow> int" where
  "round_even m =
     (let f = \<lfloor>m\<rfloor>; d = m - of_int f
      in if d < 1 / 2 then f else if 1 / 2 < d then f + 1 else if even f then f else f + 1)"

text \<open>The \<open>float64\<close> of an exact result, as IEEE 754 rounds it (to nearest, ties to even):
  53 significant bits, the least unit \<open>2^-1074\<close>, and an infinity when the rounded value
  reaches \<open>2^1024\<close>.\<close>

definition round64 :: "rat \<Rightarrow> float64" where
  "round64 q =
     (if q = 0 then Finite 0
      else
        let a = \<bar>q\<bar>;
            p = max (floor_log2 a - 52) (- 1074);
            v = of_int (round_even (a / 2 powi p)) * 2 powi p
        in if 2 ^ 1024 \<le> v then (if 0 < q then PosInf else NegInf)
           else Finite (if 0 < q then v else - v))"

text \<open>The conversions \<open>float64(n)\<close> of a \<open>uint64\<close> and of an \<open>int\<close>, and the operators
  \<open>/\<close>, \<open>*\<close>, \<open>+\<close> and \<open><\<close>.\<close>

definition Float64FromUint64 :: "64 word \<Rightarrow> float64" where
  "Float64FromUint64 n = round64 (of_int (uint n))"

definition Float64FromInt :: "int \<Rightarrow> float64" where
  "Float64FromInt n = round64 (of_int n)"

fun Float64Quo :: "float64 \<Rightarrow> float64 \<Rightarrow> float64" where
  "Float64Quo NaN y = NaN"
| "Float64Quo x NaN = NaN"
| "Float64Quo (Finite a) (Finite b) =
     (if b = 0 then (if a = 0 then NaN else if 0 < a then PosInf else NegInf)
      else round64 (a / b))"
| "Float64Quo (Finite a) y = Finite 0"
| "Float64Quo PosInf (Finite b) = (if 0 \<le> b then PosInf else NegInf)"
| "Float64Quo NegInf (Finite b) = (if 0 \<le> b then NegInf else PosInf)"
| "Float64Quo x y = NaN"

fun Float64Mul :: "float64 \<Rightarrow> float64 \<Rightarrow> float64" where
  "Float64Mul NaN y = NaN"
| "Float64Mul x NaN = NaN"
| "Float64Mul (Finite a) (Finite b) = round64 (a * b)"
| "Float64Mul (Finite a) PosInf = (if a = 0 then NaN else if 0 < a then PosInf else NegInf)"
| "Float64Mul (Finite a) NegInf = (if a = 0 then NaN else if 0 < a then NegInf else PosInf)"
| "Float64Mul PosInf (Finite b) = (if b = 0 then NaN else if 0 < b then PosInf else NegInf)"
| "Float64Mul NegInf (Finite b) = (if b = 0 then NaN else if 0 < b then NegInf else PosInf)"
| "Float64Mul PosInf PosInf = PosInf"
| "Float64Mul PosInf NegInf = NegInf"
| "Float64Mul NegInf PosInf = NegInf"
| "Float64Mul NegInf NegInf = PosInf"

fun Float64Add :: "float64 \<Rightarrow> float64 \<Rightarrow> float64" where
  "Float64Add NaN y = NaN"
| "Float64Add x NaN = NaN"
| "Float64Add (Finite a) (Finite b) = round64 (a + b)"
| "Float64Add (Finite a) y = y"
| "Float64Add x (Finite b) = x"
| "Float64Add PosInf PosInf = PosInf"
| "Float64Add NegInf NegInf = NegInf"
| "Float64Add x y = NaN"

fun Float64Less :: "float64 \<Rightarrow> float64 \<Rightarrow> bool" where
  "Float64Less NaN y = False"
| "Float64Less x NaN = False"
| "Float64Less (Finite a) (Finite b) = (a < b)"
| "Float64Less x PosInf = (x \<noteq> PosInf)"
| "Float64Less NegInf y = (y \<noteq> NegInf)"
| "Float64Less x y = False"

text \<open>\<open>math.Ldexp\<close>: \<open>frac * 2^exp\<close>, rounded where the result is subnormal or too
  large.\<close>

fun Ldexp :: "float64 \<Rightarrow> int \<Rightarrow> float64" where
  "Ldexp (Finite a) e = round64 (a * 2 powi e)"
| "Ldexp x e = x"

text \<open>
  \<open>math.Pow(10, y)\<close> for an integral \<open>y\<close>, which is what the processor passes:
  \<open>float64(Decimals)\<close>. The library multiplies the powers \<open>x^(2^k)\<close> of the base for the
  bits of \<open>|y|\<close>, each kept as a fraction in \<open>[1/2, 1)\<close> with its binary exponent
  (\<open>Frexp(10)\<close> is \<open>0.625\<close> and \<open>4\<close>), takes the reciprocal for a negative \<open>y\<close> and
  scales by the exponent at the end. Every product is rounded, so the result is \<open>10^y\<close>
  itself for \<open>y\<close> from 0 to 22 and may differ from the nearest \<open>float64\<close> beyond.
\<close>

function pow_loop :: "int \<Rightarrow> float64 \<Rightarrow> int \<Rightarrow> float64 \<Rightarrow> int \<Rightarrow> float64 \<times> int" where
  "pow_loop i x1 xe a1 ae =
     (if i \<le> 0 then (a1, ae)
      else if xe < - 4096 \<or> 4096 < xe then (a1, ae + xe)
      else
        let (a1', ae') = (if odd i then (Float64Mul a1 x1, ae + xe) else (a1, ae));
            x2 = Float64Mul x1 x1;
            xe2 = 2 * xe;
            (x3, xe3) = (if Float64Less x2 (Finite (1 / 2)) then (Float64Add x2 x2, xe2 - 1)
                         else (x2, xe2))
        in pow_loop (i div 2) x3 xe3 a1' ae')"
  by pat_completeness auto
termination
  by (relation "measure (\<lambda>(i, x1, xe, a1, ae). nat i)") auto

declare pow_loop.simps [simp del]

definition MathPow10 :: "float64 \<Rightarrow> float64" where
  "MathPow10 y =
     (case y of
        Finite q \<Rightarrow>
          if q = 0 then Finite 1
          else if q = 1 then Finite 10
          else
            let yi = \<lfloor>\<bar>q\<bar>\<rfloor> in
            if 2 ^ 63 \<le> yi then (if 0 < q then PosInf else Finite 0)
            else
              (case pow_loop yi (Finite (5 / 8)) 4 (Finite 1) 0 of
                 (a1, ae) \<Rightarrow>
                   if q < 0 then Ldexp (Float64Quo (Finite 1) a1) (- ae) else Ldexp a1 ae)
      | PosInf \<Rightarrow> PosInf
      | NegInf \<Rightarrow> Finite 0
      | NaN \<Rightarrow> NaN)"

text \<open>\<open>encoding/json\<close> refuses a \<open>float64\<close> that is an infinity or \<open>NaN\<close>.\<close>

fun unsupported :: "float64 \<Rightarrow> bool" where
  "unsupported (Finite q) = False"
| "unsupported x = True"

text \<open>A decoded JSON value, the content of an \<open>interface{}\<close>: \<open>JNull\<close> is \<open>nil\<close>, a
  number is a \<open>float64\<close>, which the decoder never makes infinite or \<open>NaN\<close> and which is
  kept as its value, an object is a \<open>map[string]interface{}\<close>, here the list of its
  entries.\<close>

datatype json =
    JNull
  | JBool bool
  | JNumber rat
  | JString string
  | JArray "json list"
  | JObject "(string \<times> json) list"

text \<open>The type assertion \<open>v.(map[string]interface{})\<close> with its \<open>ok\<close> flag.\<close>

fun asMap :: "json \<Rightarrow> (string \<times> json) list option" where
  "asMap (JObject m) = Some m"
| "asMap _ = None"

text \<open>Indexing a map: a missing key gives the \<open>nil\<close> interface.\<close>

definition index :: "(string \<times> json) list \<Rightarrow> string \<Rightarrow> json" where
  "index m k = (case map_of m k of None \<Rightarrow> JNull | Some v \<Rightarrow> v)"

text \<open>\<open>s, _ := v.(string)\<close> and \<open>x, _ := v.(float64)\<close>: the flag is dropped, and a value
  of another type gives the zero value.\<close>

fun stringOrZero :: "json \<Rightarrow> string" where
  "stringOrZero (JString s) = s"
| "stringOrZero _ = []"

fun float64OrZero :: "json \<Rightarrow> float64" where
  "float64OrZero (JNumber x) = Finite x"
| "float64OrZero _ = Finite 0"

text \<open>The records hold the fields that the processor and the monitor read. The \<open>int64\<close>
  counters are \<open>64 word\<close>, whose \<open>+\<close> wraps as Go's does. The \<open>int64\<close> heights and
  timestamps are \<open>int\<close>: a chain's heights and its timestamps in milliseconds are far
  from \<open>2^63\<close>, where the monitor's \<open>lastProcessedBlock + 1\<close> and its loop over the heights
  would wrap. A pointer that may be \<open>nil\<close> is an \<open>option\<close>; the slices hold the records their
  pointers refer to. \<open>Contracts\<close> is the field \<open>Contract\<close> of the raw transaction and
  \<open>EventTimestamp\<close> the field \<open>Timestamp\<close> of the event.\<close>

record Contract =
  Type :: string
  Parameter :: json

record TransactionRaw =
  Contracts :: "Contract list"

record Transaction =
  RawData :: "TransactionRaw option"
  TxID :: string

record Block =
  Trans :: "Transaction list option"

record BlockData =
  Height :: int
  BlockHash :: string
  Timestamp :: int
  Block :: "Block option"

record TransferEvent =
  Source :: string
  Destination :: string
  Amount :: float64
  Fee :: float64
  TxHash :: string
  BlockHeight :: int
  EventTimestamp :: int
  Confirmations :: int
  TokenType :: string
  ContractAddress :: string
  AssetName :: string
  IsUSDT :: bool
  USDValue :: float64

text \<open>\<open>AddedAt\<close> is the wall clock at creation and is left out.\<close>

record WatchAddress =
  Address :: string
  LastSeen :: int
  TransferCount :: "64 word"

record Config =
  Monitor_WorkerCount :: int
  Monitor_QueueSize :: int
  Monitor_MaxBlockHeight :: int
  Monitor_StartBlockHeight :: int
  USDT_ContractAddress :: string
  USDT_EnableMonitoring :: bool
  USDT_Decimals :: int

section \<open>Redis client\<close>

text \<open>
  The keys the client uses, each with the type of what it stores: the string keys
  \<open>transfer:<hash>\<close> and \<open>address_info:<address>\<close> (maps from the whole key), the lists
  \<open>transfers\<close>, \<open>usdt_transfers\<close> and \<open>block_queue\<close> (head first, where \<open>LPUSH\<close> adds)
  and the set \<open>watch_addresses\<close> (its members in the order \<open>SMEMBERS\<close> lists them).
  Values are stored as they are: \<open>json.Unmarshal\<close> gives back what \<open>json.Marshal\<close> was
  given. \<open>json.Marshal\<close> fails on an event with an amount that is an infinity or \<open>NaN\<close>,
  and on an address record whose \<open>LastSeen\<close> lies outside the years 0 to 9999 (taken in
  UTC); a block always serialises, its numbers being decoded ones. A command fails when
  the server is not reachable.
\<close>

record RedisClient =
  reachable :: bool
  transfer_keys :: "string \<Rightarrow> TransferEvent option"
  address_info :: "string \<Rightarrow> WatchAddress option"
  transfers :: "TransferEvent list"
  usdt_transfers :: "TransferEvent list"
  block_queue :: "BlockData list"
  watch_addresses :: "string list"

text \<open>\<open>LTRIM key start stop\<close>: both ends inclusive, a negative index counts from the
  end of the list.\<close>

definition LTrim :: "'a list \<Rightarrow> int \<Rightarrow> int \<Rightarrow> 'a list" where
  "LTrim xs start stop =
     (let n = int (length xs);
          s = (if start < 0 then max 0 (n + start) else start);
          e = (if stop < 0 then n + stop else min stop (n - 1))
      in if s > e \<or> s \<ge> n then [] else take (nat (e - s + 1)) (drop (nat s) xs))"


definition MarshalTransferEvent :: "TransferEvent \<Rightarrow> error + TransferEvent" where
  "MarshalTransferEvent event =
     (if unsupported (Amount event) \<or> unsupported (Fee event) \<or> unsupported (USDValue event)
      then Inl UnsupportedValue
      else Inr event)"

definition SaveTransferEvent :: "RedisClient \<Rightarrow> TransferEvent \<Rightarrow> error + RedisClient" where
  "SaveTransferEvent r event =
     (case MarshalTransferEvent event of
        Inl e \<Rightarrow> Inl (MarshalTransferEventFailed e)
      | Inr data \<Rightarrow>
          (let key = ''transfer:'' @ TxHash event in
           if \<not> reachable r then Inl (SaveTransferEventFailed RedisUnavailable)
           else
             let r1 = r\<lparr>transfer_keys := (transfer_keys r)(key \<mapsto> data)\<rparr>;
                 r2 = r1\<lparr>transfers := LTrim (data # transfers r1) 0 9999\<rparr>;
                 r3 = (if IsUSDT event
                       then r2\<lparr>usdt_transfers := LTrim (data # usdt_transfers r2) 0 9999\<rparr>
                       else r2)
             in Inr r3))"

definition GetTransferEvent :: "RedisClient \<Rightarrow> string \<Rightarrow> error + TransferEvent option" where
  "GetTransferEvent r txHash =
     (if \<not> reachable r then Inl RedisUnavailable
      else Inr (transfer_keys r (''transfer:'' @ txHash)))"

definition GetWatchAddresses :: "RedisClient \<Rightarrow> error + string list" where
  "GetWatchAddresses r =
     (if \<not> reachable r then Inl RedisUnavailable else Inr (watch_addresses r))"

text \<open>Go's integer division truncates towards zero.\<close>

definition quo :: "int \<Rightarrow> int \<Rightarrow> int" where
  "quo a b = sgn a * sgn b * (\<bar>a\<bar> div \<bar>b\<bar>)"

text \<open>\<open>LastSeen\<close> is the time in seconds; the years 0 to 9999 are the seconds from
  \<open>-62167219200\<close> up to \<open>253402300800\<close>.\<close>

definition MarshalWatchAddress :: "WatchAddress \<Rightarrow> error + WatchAddress" where
  "MarshalWatchAddress addrInfo =
     (if LastSeen addrInfo < - 62167219200 \<or> 253402300800 \<le> LastSeen addrInfo
      then Inl YearOutOfRange
      else Inr addrInfo)"

definition UpdateAddressStats :: "RedisClient \<Rightarrow> string \<Rightarrow> TransferEvent \<Rightarrow> error + RedisClient" where
  "UpdateAddressStats r address event =
     (let addrKey = ''address_info:'' @ address in
      if \<not> reachable r then Inl RedisUnavailable
      else
        let addrInfo = (case address_info r addrKey of
                          None \<Rightarrow> \<lparr>Address = address, LastSeen = 0, TransferCount = 0\<rparr>
                        | Some i \<Rightarrow> i);
            addrInfo1 = addrInfo\<lparr>LastSeen := quo (EventTimestamp event) 1000,
                                  TransferCount := TransferCount addrInfo + 1\<rparr>
        in case MarshalWatchAddress addrInfo1 of
             Inl e \<Rightarrow> Inl (MarshalAddressInfoFailed e)
           | Inr newAddrData \<Rightarrow>
               Inr (r\<lparr>address_info := (address_info r)(addrKey \<mapsto> newAddrData)\<rparr>))"

definition GetRecentTransfers :: "RedisClient \<Rightarrow> int \<Rightarrow> error + TransferEvent list" where
  "GetRecentTransfers r limit =
     (if \<not> reachable r then Inl RedisUnavailable
      else Inr (let n = int (length (transfers r));
                    e = (if limit - 1 < 0 then n + (limit - 1) else min (limit - 1) (n - 1))
                in if e < 0 then [] else take (nat (e + 1)) (transfers r)))"

section \<open>Block worker: the transfer decoder\<close>

text \<open>\<open>watchAddressSet[a]\<close>: the map built from the watch addresses holds \<open>true\<close> at
  each of them, and a missing key reads as \<open>false\<close>.\<close>

definition watched :: "string list \<Rightarrow> string \<Rightarrow> bool" where
  "watched watchAddresses a = (a \<in> set watchAddresses)"

definition updateAddressStats :: "string \<Rightarrow> BlockData \<Rightarrow> RedisClient \<Rightarrow> RedisClient" where
  "updateAddressStats address blockData r =
     (let tempEvent = \<lparr>Source = address, Destination = address, Amount = Finite 0,
                        Fee = Finite 0, TxHash = [], BlockHeight = Height blockData,
                        EventTimestamp = Timestamp blockData, Confirmations = 0,
                        TokenType = ''TRX'', ContractAddress = [], AssetName = [],
                        IsUSDT = False, USDValue = Finite 0\<rparr>
      in case UpdateAddressStats r address tempEvent of
           Inl e \<Rightarrow> r
         | Inr r1 \<Rightarrow> r1)"

definition extractTRXTransfer ::
  "Contract \<Rightarrow> Transaction \<Rightarrow> BlockData \<Rightarrow> string list \<Rightarrow> RedisClient
     \<Rightarrow> (error + TransferEvent option) \<times> RedisClient" where
  "extractTRXTransfer contract tx blockData watchAddressSet r =
     (case asMap (Parameter contract) of
        None \<Rightarrow> (Inl InvalidContractParameter, r)
      | Some paramData \<Rightarrow>
          (case asMap (index paramData ''value'') of
             None \<Rightarrow> (Inl InvalidValueData, r)
           | Some valueData \<Rightarrow>
               (let ownerAddress = stringOrZero (index valueData ''owner_address'');
                    toAddress = stringOrZero (index valueData ''to_address'');
                    amount = float64OrZero (index valueData ''amount'');
                    fromAddr = convertHexToBase58 ownerAddress;
                    toAddr = convertHexToBase58 toAddress;
                    r1 = (if watched watchAddressSet fromAddr
                          then updateAddressStats fromAddr blockData r else r);
                    r2 = (if watched watchAddressSet toAddr
                          then updateAddressStats toAddr blockData r1 else r1)
                in (Inr (Some \<lparr>Source = fromAddr, Destination = toAddr,
                                 Amount = Float64Quo amount (Finite 1000000),
                                 Fee = Finite 0, TxHash = TxID tx,
                                 BlockHeight = Height blockData,
                                 EventTimestamp = Timestamp blockData, Confirmations = 0,
                                 TokenType = ''TRX'', ContractAddress = [], AssetName = [],
                                 IsUSDT = False, USDValue = Finite 0\<rparr>), r2))))"

definition extractTRC10Transfer ::
  "Contract \<Rightarrow> Transaction \<Rightarrow> BlockData \<Rightarrow> string list \<Rightarrow> RedisClient
     \<Rightarrow> (error + TransferEvent option) \<times> RedisClient" where
  "extractTRC10Transfer contract tx blockData watchAddressSet r =
     (case asMap (Parameter contract) of
        None \<Rightarrow> (Inl InvalidContractParameter, r)
      | Some paramData \<Rightarrow>
          (case asMap (index paramData ''value'') of
             None \<Rightarrow> (Inl InvalidValueData, r)
           | Some valueData \<Rightarrow>
               (let ownerAddressHex = stringOrZero (index valueData ''owner_address'');
                    toAddressHex = stringOrZero (index valueData ''to_address'');
                    amount = float64OrZero (index valueData ''amount'');
                    assetName = stringOrZero (index valueData ''asset_name'');
                    ownerAddress = convertHexToBase58 ownerAddressHex;
                    toAddress = convertHexToBase58 toAddressHex
                in if \<not> watched watchAddressSet ownerAddress
                      \<and> \<not> watched watchAddressSet toAddress
                   then (Inr None, r)
                   else
                     (let r1 = (if watched watchAddressSet ownerAddress
                                then updateAddressStats ownerAddress blockData r else r);
                          r2 = (if watched watchAddressSet toAddress
                                then updateAddressStats toAddress blockData r1 else r1)
                      in (Inr (Some \<lparr>Source = ownerAddress, Destination = toAddress,
                                       Amount = amount, Fee = Finite 0, TxHash = TxID tx,
                                       BlockHeight = Height blockData,
                                       EventTimestamp = Timestamp blockData,
                                       Confirmations = 0, TokenType = ''TRC10'',
                                       ContractAddress = [], AssetName = assetName,
                                       IsUSDT = False, USDValue = Finite 0\<rparr>), r2)))))"

definition isUSDTContract :: "Config \<Rightarrow> string \<Rightarrow> bool" where
  "isUSDTContract cfg contractAddress = (contractAddress = USDT_ContractAddress cfg)"

definition parseHexAmount :: "string \<Rightarrow> error + float64" where
  "parseHexAmount hexStr0 =
     (let hexStr = TrimLeft hexStr0 ''0'' in
      if hexStr = [] then Inr (Finite 0)
      else case ParseUint16 hexStr of
             Inl e \<Rightarrow> Inl (ParseHexAmountFailed e)
           | Inr amount \<Rightarrow> Inr (Float64FromUint64 amount))"

definition parseTRC20TransferData ::
  "Config \<Rightarrow> string \<Rightarrow> string \<Rightarrow> string \<Rightarrow> Transaction \<Rightarrow> BlockData \<Rightarrow> bool
     \<Rightarrow> error + TransferEvent option" where
  "parseTRC20TransferData cfg data ownerAddress contractAddress tx blockData isUSDT =
     (if length data < 74 \<or> \<not> HasPrefix data ''a9059cbb'' then Inr None
      else if length data < 8 then Inl DataTooShort
      else
        let data1 = drop 8 data in
        if length data1 < 64 then Inl AddressDataTooShort
        else
          let toAddressHex0 = take 64 data1;
              data2 = drop 64 data1
          in
          if length data2 < 64 then Inl AmountDataTooShort
          else
            let amountHex = take 64 data2;
                toAddressHex1 = TrimLeft toAddressHex0 ''0'';
                toAddressHex = (if length toAddressHex1 < 40
                                then Repeat ''0'' (40 - length toAddressHex1) @ toAddressHex1
                                else toAddressHex1);
                fullAddressHex = ''41'' @ toAddressHex;
                toAddress = convertHexToBase58 fullAddressHex
            in
            case parseHexAmount amountHex of
              Inl e \<Rightarrow> Inl (ParseAmountFailed e)
            | Inr amount0 \<Rightarrow>
                (let amount = (if isUSDT
                               then Float64Quo amount0
                                      (MathPow10 (Float64FromInt (USDT_Decimals cfg)))
                               else amount0);
                     tokenType = (if isUSDT then ''USDT'' else ''TRC20'');
                     fromAddress = convertHexToBase58 ownerAddress
                 in Inr (Some \<lparr>Source = fromAddress, Destination = toAddress,
                                 Amount = amount, Fee = Finite 0, TxHash = TxID tx,
                                 BlockHeight = Height blockData,
                                 EventTimestamp = Timestamp blockData, Confirmations = 0,
                                 TokenType = tokenType, ContractAddress = contractAddress,
                                 AssetName = [], IsUSDT = isUSDT, USDValue = amount\<rparr>)))"

definition extractTRC20Transfer ::
  "Config \<Rightarrow> Contract \<Rightarrow> Transaction \<Rightarrow> BlockData \<Rightarrow> string list \<Rightarrow> RedisClient
     \<Rightarrow> (error + TransferEvent option) \<times> RedisClient" where
  "extractTRC20Transfer cfg contract tx blockData watchAddressSet r =
     (case asMap (Parameter contract) of
        None \<Rightarrow> (Inl InvalidContractParameter, r)
      | Some paramData \<Rightarrow>
          (case asMap (index paramData ''value'') of
             None \<Rightarrow> (Inl InvalidValueData, r)
           | Some valueData \<Rightarrow>
               (let ownerAddressHex = stringOrZero (index valueData ''owner_address'');
                    contractAddressHex = stringOrZero (index valueData ''contract_address'');
                    data = stringOrZero (index valueData ''data'');
                    ownerAddress = convertHexToBase58 ownerAddressHex;
                    contractAddress = convertHexToBase58 contractAddressHex;
                    isUSDT = isUSDTContract cfg contractAddress
                in if isUSDT \<and> \<not> USDT_EnableMonitoring cfg then (Inr None, r)
                   else
                     (case parseTRC20TransferData cfg data ownerAddress contractAddress
                             tx blockData isUSDT of
                        Inl e \<Rightarrow> (Inl e, r)
                      | Inr None \<Rightarrow> (Inr None, r)
                      | Inr (Some transfer) \<Rightarrow>
                          if \<not> watched watchAddressSet (Source transfer)
                             \<and> \<not> watched watchAddressSet (Destination transfer)
                          then (Inr None, r)
                          else
                            (let r1 = (if watched watchAddressSet (Source transfer)
                                       then updateAddressStats (Source transfer) blockData r
                                       else r);
                                 r2 = (if watched watchAddressSet (Destination transfer)
                                       then updateAddressStats (Destination transfer) blockData r1
                                       else r1)
                             in (Inr (Some transfer), r2))))))"

definition extractTransferFromContract ::
  "Config \<Rightarrow> Contract \<Rightarrow> Transaction \<Rightarrow> BlockData \<Rightarrow> string list \<Rightarrow> RedisClient
     \<Rightarrow> (error + TransferEvent option) \<times> RedisClient" where
  "extractTransferFromContract cfg contract tx blockData watchAddressSet r =
     (if Type contract = ''TransferContract''
        then extractTRXTransfer contract tx blockData watchAddressSet r
      else if Type contract = ''TransferAssetContract''
        then extractTRC10Transfer contract tx blockData watchAddressSet r
      else if Type contract = ''TriggerSmartContract''
        then extractTRC20Transfer cfg contract tx blockData watchAddressSet r
      else (Inr None, r))"

text \<open>The loop over the contracts of one transaction: an error of one contract is logged
  and the loop goes on with the next.\<close>

fun extractContracts ::
  "Config \<Rightarrow> Contract list \<Rightarrow> Transaction \<Rightarrow> BlockData \<Rightarrow> string list
     \<Rightarrow> TransferEvent list \<Rightarrow> RedisClient \<Rightarrow> TransferEvent list \<times> RedisClient" where
  "extractContracts cfg [] tx blockData watchAddressSet transfers_acc r = (transfers_acc, r)"
| "extractContracts cfg (contract # rest) tx blockData watchAddressSet transfers_acc r =
     (case extractTransferFromContract cfg contract tx blockData watchAddressSet r of
        (Inl e, r1) \<Rightarrow> extractContracts cfg rest tx blockData watchAddressSet transfers_acc r1
      | (Inr None, r1) \<Rightarrow> extractContracts cfg rest tx blockData watchAddressSet transfers_acc r1
      | (Inr (Some transfer), r1) \<Rightarrow>
          extractContracts cfg rest tx blockData watchAddressSet (transfers_acc @ [transfer]) r1)"

definition extractTransfers ::
  "Config \<Rightarrow> Transaction \<Rightarrow> BlockData \<Rightarrow> RedisClient
     \<Rightarrow> (error + TransferEvent list) \<times> RedisClient" where
  "extractTransfers cfg tx blockData r =
     (case RawData tx of
        None \<Rightarrow> (Inr [], r)
      | Some raw \<Rightarrow>
          if length (Contracts raw) = 0 then (Inr [], r)
          else
            (case GetWatchAddresses r of
               Inl e \<Rightarrow> (Inl (GetWatchAddressesFailed e), r)
             | Inr watchAddresses \<Rightarrow>
                 (case extractContracts cfg (Contracts raw) tx blockData watchAddresses [] r of
                    (ts, r1) \<Rightarrow> (Inr ts, r1))))"

section \<open>Block worker pool\<close>

text \<open>The contexts are kept as their cancelled flag. The mutexes and wait groups order
  concurrent callers and have no state of their own here. The fields \<open>id\<close> and
  \<open>running\<close> of a worker are \<open>w_id\<close> and \<open>w_running\<close>, the field \<open>running\<close> of the
  processor is \<open>bp_running\<close>.\<close>

record BlockWorker =
  w_id :: int
  w_running :: bool
  w_cancelled :: bool

record BlockProcessor =
  workers :: "BlockWorker list"
  bp_running :: bool
  bp_cancelled :: bool
  processedBlocks :: "64 word"
  transfersFound :: "64 word"
  errors :: "64 word"

text \<open>The loop over the transactions of a block, then the loop that saves the events.\<close>

fun extractBlock ::
  "Config \<Rightarrow> Transaction list \<Rightarrow> BlockData \<Rightarrow> TransferEvent list \<Rightarrow> RedisClient
     \<Rightarrow> TransferEvent list \<times> RedisClient" where
  "extractBlock cfg [] blockData transfers_acc r = (transfers_acc, r)"
| "extractBlock cfg (tx # rest) blockData transfers_acc r =
     (case extractTransfers cfg tx blockData r of
        (Inl e, r1) \<Rightarrow> extractBlock cfg rest blockData transfers_acc r1
      | (Inr txTransfers, r1) \<Rightarrow>
          extractBlock cfg rest blockData (transfers_acc @ txTransfers) r1)"

fun saveTransfers ::
  "TransferEvent list \<Rightarrow> BlockProcessor \<times> RedisClient \<Rightarrow> BlockProcessor \<times> RedisClient" where
  "saveTransfers [] (bp, r) = (bp, r)"
| "saveTransfers (transfer # rest) (bp, r) =
     (case SaveTransferEvent r transfer of
        Inl e \<Rightarrow> saveTransfers rest (bp, r)
      | Inr r1 \<Rightarrow> saveTransfers rest (bp\<lparr>transfersFound := transfersFound bp + 1\<rparr>, r1))"

definition processBlock ::
  "Config \<Rightarrow> BlockData \<Rightarrow> BlockProcessor \<times> RedisClient
     \<Rightarrow> error option \<times> BlockProcessor \<times> RedisClient" where
  "processBlock cfg blockData s =
     (case s of (bp, r) \<Rightarrow>
        (case Block blockData of
           None \<Rightarrow> (Some InvalidBlockData, bp, r)
         | Some blk \<Rightarrow>
             (case Trans blk of
                None \<Rightarrow> (Some InvalidBlockData, bp, r)
              | Some txs \<Rightarrow>
                  (case extractBlock cfg txs blockData [] r of
                     (ts, r1) \<Rightarrow> (None, saveTransfers ts (bp, r1))))))"

text \<open>One turn of \<open>processBlocks\<close> on a block taken from the queue: the counters.\<close>

definition processDequeued ::
  "Config \<Rightarrow> BlockData \<Rightarrow> BlockProcessor \<times> RedisClient \<Rightarrow> BlockProcessor \<times> RedisClient" where
  "processDequeued cfg blockData s =
     (case processBlock cfg blockData s of
        (Some e, bp, r) \<Rightarrow> (bp\<lparr>errors := errors bp + 1\<rparr>, r)
      | (None, bp, r) \<Rightarrow> (bp\<lparr>processedBlocks := processedBlocks bp + 1\<rparr>, r))"

definition start :: "BlockWorker \<Rightarrow> BlockWorker" where
  "start w = (if w_running w then w else w\<lparr>w_running := True\<rparr>)"

definition stop :: "BlockWorker \<Rightarrow> BlockWorker" where
  "stop w = (if \<not> w_running w then w else w\<lparr>w_running := False, w_cancelled := True\<rparr>)"

text \<open>\<open>Start\<close> hands each worker's \<open>start\<close> to a goroutine; the state below is the one
  reached when these have run.\<close>

definition Start :: "BlockProcessor \<Rightarrow> error option \<times> BlockProcessor" where
  "Start bp =
     (if bp_running bp then (Some ProcessorAlreadyRunning, bp)
      else (None, bp\<lparr>bp_running := True, workers := map start (workers bp)\<rparr>))"

definition Stop :: "BlockProcessor \<Rightarrow> error option \<times> BlockProcessor" where
  "Stop bp =
     (if \<not> bp_running bp then (Some ProcessorNotRunning, bp)
      else (None, bp\<lparr>bp_running := False, bp_cancelled := True,
                      workers := map (\<lambda>w. stop (w\<lparr>w_cancelled := True\<rparr>)) (workers bp)\<rparr>))"

section \<open>Block monitor\<close>

text \<open>The block source as the monitor sees it during one tick: the answer to the request
  for the head and the answer to the request for each height.\<close>

record HTTPClient =
  GetLatestBlock :: "error + BlockData"
  GetBlockByNumber :: "int \<Rightarrow> error + BlockData"





section \<open>Notions of the specification and example values\<close>

text \<open>An ABI argument: the hexadecimal digits padded on the left with zeros to 32 bytes.\<close>

definition pad64 :: "string \<Rightarrow> string" where
  "pad64 s = replicate (64 - length s) (CHR ''0'') @ s"

text \<open>A string of hexadecimal digits read as a big-endian unsigned integer: the value of
  each digit from a table, the last character the least significant digit.\<close>

definition hex_digit :: "char \<Rightarrow> int option" where
  "hex_digit c =
     map_of [(CHR ''0'', 0), (CHR ''1'', 1), (CHR ''2'', 2), (CHR ''3'', 3), (CHR ''4'', 4),
             (CHR ''5'', 5), (CHR ''6'', 6), (CHR ''7'', 7), (CHR ''8'', 8), (CHR ''9'', 9),
             (CHR ''a'', 10), (CHR ''b'', 11), (CHR ''c'', 12), (CHR ''d'', 13),
             (CHR ''e'', 14), (CHR ''f'', 15),
             (CHR ''A'', 10), (CHR ''B'', 11), (CHR ''C'', 12), (CHR ''D'', 13),
             (CHR ''E'', 14), (CHR ''F'', 15)] c"

fun base16_rev :: "string \<Rightarrow> int option" where
  "base16_rev [] = Some 0"
| "base16_rev (c # cs) =
     (case (hex_digit c, base16_rev cs) of
        (Some d, Some v) \<Rightarrow> Some (d + 16 * v)
      | _ \<Rightarrow> None)"

definition big_endian :: "string \<Rightarrow> int option" where
  "big_endian s = base16_rev (rev s)"

text \<open>The blocks that the block source delivers for a list of heights, in that order.\<close>

definition fetched :: "HTTPClient \<Rightarrow> int list \<Rightarrow> BlockData list" where
  "fetched http hs =
     List.map_filter (\<lambda>h. case GetBlockByNumber http h of Inl e \<Rightarrow> None | Inr b \<Rightarrow> Some b) hs"

text \<open>The defaults of \<open>setDefaults\<close>.\<close>

definition default_config :: Config where
  "default_config =
     \<lparr>Monitor_WorkerCount = 4, Monitor_QueueSize = 1000, Monitor_MaxBlockHeight = 0,
      Monitor_StartBlockHeight = 0,
      USDT_ContractAddress = ''TR7NHqjeKQxGTCi8q8ZY4pL8otSzgjLj6t'',
      USDT_EnableMonitoring = True, USDT_Decimals = 6\<rparr>"

definition usdt_hex :: string where
  "usdt_hex = ''41a614f803b6fd780986a42c78ec9c7f77e6ded13c''"

definition tx1 :: Transaction where
  "tx1 = \<lparr>RawData = None, TxID = ''tx1''\<rparr>"

definition block115 :: BlockData where
  "block115 = \<lparr>Height = 115, BlockHash = [], Timestamp = 1700000000000, Block = None\<rparr>"

definition empty_redis :: RedisClient where
  "empty_redis =
     \<lparr>reachable = True, transfer_keys = (\<lambda>k. None), address_info = (\<lambda>k. None),
      transfers = [], usdt_transfers = [], block_queue = [], watch_addresses = []\<rparr>"

definition worker_on :: BlockWorker where
  "worker_on = \<lparr>w_id = 0, w_running = True, w_cancelled = False\<rparr>"

definition worker_off :: BlockWorker where
  "worker_off = \<lparr>w_id = 0, w_running = False, w_cancelled = False\<rparr>"

definition pool_on :: BlockProcessor where
  "pool_on = \<lparr>workers = [worker_on], bp_running = True, bp_cancelled = False,
              processedBlocks = 0, transfersFound = 0, errors = 0\<rparr>"

definition pool_off :: BlockProcessor where
  "pool_off = \<lparr>workers = [worker_off], bp_running = False, bp_cancelled = False,
               processedBlocks = 0, transfersFound = 0, errors = 0\<rparr>"

text \<open>A transfer call of one million units to the address of the default contract, the
  event it decodes to for a contract that is not tracked, and a call cut after the first
  byte of its second argument.\<close>

definition transfer_data :: string where
  "transfer_data = ''a9059cbb''
     @ ''000000000000000000000000a614f803b6fd780986a42c78ec9c7f77e6ded13c''
     @ ''00000000000000000000000000000000000000000000000000000000000f4240''"

definition trc20_event :: TransferEvent where
  "trc20_event =
     \<lparr>Source = ''T1'',
      Destination = convertHexToBase58 ''41a614f803b6fd780986a42c78ec9c7f77e6ded13c'',
      Amount = Finite 1000000, Fee = Finite 0, TxHash = ''tx1'',
      BlockHeight = 115, EventTimestamp = 1700000000000, Confirmations = 0,
      TokenType = ''TRC20'', ContractAddress = ''T2'', AssetName = [],
      IsUSDT = False, USDValue = Finite 1000000\<rparr>"

definition short_data :: string where
  "short_data = ''a9059cbb''
     @ ''000000000000000000000000a614f803b6fd780986a42c78ec9c7f77e6ded13c''
     @ ''01''"

text \<open>Contracts as the provider delivers them, the fields under \<open>value\<close>.\<close>

definition transfer_fields :: "(string \<times> json) list" where
  "transfer_fields = [(''owner_address'', JString ''T1''), (''to_address'', JString ''T2''),
                      (''amount'', JNumber 5000000),
                      (''asset_name'', JString ''token'')]"

definition trigger_fields :: "string \<Rightarrow> (string \<times> json) list" where
  "trigger_fields d = [(''owner_address'', JString ''T1''), (''contract_address'', JString ''T2''),
                       (''data'', JString d)]"

definition native_contract :: "(string \<times> json) list \<Rightarrow> Contract" where
  "native_contract v = \<lparr>Type = ''TransferContract'', Parameter = JObject [(''value'', JObject v)]\<rparr>"

definition asset_contract :: "(string \<times> json) list \<Rightarrow> Contract" where
  "asset_contract v =
     \<lparr>Type = ''TransferAssetContract'', Parameter = JObject [(''value'', JObject v)]\<rparr>"

definition trigger_contract :: "string \<Rightarrow> Contract" where
  "trigger_contract d =
     \<lparr>Type = ''TriggerSmartContract'',
      Parameter = JObject [(''value'', JObject (trigger_fields d))]\<rparr>"

definition null_contract :: Contract where
  "null_contract = \<lparr>Type = ''TransferContract'', Parameter = JNull\<rparr>"

definition usdt_transfer_contract :: Contract where
  "usdt_transfer_contract =
     \<lparr>Type = ''TriggerSmartContract'',
      Parameter = JObject [(''value'', JObject [(''owner_address'', JString ''T1''),
                                               (''contract_address'', JString usdt_hex),
                                               (''data'', JString transfer_data)])]\<rparr>"

text \<open>A parameters payload that is no map, or whose \<open>value\<close> is missing or no map.\<close>

definition malformed :: "Contract \<Rightarrow> bool" where
  "malformed c =
     (case asMap (Parameter c) of
        None \<Rightarrow> True
      | Some p \<Rightarrow> asMap (index p ''value'') = None)"

text \<open>The event of a native transfer with the fields \<open>v\<close>, and the event of one with no
  fields at all.\<close>

definition native_event :: "(string \<times> json) list \<Rightarrow> Transaction \<Rightarrow> BlockData \<Rightarrow> TransferEvent" where
  "native_event v tx blockData =
     \<lparr>Source = convertHexToBase58 (stringOrZero (index v ''owner_address'')),
      Destination = convertHexToBase58 (stringOrZero (index v ''to_address'')),
      Amount = Float64Quo (float64OrZero (index v ''amount'')) (Finite 1000000),
      Fee = Finite 0, TxHash = TxID tx, BlockHeight = Height blockData,
      EventTimestamp = Timestamp blockData, Confirmations = 0,
      TokenType = ''TRX'', ContractAddress = [], AssetName = [],
      IsUSDT = False, USDValue = Finite 0\<rparr>"

definition zero_event :: TransferEvent where
  "zero_event =
     \<lparr>Source = [], Destination = [],
      Amount = Float64Quo (Finite 0) (Finite 1000000), Fee = Finite 0,
      TxHash = ''tx1'', BlockHeight = 115, EventTimestamp = 1700000000000, Confirmations = 0,
      TokenType = ''TRX'', ContractAddress = [], AssetName = [],
      IsUSDT = False, USDValue = Finite 0\<rparr>"

text \<open>A block with given transactions.\<close>

definition block_with :: "Transaction list \<Rightarrow> BlockData" where
  "block_with txs = \<lparr>Height = 115, BlockHash = [], Timestamp = 1700000000000,
                     Block = Some \<lparr>Trans = Some txs\<rparr>\<rparr>"

definition watching_redis :: RedisClient where
  "watching_redis = empty_redis\<lparr>watch_addresses := [''TLa2f6VPqDgRE67v1736s7bJ8Ray5wYjU7'']\<rparr>"

text \<open>A rational number that is the value of a \<open>float64\<close>; an event that
  \<open>json.Marshal\<close> accepts; two states of the store that differ in the address records
  at most.\<close>

definition is_float64 :: "rat \<Rightarrow> bool" where
  "is_float64 q = (round64 q = Finite q)"

definition finite_amounts :: "TransferEvent \<Rightarrow> bool" where
  "finite_amounts ev =
     (\<not> unsupported (Amount ev) \<and> \<not> unsupported (Fee ev) \<and> \<not> unsupported (USDValue ev))"

definition same_events :: "RedisClient \<Rightarrow> RedisClient \<Rightarrow> bool" where
  "same_events r r1 =
     (reachable r1 = reachable r \<and> watch_addresses r1 = watch_addresses r \<and>
      transfers r1 = transfers r \<and> transfer_keys r1 = transfer_keys r \<and>
      usdt_transfers r1 = usdt_transfers r \<and> block_queue r1 = block_queue r)"

text \<open>A transaction with an asset transfer, a native transfer, a contract call and a
  second native transfer.\<close>

definition mixed_tx :: Transaction where
  "mixed_tx =
     \<lparr>RawData = Some \<lparr>Contracts = [asset_contract transfer_fields,
                                      native_contract transfer_fields,
                                      trigger_contract transfer_data,
                                      native_contract transfer_fields]\<rparr>,
      TxID = ''tx1''\<rparr>"

definition five_trx :: TransferEvent where
  "five_trx =
     \<lparr>Source = ''T1'', Destination = ''T2'', Amount = Finite 5, Fee = Finite 0,
      TxHash = ''tx1'', BlockHeight = 115, EventTimestamp = 1700000000000, Confirmations = 0,
      TokenType = ''TRX'', ContractAddress = [], AssetName = [],
      IsUSDT = False, USDValue = Finite 0\<rparr>"

text \<open>The same event saved two times in a row.\<close>

definition save_twice :: "RedisClient \<Rightarrow> TransferEvent \<Rightarrow> error + RedisClient" where
  "save_twice r event =
     (case SaveTransferEvent r event of
        Inl e \<Rightarrow> Inl e
      | Inr r1 \<Rightarrow> SaveTransferEvent r1 event)"

text \<open>The destination and the USD value of a decoded event, if there is one.\<close>

fun destination_of :: "error + TransferEvent option \<Rightarrow> string option" where
  "destination_of (Inr (Some ev)) = Some (Destination ev)"
| "destination_of _ = None"

fun usd_value_of :: "error + TransferEvent option \<Rightarrow> float64 option" where
  "usd_value_of (Inr (Some ev)) = Some (USDValue ev)"
| "usd_value_of _ = None"

text \<open>A transfer call whose amount is \<open>2^64\<close>, one whose first argument carries the
  address with its prefix byte \<open>41\<close>, 21 bytes, and one whose amount is \<open>2^64 - 1\<close>.\<close>

definition max_amount_data :: string where
  "max_amount_data = ''a9059cbb'' @ pad64 ''a614f803b6fd780986a42c78ec9c7f77e6ded13c''
                       @ pad64 ''ffffffffffffffff''"

text \<open>A native transfer of one unit, and the event it decodes to.\<close>

definition one_sun_fields :: "(string \<times> json) list" where
  "one_sun_fields = [(''owner_address'', JString ''T1''), (''to_address'', JString ''T2''),
                     (''amount'', JNumber 1)]"

definition one_sun_event :: TransferEvent where
  "one_sun_event =
     \<lparr>Source = ''T1'', Destination = ''T2'',
      Amount = Finite (4722366482869645 / 4722366482869645213696), Fee = Finite 0,
      TxHash = ''tx1'', BlockHeight = 115, EventTimestamp = 1700000000000, Confirmations = 0,
      TokenType = ''TRX'', ContractAddress = [], AssetName = [],
      IsUSDT = False, USDValue = Finite 0\<rparr>"

definition overflow_data :: string where
  "overflow_data = ''a9059cbb'' @ pad64 ''a614f803b6fd780986a42c78ec9c7f77e6ded13c''
                     @ pad64 ''10000000000000000''"

definition prefixed_data :: string where
  "prefixed_data = ''a9059cbb'' @ pad64 ''41a614f803b6fd780986a42c78ec9c7f77e6ded13c''
                     @ pad64 ''f4240''"






section \<open>Rounding to \<open>float64\<close>\<close>

lemma ilog2_bounds:
  "1 \<le> n \<Longrightarrow> 0 \<le> ilog2 n \<and> 2 ^ nat (ilog2 n) \<le> n \<and> n < 2 * 2 ^ nat (ilog2 n)"
proof (induction n rule: ilog2.induct)
  case (1 n)
  show ?case
  proof (cases "n < 2")
    case True
    with "1.prems" have "n = 1" by simp
    then show ?thesis by (simp add: ilog2.simps)
  next
    case False
    then have h: "1 \<le> n div 2" by simp
    from "1.IH" [OF False h]
    have ih: "0 \<le> ilog2 (n div 2)" "2 ^ nat (ilog2 (n div 2)) \<le> n div 2"
      "n div 2 < 2 * 2 ^ nat (ilog2 (n div 2))" by simp_all
    have e: "ilog2 n = 1 + ilog2 (n div 2)" using False by (subst ilog2.simps) simp
    have n: "nat (1 + ilog2 (n div 2)) = Suc (nat (ilog2 (n div 2)))" using ih(1) by simp
    show ?thesis unfolding e n using ih by simp linarith
  qed
qed

lemma ilog2_powi:
  assumes "1 \<le> n"
  shows "0 \<le> ilog2 n" "(2::rat) powi ilog2 n \<le> of_int n" "of_int n < (2::rat) powi (ilog2 n + 1)"
proof -
  from ilog2_bounds [OF assms]
  have b: "0 \<le> ilog2 n" "2 ^ nat (ilog2 n) \<le> n" "n < 2 * 2 ^ nat (ilog2 n)" by simp_all
  show "0 \<le> ilog2 n" by (rule b(1))
  have "(of_int (2 ^ nat (ilog2 n)) :: rat) \<le> of_int n" using b(2) by (simp only: of_int_le_iff)
  then show "(2::rat) powi ilog2 n \<le> of_int n" using b(1) by (simp add: power_int_def)
  have "(of_int n :: rat) < of_int (2 * 2 ^ nat (ilog2 n))" using b(3) by (simp only: of_int_less_iff)
  moreover have "nat (ilog2 n + 1) = Suc (nat (ilog2 n))" using b(1) by simp
  ultimately show "of_int n < (2::rat) powi (ilog2 n + 1)" using b(1) by (simp add: power_int_def)
qed

lemma floor_log2_bounds:
  assumes "0 < a"
  shows "(2::rat) powi floor_log2 a \<le> a" "a < (2::rat) powi (floor_log2 a + 1)"
proof -
  have "(2::rat) powi floor_log2 a \<le> a \<and> a < (2::rat) powi (floor_log2 a + 1)"
  proof (cases "1 \<le> a")
    case True
    then have f: "1 \<le> \<lfloor>a\<rfloor>" by simp
    have e: "floor_log2 a = ilog2 \<lfloor>a\<rfloor>" using True by (simp add: floor_log2_def)
    have "(2::rat) powi ilog2 \<lfloor>a\<rfloor> \<le> of_int \<lfloor>a\<rfloor>" by (rule ilog2_powi(2) [OF f])
    also have "\<dots> \<le> a" by simp
    finally have l: "(2::rat) powi floor_log2 a \<le> a" unfolding e .
    have "\<lfloor>a\<rfloor> < 2 * 2 ^ nat (ilog2 \<lfloor>a\<rfloor>)" using ilog2_bounds [OF f] by simp
    then have "\<lfloor>a\<rfloor> + 1 \<le> 2 * 2 ^ nat (ilog2 \<lfloor>a\<rfloor>)" by simp
    then have "(of_int (\<lfloor>a\<rfloor> + 1) :: rat) \<le> of_int (2 * 2 ^ nat (ilog2 \<lfloor>a\<rfloor>))"
      by (simp only: of_int_le_iff)
    moreover have "a < of_int (\<lfloor>a\<rfloor> + 1)" by linarith
    ultimately have "a < of_int (2 * 2 ^ nat (ilog2 \<lfloor>a\<rfloor>))" by linarith
    moreover have "nat (ilog2 \<lfloor>a\<rfloor> + 1) = Suc (nat (ilog2 \<lfloor>a\<rfloor>))"
      using ilog2_powi(1) [OF f] by simp
    ultimately have "a < (2::rat) powi (floor_log2 a + 1)"
      unfolding e using ilog2_powi(1) [OF f] by (simp add: power_int_def)
    with l show ?thesis by simp
  next
    case False
    define b where "b = 1 / a"
    define c where "c = ilog2 \<lfloor>b\<rfloor>"
    have b1: "1 < b" using False assms by (simp add: b_def)
    then have f: "1 \<le> \<lfloor>b\<rfloor>" by simp
    have a: "a = 1 / b" using assms by (simp add: b_def)
    have c0: "0 \<le> c" unfolding c_def by (rule ilog2_powi(1) [OF f])
    have lo: "(2::rat) powi c \<le> b"
    proof -
      have "(2::rat) powi c \<le> of_int \<lfloor>b\<rfloor>" unfolding c_def by (rule ilog2_powi(2) [OF f])
      also have "\<dots> \<le> b" by simp
      finally show ?thesis .
    qed
    have hi: "b \<le> (2::rat) powi (c + 1)"
    proof -
      have "\<lfloor>b\<rfloor> < 2 * 2 ^ nat c" using ilog2_bounds [OF f] by (simp add: c_def)
      then have "\<lfloor>b\<rfloor> + 1 \<le> 2 * 2 ^ nat c" by simp
      then have "(of_int (\<lfloor>b\<rfloor> + 1) :: rat) \<le> of_int (2 * 2 ^ nat c)"
        by (simp only: of_int_le_iff)
      moreover have "b < of_int (\<lfloor>b\<rfloor> + 1)" by linarith
      ultimately have "b \<le> of_int (2 * 2 ^ nat c)" by linarith
      moreover have "nat (c + 1) = Suc (nat c)" using c0 by simp
      ultimately show ?thesis using c0 by (simp add: power_int_def)
    qed
    have p: "0 < (2::rat) powi k" for k by simp
    show ?thesis
    proof (cases "2 powi c = b")
      case True
      then have e: "floor_log2 a = - c" using False by (simp add: floor_log2_def b_def c_def Let_def)
      have "(2::rat) powi (- c) = a" using True a by (simp add: power_int_minus field_simps)
      moreover have "(2::rat) powi (- c + 1) = 2 powi (- c) * 2 powi 1"
        by (rule power_int_add) simp
      then have "(2::rat) powi (- c + 1) = 2 * a"
        using True a by (simp add: power_int_minus field_simps)
      ultimately show ?thesis unfolding e using assms by simp
    next
      case ne: False
      then have e: "floor_log2 a = - (c + 1)"
        using False by (simp add: floor_log2_def b_def c_def Let_def)
      have "(2::rat) powi (- (c + 1)) = 1 / 2 powi (c + 1)"
        using power_int_minus [of "2::rat" "c + 1"] by (simp add: inverse_eq_divide)
      also have "\<dots> \<le> 1 / b" using hi b1 by (simp add: frac_le)
      finally have l: "(2::rat) powi (- (c + 1)) \<le> a" using a by simp
      have "(2::rat) powi c < b" using lo ne by simp
      then have "1 / b < 1 / (2::rat) powi c" using p [of c] by (simp add: frac_less2)
      then have "a < (2::rat) powi (- c)" using a by (simp add: power_int_minus field_simps)
      then show ?thesis unfolding e using l by simp
    qed
  qed
  then show "(2::rat) powi floor_log2 a \<le> a" "a < (2::rat) powi (floor_log2 a + 1)" by simp_all
qed

lemma round_even_of_int: "round_even (of_int k) = k"
  by (simp add: round_even_def)

lemma round_even_upper: "of_int (round_even m) \<le> m + 1"
  unfolding round_even_def Let_def by (simp; linarith)

lemma round_even_nonneg: "0 \<le> m \<Longrightarrow> 0 \<le> round_even m"
  unfolding round_even_def Let_def by (simp; linarith)


lemma powi_le_numeral: "k \<le> int n \<Longrightarrow> (2::rat) powi k \<le> 2 ^ n"
proof -
  assume "k \<le> int n"
  then have "(2::rat) powi k \<le> 2 powi (int n)" by (intro power_int_increasing) simp_all
  then show ?thesis by simp
qed

lemma round64_finite:
  assumes "\<bar>q\<bar> < 2 ^ 1023"
  shows "\<exists>v. round64 q = Finite v"
proof (cases "q = 0")
  case True
  then show ?thesis by (simp add: round64_def)
next
  case False
  define a where "a = \<bar>q\<bar>"
  define p where "p = max (floor_log2 a - 52) (- 1074)"
  define v where "v = (of_int (round_even (a / 2 powi p)) :: rat) * 2 powi p"
  have a0: "0 < a" using False by (simp add: a_def)
  have pp: "0 < (2::rat) powi p" by simp
  have "(2::rat) powi floor_log2 a < 2 powi 1023"
    using floor_log2_bounds(1) [OF a0] assms by (simp add: a_def)
  have "floor_log2 a < 1023"
  proof (rule ccontr)
    assume "\<not> floor_log2 a < 1023"
    then have "(2::rat) powi 1023 \<le> 2 powi floor_log2 a" by (intro power_int_increasing) simp_all
    with \<open>(2::rat) powi floor_log2 a < 2 powi 1023\<close> show False by simp
  qed
  then have "p \<le> int 1023" by (simp add: p_def)
  then have p2: "(2::rat) powi p \<le> 2 ^ 1023" by (rule powi_le_numeral)
  have "v \<le> (a / 2 powi p + 1) * 2 powi p"
    unfolding v_def using round_even_upper [of "a / 2 powi p"] pp
    by (intro mult_right_mono) simp_all
  also have "\<dots> = a + 2 powi p" using pp by (simp add: field_simps)
  also have "\<dots> < 2 ^ 1023 + 2 ^ 1023" using assms p2 by (simp add: a_def)
  also have "\<dots> = (2::rat) ^ 1024" by simp
  finally have "\<not> 2 ^ 1024 \<le> v" by simp
  then show ?thesis
    using False by (simp add: round64_def Let_def a_def [symmetric] p_def [symmetric] v_def [symmetric])
qed

lemma round64_bound:
  assumes "round64 q = Finite v"
  shows "\<bar>v\<bar> < 2 ^ 1024"
proof (cases "q = 0")
  case True
  with assms show ?thesis by (simp add: round64_def)
next
  case False
  define a where "a = \<bar>q\<bar>"
  define p where "p = max (floor_log2 a - 52) (- 1074)"
  define w where "w = (of_int (round_even (a / 2 powi p)) :: rat) * 2 powi p"
  have "0 \<le> a / 2 powi p" by (simp add: a_def)
  then have "0 \<le> round_even (a / 2 powi p)" by (rule round_even_nonneg)
  then have w0: "0 \<le> w" by (simp add: w_def)
  from assms False have "\<not> 2 ^ 1024 \<le> w \<and> (v = w \<or> v = - w)"
    by (simp add: round64_def Let_def a_def [symmetric] p_def [symmetric] w_def [symmetric]
          split: if_splits)
  with w0 show ?thesis by auto
qed

lemma round64_of_int:
  assumes "0 \<le> n" "n < 2 ^ 53"
  shows "round64 (of_int n) = Finite (of_int n)"
proof (cases "n = 0")
  case True
  then show ?thesis by (simp add: round64_def)
next
  case False
  with assms have n1: "1 \<le> n" by simp
  define e where "e = ilog2 n"
  define k where "k = nat (52 - e)"
  have e0: "0 \<le> e" unfolding e_def by (rule ilog2_powi(1) [OF n1])
  have "2 ^ nat e \<le> n" using ilog2_bounds [OF n1] by (simp add: e_def)
  with assms(2) have "(2::int) ^ nat e < 2 ^ 53" by simp
  then have "nat e < 53" by (rule power_less_imp_less_exp [rotated]) simp
  then have e52: "e \<le> 52" by simp
  have ex: "floor_log2 (\<bar>of_int n\<bar>) = e" using n1 by (simp add: floor_log2_def e_def)
  have p: "max (e - 52) (- 1074) = - int k" using e0 e52 by (simp add: k_def)
  have pw: "(2::rat) powi (- int k) = 1 / 2 ^ k" by (simp add: power_int_minus inverse_eq_divide)
  have q: "\<bar>of_int n\<bar> / (2::rat) powi (- int k) = of_int (n * 2 ^ k)"
    using n1 by (simp add: pw)
  have r: "round_even (\<bar>of_int n\<bar> / (2::rat) powi (- int k)) = n * 2 ^ k"
    unfolding q by (rule round_even_of_int)
  have v: "(of_int (n * 2 ^ k) :: rat) * 2 powi (- int k) = of_int n" by (simp add: pw)
  have "(of_int n :: rat) < of_int (2 ^ 53)" using assms(2) by (simp only: of_int_less_iff)
  then have "(of_int n :: rat) < 2 ^ 1024" by simp
  then have b: "\<not> (2::rat) ^ 1024 \<le> of_int n" by simp
  have n0: "(of_int n :: rat) \<noteq> 0" "(0::rat) < of_int n" using n1 by simp_all
  show ?thesis
    unfolding round64_def Let_def ex p r v using b n0 by simp
qed

lemma Float64FromUint64_exact:
  "uint n < 2 ^ 53 \<Longrightarrow> Float64FromUint64 n = Finite (of_int (uint n))"
  unfolding Float64FromUint64_def by (rule round64_of_int) simp_all

lemma Float64Quo_finite:
  assumes "round64 q = Finite q"
  shows "\<exists>v. Float64Quo (Finite q) (Finite 1000000) = Finite v"
proof -
  have "\<bar>q\<bar> < 2 ^ 1024" by (rule round64_bound [OF assms])
  then have "\<bar>q / 1000000\<bar> < 2 ^ 1023" by simp
  then show ?thesis by (simp add: round64_finite)
qed

lemma Float64FromUint64_numeral [simp]:
  "Float64FromUint64 1000000 = Finite 1000000"
  using Float64FromUint64_exact [of 1000000] by simp

lemma MathPow10_6: "MathPow10 (Float64FromInt 6) = Finite 1000000"
  by code_simp

lemma round64_5 [simp]: "round64 5 = Finite 5"
  using round64_of_int [of 5] by simp

lemma is_float64_numeral [simp]: "is_float64 5000000" "is_float64 1"
  using round64_of_int [of 5000000] round64_of_int [of 1] by (simp_all add: is_float64_def)

text \<open>The quotient of 1 and \<open>1e6\<close>, and the \<open>float64\<close> of \<open>2^64 - 1\<close>.\<close>

lemma round64_millionth:
  "round64 (1 / 1000000) = Finite (4722366482869645 / 4722366482869645213696)"
  by code_simp

lemma round64_max_uint64: "round64 18446744073709551615 = Finite 18446744073709551616"
  by code_simp

lemma word_of_int_round64:
  assumes "0 \<le> n" "n < 2 ^ 64"
  shows "Float64FromUint64 (word_of_int n) = round64 (of_int n)"
proof -
  have "uint (word_of_int n :: 64 word) = n"
    using assms by (simp add: uint_word_of_int take_bit_int_eq_self)
  then show ?thesis by (simp add: Float64FromUint64_def)
qed

text \<open>Accuracy: a rounding moves a normal value by at most half a unit in the last place,
  and the quotient by \<open>1e6\<close> of a rounded integer by at most two units.\<close>

lemma round_even_half: "\<bar>of_int (round_even m) - m\<bar> \<le> 1 / 2"
proof -
  have "of_int \<lfloor>m\<rfloor> \<le> m" "m < of_int \<lfloor>m\<rfloor> + 1" by linarith+
  then show ?thesis
    unfolding round_even_def Let_def by (auto simp: abs_le_iff)
qed

lemma round64_accuracy:
  assumes "2 powi (- 1022) \<le> q" "q < 2 ^ 1023"
  shows "\<exists>v. round64 q = Finite v \<and> \<bar>v - q\<bar> \<le> q / 2 ^ 53"
proof -
  have q0: "0 < q"
  proof -
    have "(0::rat) < 2 powi (- 1022)" by simp
    with assms(1) show ?thesis by linarith
  qed
  define e where "e = floor_log2 q"
  define p where "p = e - 52"
  define r where "r = round_even (q / 2 powi p)"
  define v where "v = (of_int r :: rat) * 2 powi p"
  have lo: "(2::rat) powi e \<le> q" and hi: "q < (2::rat) powi (e + 1)"
    unfolding e_def using floor_log2_bounds [OF q0] by simp_all
  have "- 1022 < e + 1"
  proof (rule ccontr)
    assume "\<not> - 1022 < e + 1"
    then have "(2::rat) powi (e + 1) \<le> 2 powi (- 1022)" by (intro power_int_increasing) simp_all
    with hi assms(1) show False by linarith
  qed
  then have pm: "max (floor_log2 q - 52) (- 1074) = p"
    by (simp add: p_def e_def)
  have aq: "\<bar>q\<bar> = q" using q0 by simp
  have pp: "(0::rat) < 2 powi p" by simp
  have "\<bar>of_int r - q / 2 powi p\<bar> \<le> 1 / 2"
    unfolding r_def by (rule round_even_half)
  then have "\<bar>of_int r - q / 2 powi p\<bar> * 2 powi p \<le> 1 / 2 * 2 powi p"
    using pp by (intro mult_right_mono) simp_all
  moreover have "\<bar>of_int r - q / 2 powi p\<bar> * 2 powi p = \<bar>v - q\<bar>"
  proof -
    have "\<bar>of_int r - q / 2 powi p\<bar> * 2 powi p = \<bar>(of_int r - q / 2 powi p) * 2 powi p\<bar>"
      using pp by (simp add: abs_mult)
    also have "(of_int r - q / 2 powi p) * 2 powi p = v - q"
      using pp by (simp add: v_def field_simps)
    finally show ?thesis .
  qed
  moreover have "1 / 2 * (2::rat) powi p \<le> q / 2 ^ 53"
  proof -
    have "(2::rat) powi e = 2 powi p * 2 powi 52"
      using power_int_add [of "2::rat" p 52] by (simp add: p_def)
    then have "1 / 2 * (2::rat) powi p = 2 powi e / 2 ^ 53" by simp
    with lo show ?thesis by (simp add: divide_right_mono)
  qed
  ultimately have acc: "\<bar>v - q\<bar> \<le> q / 2 ^ 53" by linarith
  have "q / 2 ^ 53 \<le> q" using q0 by (simp add: field_simps)
  with acc have "v \<le> 2 * q" by linarith
  with assms(2) have "\<not> 2 ^ 1024 \<le> v" by simp
  then have "round64 q = Finite v"
    unfolding round64_def Let_def aq pm v_def r_def using q0 by simp
  with acc show ?thesis by blast
qed


lemma powi_1022_small: "(2::rat) powi (- 1022) \<le> 1 / 2000000"
proof -
  have "(2::rat) powi (- 1022) \<le> 2 powi (- 21)" by (intro power_int_increasing) simp_all
  also have "(2::rat) powi (- 21) = 1 / 2 ^ 21" by (simp add: power_int_minus inverse_eq_divide)
  also have "\<dots> \<le> 1 / 2000000" by simp
  finally show ?thesis .
qed

lemma round64_quo_accuracy:
  assumes "0 < A" "A < 2 ^ 63" "round64 (of_int A) = Finite a"
  shows "\<exists>x. round64 (a / 1000000) = Finite x \<and>
    \<bar>x - of_int A / 1000000\<bar> \<le> of_int A / 1000000 / 2 ^ 51"
proof -
  define q :: rat where "q = of_int A"
  have q1: "1 \<le> q" using assms(1) by (simp add: q_def)
  have "q < of_int (2 ^ 63)" unfolding q_def using assms(2) by (simp only: of_int_less_iff)
  then have q63: "q < 2 ^ 63" by simp
  have "(2::rat) powi (- 1022) \<le> 1 / 2000000" by (rule powi_1022_small)
  with q1 have lo: "(2::rat) powi (- 1022) \<le> q" by linarith
  have "(2::rat) ^ 63 \<le> 2 ^ 1023" by (rule power_increasing) simp_all
  with q63 have hi: "q < 2 ^ 1023" by linarith
  from round64_accuracy [OF lo hi] assms(3) have a: "\<bar>a - q\<bar> \<le> q / 2 ^ 53"
    by (simp add: q_def)
  have s: "q / 2 ^ 53 \<le> q / 2" using q1 by (simp add: field_simps)
  from a s have al: "q / 2 \<le> a" and au: "a \<le> 2 * q" using q1 by linarith+
  define b where "b = a / 1000000"
  have bl: "1 / 2000000 \<le> b" using al q1 by (simp add: b_def)
  with powi_1022_small have lo': "(2::rat) powi (- 1022) \<le> b" by linarith
  have "b \<le> q" using au q1 by (simp add: b_def)
  with hi have hi': "b < 2 ^ 1023" by linarith
  from round64_accuracy [OF lo' hi'] obtain x where
    x: "round64 b = Finite x" "\<bar>x - b\<bar> \<le> b / 2 ^ 53" by blast
  have d: "\<bar>b - q / 1000000\<bar> \<le> q / 1000000 / 2 ^ 53"
  proof -
    have "\<bar>b - q / 1000000\<bar> = \<bar>a - q\<bar> / 1000000" by (simp add: b_def diff_divide_distrib [symmetric])
    also have "\<dots> \<le> q / 2 ^ 53 / 1000000" using a by (simp add: divide_right_mono)
    finally show ?thesis by simp
  qed
  have bu: "b \<le> 2 * (q / 1000000)" using au by (simp add: b_def)
  then have "b / 2 ^ 53 \<le> 2 * (q / 1000000) / 2 ^ 53" by (simp add: divide_right_mono)
  with x(2) d have "\<bar>x - q / 1000000\<bar> \<le> 3 * (q / 1000000 / 2 ^ 53)" by linarith
  also have "\<dots> \<le> q / 1000000 / 2 ^ 51" using q1 by (simp add: field_simps)
  finally show ?thesis using x(1) by (auto simp: b_def q_def)
qed

section \<open>The hash and the encoder\<close>

lemma length_sha_round: "length (sha_round s kw) = length s"
  by (cases "(s, kw)" rule: sha_round.cases) (simp_all add: Let_def)

lemma length_foldl_sha_round: "length (foldl sha_round s kws) = length s"
  by (induction kws arbitrary: s) (simp_all add: length_sha_round)

lemma length_sha_block: "length (sha_block hs blk) = length hs"
  by (simp add: sha_block_def Let_def length_foldl_sha_round)

lemma length_foldl_sha_block: "length (foldl sha_block hs blks) = length hs"
  by (induction blks arbitrary: hs) (simp_all add: length_sha_block)

lemma length_concat_bytes_of_u32: "length (concat (map bytes_of_u32 ws)) = 4 * length ws"
  by (induction ws) (simp_all add: bytes_of_u32_def)

lemma length_Sum256: "length (Sum256 m) = 32"
  by (simp add: Sum256_def Let_def length_concat_bytes_of_u32 length_foldl_sha_block init256_def)

lemma SetBytes_foldl:
  "foldl (\<lambda>a x. a * 256 + uint x) acc bs = acc * 256 ^ length bs + SetBytes bs"
proof (induction bs arbitrary: acc)
  case Nil
  then show ?case by (simp add: SetBytes_def)
next
  case (Cons b bs)
  have "foldl (\<lambda>a x. a * 256 + uint x) acc (b # bs)
        = (acc * 256 + uint b) * 256 ^ length bs + SetBytes bs"
    using Cons.IH [of "acc * 256 + uint b"] by simp
  moreover have "SetBytes (b # bs) = uint b * 256 ^ length bs + SetBytes bs"
    using Cons.IH [of "uint b"] by (simp add: SetBytes_def)
  ultimately show ?case by (simp add: algebra_simps)
qed

lemma SetBytes_Cons: "SetBytes (b # bs) = uint b * 256 ^ length bs + SetBytes bs"
  using SetBytes_foldl [of "uint b" bs] by (simp add: SetBytes_def)

lemma SetBytes_bounds: "0 \<le> SetBytes bs \<and> SetBytes bs < 256 ^ length bs"
proof (induction bs)
  case Nil
  then show ?case by (simp add: SetBytes_def)
next
  case (Cons b bs)
  have b: "0 \<le> uint b" "uint b \<le> 255"
    using uint_lt2p [of b] by simp_all
  have m: "uint b * 256 ^ length bs \<le> 255 * 256 ^ length bs"
    using b by (simp add: mult_right_mono)
  have nn: "0 \<le> uint b * 256 ^ length bs"
    using b by simp
  have lt: "SetBytes bs < 256 ^ length bs" and ge: "0 \<le> SetBytes bs"
    using Cons by simp_all
  have "uint b * 256 ^ length bs + SetBytes bs < 255 * 256 ^ length bs + 256 ^ length bs"
    using m lt by linarith
  moreover have "0 \<le> uint b * 256 ^ length bs + SetBytes bs"
    using nn ge by linarith
  ultimately show ?case by (simp add: SetBytes_Cons)
qed

lemma b58digits_range:
  "0 < d \<Longrightarrow> d * 58 ^ k \<le> n \<Longrightarrow> n < (d + 1) * 58 ^ k \<Longrightarrow> d < 58 \<Longrightarrow>
     length (b58digits n) = Suc k \<and> last (b58digits n) = alphabet ! nat d"
proof (induction k arbitrary: n)
  case 0
  then have n: "n = d" by simp
  have "b58digits d = [alphabet ! nat d]"
    using 0 by (simp add: b58digits.simps [of d] b58digits.simps [of 0])
  with n show ?case by simp
next
  case (Suc k)
  have pos: "0 < n"
  proof -
    have "0 < d * 58 ^ Suc k" using Suc.prems(1) by simp
    with Suc.prems(2) show ?thesis by linarith
  qed
  have lo: "d * 58 ^ k \<le> n div 58"
  proof -
    have "d * 58 ^ k * 58 \<le> n" using Suc.prems(2) by (simp add: mult.assoc mult.commute)
    then have "(d * 58 ^ k * 58) div 58 \<le> n div 58" by (rule zdiv_mono1) simp
    then show ?thesis by simp
  qed
  have hi: "n div 58 < (d + 1) * 58 ^ k"
  proof -
    have "n < (d + 1) * 58 ^ k * 58" using Suc.prems(3) by (simp add: mult.assoc mult.commute)
    then show ?thesis by (simp add: div_less_iff_less_mult)
  qed
  have ih: "length (b58digits (n div 58)) = Suc k \<and> last (b58digits (n div 58)) = alphabet ! nat d"
    using Suc.IH [OF Suc.prems(1) lo hi Suc.prems(4)] .
  then have ne: "b58digits (n div 58) \<noteq> []" by auto
  have "b58digits n = (alphabet ! nat (n mod 58)) # b58digits (n div 58)"
    using pos by (simp add: b58digits.simps [of n])
  with ih ne show ?case by simp
qed


lemma DecodeString_hex:
  "\<forall>c\<in>set h. fromHexChar c \<noteq> None \<Longrightarrow> even (length h) \<Longrightarrow>
     \<exists>bs. DecodeString h = Inr bs \<and> length bs = length h div 2"
proof (induction h rule: DecodeString.induct)
  case 1
  then show ?case by simp
next
  case (2 c)
  then show ?case by simp
next
  case (3 a b rest)
  from "3.prems" obtain x y where xy: "fromHexChar a = Some x" "fromHexChar b = Some y"
    by auto
  from "3.prems" have "\<forall>c\<in>set rest. fromHexChar c \<noteq> None" "even (length rest)"
    by simp_all
  with "3.IH" xy obtain bs where "DecodeString rest = Inr bs" "length bs = length rest div 2"
    by blast
  with xy show ?case by simp
qed

lemma HasPrefix_T: "HasPrefix s ''T'' \<longleftrightarrow> (\<exists>t. s = CHR ''T'' # t)"
  by (cases s) (auto simp: HasPrefix_def)

lemma convertHexToBase58_T:
  assumes "HasPrefix s ''T''"
  shows "convertHexToBase58 s = s"
proof -
  obtain t where "s = CHR ''T'' # t"
    using assms by (auto simp: HasPrefix_T)
  then show ?thesis
    by (simp add: convertHexToBase58_def TrimPrefix_def HasPrefix_def)
qed

lemma convertHexToBase58_undecodable:
  "DecodeString (TrimPrefix raw ''0x'') = Inl e \<Longrightarrow>
     convertHexToBase58 raw = TrimPrefix raw ''0x''"
  by (simp add: convertHexToBase58_def hexToTronAddress_def Let_def)

lemma Encode_41:
  assumes "length bs = 24"
  shows "length (Encode (0x41 # bs)) = 34 \<and> HasPrefix (Encode (0x41 # bs)) ''T''"
proof -
  let ?n = "SetBytes (0x41 # bs)"
  have n: "?n = 65 * 256 ^ 24 + SetBytes bs"
    using assms by (simp add: SetBytes_Cons)
  have b: "0 \<le> SetBytes bs" "SetBytes bs < 256 ^ 24"
    using SetBytes_bounds [of bs] assms by simp_all
  have lo: "26 * 58 ^ 33 \<le> ?n"
    using n b by simp
  have hi: "?n < (26 + 1) * 58 ^ 33"
    using n b by simp
  have d: "length (b58digits ?n) = Suc 33 \<and> last (b58digits ?n) = alphabet ! nat 26"
    by (rule b58digits_range [OF _ lo hi]) simp_all
  then have ne: "b58digits ?n \<noteq> []" by auto
  have e: "Encode (0x41 # bs) = rev (b58digits ?n)"
    by (simp add: Encode_def)
  have "hd (rev (b58digits ?n)) = CHR ''T''"
    using d ne by (simp add: hd_rev alphabet_def)
  moreover have "rev (b58digits ?n) \<noteq> []" using ne by simp
  ultimately have "HasPrefix (rev (b58digits ?n)) ''T''"
    by (cases "rev (b58digits ?n)") (simp_all add: HasPrefix_def)
  with d e show ?thesis by simp
qed

lemma convertHexToBase58_41:
  assumes len: "length h = 42" and pre: "take 2 h = ''41''"
    and hex: "\<forall>c\<in>set h. fromHexChar c \<noteq> None"
  shows "length (convertHexToBase58 h) = 34 \<and> HasPrefix (convertHexToBase58 h) ''T''"
proof -
  obtain rest where h: "h = CHR ''4'' # CHR ''1'' # rest"
    using len pre by (cases h; cases "tl h") auto
  have rest: "\<forall>c\<in>set rest. fromHexChar c \<noteq> None" "even (length rest)" "length rest = 40"
    using hex len h by simp_all
  obtain bs where bs: "DecodeString rest = Inr bs" "length bs = 20"
    using DecodeString_hex [OF rest(1) rest(2)] rest(3) by auto
  have dec: "DecodeString h = Inr (0x41 # bs)"
    using bs h by (simp add: fromHexChar_def)
  let ?cs = "take 4 (Sum256 (Sum256 (0x41 # bs)))"
  have cs: "length (bs @ ?cs) = 24"
    using bs by (simp add: length_Sum256)
  have "convertHexToBase58 h = Encode (0x41 # (bs @ ?cs))"
    using dec h by (simp add: convertHexToBase58_def hexToTronAddress_def TrimPrefix_def
        HasPrefix_def Let_def)
  with Encode_41 [OF cs] show ?thesis by simp
qed

text \<open>The encoder on the contract address of the default configuration.\<close>

lemma convertHexToBase58_usdt:
  "convertHexToBase58 ''41a614f803b6fd780986a42c78ec9c7f77e6ded13c''
     = ''TR7NHqjeKQxGTCi8q8ZY4pL8otSzgjLj6t''"
  by code_simp

lemma convertHexToBase58_prefixed:
  "convertHexToBase58 ''4141a614f803b6fd780986a42c78ec9c7f77e6ded13c''
     = ''2zu1CLYjdgqKdiwcje6D2o9BV3oodNbfjKAE''"
  by code_simp

section \<open>Address codec: idempotence\<close>

text \<open>
  An input of display-address shape is returned unchanged. The empty input is returned
  unchanged. An input whose hexadecimal decoding fails is returned without a leading
  \<open>0x\<close>, so unchanged when it has none. For a hexadecimal address of 21 bytes with the
  prefix byte \<open>41\<close> the output has display-address shape, and the codec applied to its
  own output returns that output.
\<close>

lemma convertHexToBase58_idempotent:
  "(isValidTronAddress raw1 \<longrightarrow> convertHexToBase58 raw1 = raw1) \<and>
   convertHexToBase58 [] = [] \<and>
   (DecodeString (TrimPrefix raw2 ''0x'') = Inl e2 \<longrightarrow>
      convertHexToBase58 raw2 = TrimPrefix raw2 ''0x'') \<and>
   (\<not> HasPrefix raw3 ''0x'' \<and> DecodeString raw3 = Inl e3 \<longrightarrow> convertHexToBase58 raw3 = raw3) \<and>
   (length h = 42 \<and> take 2 h = ''41'' \<and> (\<forall>c\<in>set h. fromHexChar c \<noteq> None) \<longrightarrow>
      isValidTronAddress (convertHexToBase58 h) \<and>
      convertHexToBase58 (convertHexToBase58 h) = convertHexToBase58 h)"
proof (intro conjI impI)
  assume "isValidTronAddress raw1"
  then show "convertHexToBase58 raw1 = raw1"
    by (simp add: isValidTronAddress_def convertHexToBase58_T)
next
  show "convertHexToBase58 [] = []"
    by (simp add: convertHexToBase58_def TrimPrefix_def HasPrefix_def)
next
  assume "DecodeString (TrimPrefix raw2 ''0x'') = Inl e2"
  then show "convertHexToBase58 raw2 = TrimPrefix raw2 ''0x''"
    by (rule convertHexToBase58_undecodable)
next
  assume a: "\<not> HasPrefix raw3 ''0x'' \<and> DecodeString raw3 = Inl e3"
  then have "TrimPrefix raw3 ''0x'' = raw3"
    by (simp add: TrimPrefix_def)
  with a convertHexToBase58_undecodable [of raw3 e3] show "convertHexToBase58 raw3 = raw3"
    by simp
next
  assume a: "length h = 42 \<and> take 2 h = ''41'' \<and> (\<forall>c\<in>set h. fromHexChar c \<noteq> None)"
  then have shape: "length (convertHexToBase58 h) = 34 \<and> HasPrefix (convertHexToBase58 h) ''T''"
    using convertHexToBase58_41 [of h] by simp
  then show "isValidTronAddress (convertHexToBase58 h)"
    by (simp add: isValidTronAddress_def)
  from shape show "convertHexToBase58 (convertHexToBase58 h) = convertHexToBase58 h"
    by (simp add: convertHexToBase58_T)
qed

lemma convertHexToBase58_examples:
  "convertHexToBase58 ''TR7NHqjeKQxGTCi8q8ZY4pL8otSzgjLj6t'' = ''TR7NHqjeKQxGTCi8q8ZY4pL8otSzgjLj6t'' \<and>
   convertHexToBase58 ''zz'' = ''zz'' \<and>
   isValidTronAddress (convertHexToBase58 usdt_hex) \<and>
   convertHexToBase58 (convertHexToBase58 usdt_hex) = convertHexToBase58 usdt_hex"
  using convertHexToBase58_idempotent
    [of "''TR7NHqjeKQxGTCi8q8ZY4pL8otSzgjLj6t''" "''0xzz''" HexInvalid "''zz''" HexInvalid usdt_hex]
  by (simp add: isValidTronAddress_def HasPrefix_def TrimPrefix_def fromHexChar_def usdt_hex_def)

text \<open>
  Claim C7. The codec is idempotent on the addresses of display shape, on the empty
  input and on an undecodable input without the prefix \<open>0x\<close>, as the lemma above says.
  It departs from the claim, and from the comment on \<open>convertHexToBase58\<close> that promises
  the original address for a badly formed one, on an input with the prefix \<open>0x\<close> whose
  hexadecimal decoding fails: the prefix is stripped before the decoding, and what comes
  back is the stripped string. So \<open>0xzz\<close>, which is no hexadecimal string with or without
  its prefix, comes back as \<open>zz\<close>, and \<open>0x\<close> comes back as the empty string.
\<close>

theorem convertHexToBase58_strips_prefix:
  "DecodeString ''0xzz'' = Inl HexInvalid \<and> DecodeString ''zz'' = Inl HexInvalid \<and>
   convertHexToBase58 ''0xzz'' = ''zz'' \<and> convertHexToBase58 ''0x'' = []"
  by (simp add: convertHexToBase58_def hexToTronAddress_def TrimPrefix_def HasPrefix_def
      fromHexChar_def)

section \<open>Block worker pool: start and stop\<close>

text \<open>
  Claim C9, as the code has it. A worker's \<open>start\<close> when it runs and its \<open>stop\<close> when it
  does not run leave the worker as it is. \<open>Start\<close> of a running pool and \<open>Stop\<close> of a
  stopped pool leave the pool as it is and return an error.
\<close>

theorem start_stop_in_target_state:
  "(w_running w1 \<longrightarrow> start w1 = w1) \<and>
   (\<not> w_running w2 \<longrightarrow> stop w2 = w2) \<and>
   (bp_running bp1 \<longrightarrow> Start bp1 = (Some ProcessorAlreadyRunning, bp1)) \<and>
   (\<not> bp_running bp2 \<longrightarrow> Stop bp2 = (Some ProcessorNotRunning, bp2))"
  by (simp add: start_def stop_def Start_def Stop_def)

theorem start_stop_in_target_state_witness:
  "start worker_on = worker_on \<and> stop worker_off = worker_off \<and>
   Start pool_on = (Some ProcessorAlreadyRunning, pool_on) \<and>
   Stop pool_off = (Some ProcessorNotRunning, pool_off)"
  using start_stop_in_target_state [of worker_on worker_off pool_on pool_off]
  by (simp add: worker_on_def worker_off_def pool_on_def pool_off_def)

text \<open>\<open>Start\<close> of a running pool and \<open>Stop\<close> of a stopped pool do not succeed.\<close>

theorem Start_Stop_error_counterexample:
  "fst (Start pool_on) \<noteq> None \<and> fst (Stop pool_off) \<noteq> None"
  by (simp add: Start_def Stop_def pool_on_def pool_off_def)

section \<open>The decoder on example values\<close>

lemma convertHexToBase58_Nil: "convertHexToBase58 [] = []"
  by (simp add: convertHexToBase58_def TrimPrefix_def HasPrefix_def)

lemma convertHexToBase58_T1 [simp]:
  "convertHexToBase58 ''T1'' = ''T1''" "convertHexToBase58 ''T2'' = ''T2''"
  by (simp_all add: convertHexToBase58_def TrimPrefix_def HasPrefix_def)

lemma parse_transfer_data:
  "parseTRC20TransferData default_config transfer_data ''T1'' ''T2'' tx1 block115 False
     = Inr (Some trc20_event)"
  by (simp add: parseTRC20TransferData_def transfer_data_def HasPrefix_def TrimLeft_def
      Repeat_def parseHexAmount_def ParseUint16_def fromHexChar_def tx1_def block115_def
      trc20_event_def Let_def)

section \<open>Hexadecimal arguments\<close>

lemma fromHexChar_hex_digit: "map_option int (fromHexChar c) = hex_digit c"
proof (cases c)
  case (Char b0 b1 b2 b3 b4 b5 b6 b7)
  then show ?thesis
    by (cases b0; cases b1; cases b2; cases b3; cases b4; cases b5; cases b6; cases b7)
      (simp_all add: fromHexChar_def hex_digit_def)
qed

lemma base16_rev_snoc:
  "base16_rev (cs @ [c]) =
     (case (base16_rev cs, hex_digit c) of
        (Some v, Some d) \<Rightarrow> Some (v + 16 ^ length cs * d)
      | _ \<Rightarrow> None)"
  by (induction cs) (auto split: option.splits simp: algebra_simps)

lemma big_endian_Cons:
  "big_endian (c # cs) =
     (case (big_endian cs, hex_digit c) of
        (Some v, Some d) \<Rightarrow> Some (d * 16 ^ length cs + v)
      | _ \<Rightarrow> None)"
  by (simp add: big_endian_def base16_rev_snoc algebra_simps split: option.splits)

lemma big_endian_nonneg: "big_endian s = Some v \<Longrightarrow> 0 \<le> v"
proof -
  have "base16_rev t = Some v \<Longrightarrow> 0 \<le> v" for t v
  proof (induction t arbitrary: v)
    case Nil
    then show ?case by simp
  next
    case (Cons c t)
    then show ?case
      by (auto simp: hex_digit_def split: option.splits if_splits)
  qed
  then show "big_endian s = Some v \<Longrightarrow> 0 \<le> v" by (simp add: big_endian_def)
qed


lemma big_endian_zero: "big_endian (CHR ''0'' # s) = big_endian s"
  by (simp add: big_endian_Cons hex_digit_def split: option.splits)

lemma big_endian_dropWhile:
  "big_endian (dropWhile (\<lambda>c. c = CHR ''0'') s) = big_endian s"
  by (induction s) (simp_all add: big_endian_zero)

lemma parseUintLoop_value:
  assumes "parseUintLoop acc s = Inr v" "0 \<le> acc" "acc < 2 ^ 64"
  shows "\<exists>w. big_endian s = Some w \<and> v = acc * 16 ^ length s + w \<and> v < 2 ^ 64"
  using assms
proof (induction s arbitrary: acc)
  case Nil
  then show ?case by (simp add: big_endian_def)
next
  case (Cons c cs)
  from Cons.prems(1) obtain d where d: "fromHexChar c = Some d"
    by (cases "fromHexChar c") simp_all
  then have h: "hex_digit c = Some (int d)" using fromHexChar_hex_digit [of c] by simp
  let ?n1 = "acc * 16 + int d"
  from Cons.prems(1) d have r: "parseUintLoop ?n1 cs = Inr v" and b: "?n1 < 2 ^ 64"
    by (simp_all add: Let_def split: if_splits)
  have n0: "0 \<le> ?n1" using Cons.prems(2) by simp
  from Cons.IH [OF r n0 b] obtain w where
    w: "big_endian cs = Some w" "v = ?n1 * 16 ^ length cs + w" "v < 2 ^ 64"
    by blast
  have "big_endian (c # cs) = Some (int d * 16 ^ length cs + w)"
    using w(1) h by (simp add: big_endian_Cons)
  moreover have "v = acc * 16 ^ length (c # cs) + (int d * 16 ^ length cs + w)"
    using w(2) by (simp add: algebra_simps)
  ultimately show ?case using w(3) by blast
qed

lemma parseUintLoop_big_endian:
  assumes "big_endian s = Some w" "0 \<le> acc" "acc * 16 ^ length s + w < 2 ^ 64"
  shows "parseUintLoop acc s = Inr (acc * 16 ^ length s + w)"
  using assms
proof (induction s arbitrary: acc w)
  case Nil
  then show ?case by (simp add: big_endian_def)
next
  case (Cons c cs)
  from Cons.prems(1) obtain d w' where
    h: "hex_digit c = Some d" and w': "big_endian cs = Some w'"
    and w: "w = d * 16 ^ length cs + w'"
    by (auto simp: big_endian_Cons split: option.splits)
  obtain m where m: "fromHexChar c = Some m" "d = int m"
    using h fromHexChar_hex_digit [of c] by (cases "fromHexChar c") auto
  have d0: "0 \<le> d" using m(2) by simp
  have w0: "0 \<le> w'" using w' by (rule big_endian_nonneg)
  let ?p = "(16::int) ^ length cs"
  let ?n1 = "acc * 16 + d"
  have p1: "1 \<le> ?p" by simp
  have tot: "?n1 * ?p + w' < 2 ^ 64"
    using Cons.prems(3) w by (simp add: algebra_simps)
  have n0: "0 \<le> ?n1" using Cons.prems(2) d0 by simp
  have "?n1 * 1 \<le> ?n1 * ?p" using p1 n0 by (rule mult_left_mono)
  with tot w0 have n1: "?n1 < 2 ^ 64" by simp
  with d0 have "acc * 16 < 2 ^ 64" by simp
  then have a: "\<not> acc \<ge> 2 ^ 64 div 16" by simp
  from Cons.IH [OF w' n0 tot] have "parseUintLoop ?n1 cs = Inr (?n1 * ?p + w')" .
  then show ?case
    using m a n1 w by (simp add: Let_def algebra_simps)
qed

lemma Repeat_zero: "Repeat ''0'' k = replicate k (CHR ''0'')"
  by (induction k) (simp_all add: Repeat_def)

lemma TrimLeft_zero: "TrimLeft s ''0'' = dropWhile (\<lambda>c. c = CHR ''0'') s"
  by (simp add: TrimLeft_def)

lemma length_pad64: "length s \<le> 64 \<Longrightarrow> length (pad64 s) = 64"
  by (simp add: pad64_def)

lemma takeWhile_zero:
  "takeWhile (\<lambda>c. c = z) a = replicate (length (takeWhile (\<lambda>c. c = z) a)) z"
  by (induction a) simp_all

lemma low_bytes:
  assumes "length s \<le> 40"
  shows "(let t = TrimLeft (pad64 s) ''0''
          in if length t < 40 then Repeat ''0'' (40 - length t) @ t else t)
         = drop 24 (pad64 s)"
proof -
  let ?z = "CHR ''0''"
  let ?P = "\<lambda>c. c = ?z"
  let ?a = "pad64 s"
  let ?t = "dropWhile ?P ?a"
  let ?m = "length (takeWhile ?P ?a)"
  have a: "?a = replicate ?m ?z @ ?t"
    using takeWhile_zero [of ?z ?a] takeWhile_dropWhile_id [of ?P ?a] by metis
  have la: "length ?a = 64" using assms by (simp add: length_pad64)
  have "takeWhile ?P ?a = replicate (64 - length s) ?z @ takeWhile ?P s"
    unfolding pad64_def by (rule takeWhile_append2) simp
  then have m: "24 \<le> ?m" using assms by simp
  have lt: "?m + length ?t = 64"
    using la a by (metis length_append length_replicate)
  have "drop 24 ?a = drop 24 (replicate ?m ?z @ ?t)"
    using a by simp
  also have "\<dots> = replicate (?m - 24) ?z @ ?t"
    using m by simp
  finally have d: "drop 24 ?a = replicate (?m - 24) ?z @ ?t" .
  have e: "?m - 24 = 40 - length ?t" using lt m by arith
  show ?thesis
    using d e by (simp add: Let_def TrimLeft_zero Repeat_zero)
qed

lemma dropWhile_pad64:
  "dropWhile (\<lambda>c. c = CHR ''0'') (pad64 s) = dropWhile (\<lambda>c. c = CHR ''0'') s"
  unfolding pad64_def by (rule dropWhile_append2) simp

lemma parseHexAmount_pad64:
  assumes "big_endian s = Some n" "n < 2 ^ 64"
  shows "parseHexAmount (pad64 s) = Inr (Float64FromUint64 (word_of_int n))"
proof -
  let ?t = "dropWhile (\<lambda>c. c = CHR ''0'') s"
  have h: "big_endian ?t = Some n"
    using assms(1) by (simp add: big_endian_dropWhile)
  have t: "TrimLeft (pad64 s) ''0'' = ?t"
    by (simp add: TrimLeft_zero dropWhile_pad64)
  show ?thesis
  proof (cases "?t = []")
    case True
    with h have "n = 0" by (simp add: big_endian_def)
    with True show ?thesis
      unfolding parseHexAmount_def t Let_def by (simp add: Float64FromUint64_def round64_def)
  next
    case False
    have "parseUintLoop 0 ?t = Inr (0 * 16 ^ length ?t + n)"
      using h assms(2) by (intro parseUintLoop_big_endian) simp_all
    then have "ParseUint16 ?t = Inr (word_of_int n)"
      unfolding ParseUint16_def using False by (simp del: dropWhile_eq_Nil_conv)
    with False show ?thesis
      unfolding parseHexAmount_def t Let_def by (simp del: dropWhile_eq_Nil_conv)
  qed
qed

lemma parseHexAmount_value:
  assumes "parseHexAmount s = Inr x"
  shows "\<exists>n. big_endian s = Some n \<and> 0 \<le> n \<and> n < 2 ^ 64 \<and> x = round64 (of_int n)"
proof -
  let ?t = "dropWhile (\<lambda>c. c = CHR ''0'') s"
  have t: "TrimLeft s ''0'' = ?t" by (rule TrimLeft_zero)
  have e: "big_endian ?t = big_endian s" by (rule big_endian_dropWhile)
  show ?thesis
  proof (cases "?t = []")
    case True
    then have "x = Finite 0" using assms unfolding parseHexAmount_def t Let_def by simp
    moreover have "big_endian s = Some 0" using e True by (simp add: big_endian_def)
    ultimately show ?thesis by (simp add: round64_def)
  next
    case False
    from assms False obtain w where w: "ParseUint16 ?t = Inr w" "x = Float64FromUint64 w"
      unfolding parseHexAmount_def t Let_def
      by (auto simp del: dropWhile_eq_Nil_conv split: sum.splits)
    from w(1) False obtain n where n: "parseUintLoop 0 ?t = Inr n" "w = word_of_int n"
      unfolding ParseUint16_def
      by (auto simp del: dropWhile_eq_Nil_conv split: sum.splits)
    from parseUintLoop_value [OF n(1)] obtain v where
      v: "big_endian ?t = Some v" "n = v" "n < 2 ^ 64"
      by auto
    have b: "big_endian s = Some n" using e v(1,2) by simp
    then have n0: "0 \<le> n" by (rule big_endian_nonneg)
    have "x = round64 (of_int n)"
      using w(2) n(2) word_of_int_round64 [OF n0 v(3)] by simp
    with b n0 v(3) show ?thesis by blast
  qed
qed

lemma transfer_call:
  assumes data: "data = ''a9059cbb'' @ pad64 destHex @ pad64 amountHex"
    and dest: "length destHex \<le> 40"
    and len: "length amountHex \<le> 64"
    and val: "big_endian amountHex = Some n" "n < 2 ^ 64"
  shows "\<exists>ev. parseTRC20TransferData cfg data ownerAddress contractAddress tx blockData isUSDT
               = Inr (Some ev) \<and>
           Destination ev = convertHexToBase58 (''41'' @ drop 24 (pad64 destHex)) \<and>
           Amount ev =
             (if isUSDT
              then Float64Quo (round64 (of_int n))
                     (MathPow10 (Float64FromInt (USDT_Decimals cfg)))
              else round64 (of_int n)) \<and>
           USDValue ev = Amount ev"
proof -
  have l1: "length (pad64 destHex) = 64" using dest by (simp add: length_pad64)
  have l2: "length (pad64 amountHex) = 64" using len by (simp add: length_pad64)
  have ld: "length data = 136" using data l1 l2 by simp
  have pre: "HasPrefix data ''a9059cbb''" using data by (simp add: HasPrefix_def)
  have a1: "take 64 (drop 8 data) = pad64 destHex" using data l1 by simp
  have a2: "take 64 (drop 64 (drop 8 data)) = pad64 amountHex" using data l1 l2 by simp
  have a3: "drop 72 data = pad64 amountHex" using data l1 l2 by simp
  have a4: "take 64 (drop 72 data) = pad64 amountHex" using a3 l2 by simp
  have lb: "(if length (TrimLeft (pad64 destHex) ''0'') < 40
             then Repeat ''0'' (40 - length (TrimLeft (pad64 destHex) ''0''))
                    @ TrimLeft (pad64 destHex) ''0''
             else TrimLeft (pad64 destHex) ''0'') = drop 24 (pad64 destHex)"
    using low_bytes [OF dest] by (simp add: Let_def)
  have n0: "0 \<le> n" using val(1) by (rule big_endian_nonneg)
  have "parseHexAmount (pad64 amountHex) = Inr (Float64FromUint64 (word_of_int n))"
    using val by (rule parseHexAmount_pad64)
  then have am: "parseHexAmount (pad64 amountHex) = Inr (round64 (of_int n))"
    using word_of_int_round64 [OF n0 val(2)] by simp
  have c1: "(length data < 74 \<or> \<not> HasPrefix data ''a9059cbb'') = False"
    using ld pre by simp
  have c2: "(length data < 8) = False" using ld by simp
  have c3: "(length (drop 8 data) < 64) = False" using ld by simp
  have c4: "(length (drop 64 (drop 8 data)) < 64) = False" using ld by simp
  show ?thesis
    unfolding parseTRC20TransferData_def Let_def c1 c2 c3 c4 if_False a1 a2 lb am sum.case
    by simp
qed

lemma transfer_data_pad64:
  "transfer_data = ''a9059cbb'' @ pad64 ''a614f803b6fd780986a42c78ec9c7f77e6ded13c'' @ pad64 ''f4240''"
  by (simp add: transfer_data_def pad64_def eval_nat_numeral)

section \<open>Contract-token events: the USD value\<close>

lemma extractTRC20Transfer_from_parse:
  assumes "fst (extractTRC20Transfer cfg c tx blockData ws r) = Inr (Some ev)"
  shows "\<exists>data ownerAddress contractAddress isUSDT.
           parseTRC20TransferData cfg data ownerAddress contractAddress tx blockData isUSDT
             = Inr (Some ev)"
proof -
  from assms obtain p where p: "asMap (Parameter c) = Some p"
    by (auto simp: extractTRC20Transfer_def split: option.splits)
  from assms p obtain v where v: "asMap (index p ''value'') = Some v"
    by (auto simp: extractTRC20Transfer_def split: option.splits)
  let ?P = "parseTRC20TransferData cfg (stringOrZero (index v ''data''))
              (convertHexToBase58 (stringOrZero (index v ''owner_address'')))
              (convertHexToBase58 (stringOrZero (index v ''contract_address''))) tx blockData
              (isUSDTContract cfg (convertHexToBase58 (stringOrZero (index v ''contract_address''))))"
  from assms p v have "?P = Inr (Some ev)"
    by (auto simp: extractTRC20Transfer_def Let_def split: if_splits sum.splits option.splits)
  then show ?thesis by blast
qed

lemma extractTRC20Transfer_emits:
  assumes "Parameter c = JObject p" "index p ''value'' = JObject v"
    and "parseTRC20TransferData cfg (stringOrZero (index v ''data''))
           (convertHexToBase58 (stringOrZero (index v ''owner_address'')))
           (convertHexToBase58 (stringOrZero (index v ''contract_address''))) tx blockData
           (isUSDTContract cfg (convertHexToBase58 (stringOrZero (index v ''contract_address''))))
         = Inr (Some t)"
    and "isUSDTContract cfg (convertHexToBase58 (stringOrZero (index v ''contract_address'')))
           \<longrightarrow> USDT_EnableMonitoring cfg"
    and "watched ws (Source t) \<or> watched ws (Destination t)"
  shows "fst (extractTRC20Transfer cfg c tx blockData ws r) = Inr (Some t)"
  using assms by (auto simp: extractTRC20Transfer_def Let_def)

text \<open>
  Claim C10, as the code has it. Every event that \<open>parseTRC20TransferData\<close> returns has
  its \<open>USDValue\<close> equal to its \<open>Amount\<close>, whether the contract is the tracked one or not,
  and every event that \<open>extractTRC20Transfer\<close> emits is one of these. For a contract that
  is not tracked the value is the second argument of the call, read as a big-endian
  unsigned integer below \<open>2^64\<close> and converted to \<open>float64\<close>, not scaled: the integer
  itself when it is below \<open>2^53\<close>, the nearest \<open>float64\<close> otherwise.
\<close>

theorem parseTRC20TransferData_USDValue:
  "(parseTRC20TransferData cfg data ownerAddress contractAddress tx blockData isUSDT
      = Inr (Some ev) \<longrightarrow>
    USDValue ev = Amount ev \<and> IsUSDT ev = isUSDT \<and>
    (\<not> isUSDT \<longrightarrow>
       (\<exists>n. big_endian (take 64 (drop 72 data)) = Some n \<and> 0 \<le> n \<and> n < 2 ^ 64 \<and>
            USDValue ev = round64 (of_int n) \<and>
            (n < 2 ^ 53 \<longrightarrow> USDValue ev = Finite (of_int n))))) \<and>
   (fst (extractTRC20Transfer cfg c tx2 blockData2 ws r) = Inr (Some ev2) \<longrightarrow>
    USDValue ev2 = Amount ev2)"
proof (intro conjI impI)
  assume a: "parseTRC20TransferData cfg data ownerAddress contractAddress tx blockData isUSDT
               = Inr (Some ev)"
  then show "USDValue ev = Amount ev"
    by (auto simp: parseTRC20TransferData_def Let_def split: if_splits sum.splits)
  from a show "IsUSDT ev = isUSDT"
    by (auto simp: parseTRC20TransferData_def Let_def split: if_splits sum.splits)
  assume "\<not> isUSDT"
  with a have "parseHexAmount (take 64 (drop 72 data)) = Inr (USDValue ev)"
    by (auto simp: parseTRC20TransferData_def Let_def split: if_splits sum.splits)
  from parseHexAmount_value [OF this] obtain n where
    n: "big_endian (take 64 (drop 72 data)) = Some n" "0 \<le> n" "n < 2 ^ 64"
       "USDValue ev = round64 (of_int n)"
    by blast
  have "USDValue ev = Finite (of_int n)" if "n < 2 ^ 53"
    using n(2,4) that by (simp add: round64_of_int)
  with n show "\<exists>n. big_endian (take 64 (drop 72 data)) = Some n \<and> 0 \<le> n \<and> n < 2 ^ 64 \<and>
            USDValue ev = round64 (of_int n) \<and>
            (n < 2 ^ 53 \<longrightarrow> USDValue ev = Finite (of_int n))"
    by blast
next
  assume "fst (extractTRC20Transfer cfg c tx2 blockData2 ws r) = Inr (Some ev2)"
  then obtain d a b u where
    "parseTRC20TransferData cfg d a b tx2 blockData2 u = Inr (Some ev2)"
    using extractTRC20Transfer_from_parse by blast
  then show "USDValue ev2 = Amount ev2"
    by (auto simp: parseTRC20TransferData_def Let_def split: if_splits sum.splits)
qed

theorem parseTRC20TransferData_USDValue_witness:
  "parseTRC20TransferData default_config transfer_data ''T1'' ''T2'' tx1 block115 False
     = Inr (Some trc20_event) \<and>
   USDValue trc20_event = Amount trc20_event \<and> IsUSDT trc20_event = False \<and>
   big_endian (take 64 (drop 72 transfer_data)) = Some 1000000 \<and>
   USDValue trc20_event = Finite 1000000 \<and>
   fst (extractTRC20Transfer default_config (trigger_contract transfer_data) tx1 block115
          [''T1''] empty_redis) = Inr (Some trc20_event)"
proof -
  have u2: "\<not> isUSDTContract default_config ''T2''"
    by (simp add: isUSDTContract_def default_config_def)
  have s2: "Source trc20_event = ''T1''"
    by (simp add: trc20_event_def)
  have e: "fst (extractTRC20Transfer default_config (trigger_contract transfer_data) tx1 block115
                  [''T1''] empty_redis) = Inr (Some trc20_event)"
    by (rule extractTRC20Transfer_emits
          [of _ "[(''value'', JObject (trigger_fields transfer_data))]"
              "trigger_fields transfer_data"])
       (simp_all add: trigger_contract_def trigger_fields_def index_def u2
          parse_transfer_data watched_def s2)
  have b: "big_endian (take 64 (drop 72 transfer_data)) = Some 1000000"
    by (simp add: transfer_data_def big_endian_def hex_digit_def)
  note t = parseTRC20TransferData_USDValue
        [where cfg = default_config and data = transfer_data and ownerAddress = "''T1''"
           and contractAddress = "''T2''" and tx = tx1 and blockData = block115
           and isUSDT = False and ev = trc20_event
           and c = "trigger_contract transfer_data" and ?tx2.0 = tx1 and ?blockData2.0 = block115
           and ws = "[''T1'']" and r = empty_redis and ?ev2.0 = trc20_event]
  from t [THEN conjunct1, THEN mp, OF parse_transfer_data] obtain n where
    n: "USDValue trc20_event = Amount trc20_event" "IsUSDT trc20_event = False"
       "big_endian (take 64 (drop 72 transfer_data)) = Some n"
       "n < 2 ^ 53 \<longrightarrow> USDValue trc20_event = Finite (of_int n)"
    by blast
  from n(3) b have "n = 1000000" by simp
  with n(4) have "USDValue trc20_event = Finite 1000000" by simp
  with parse_transfer_data b e n(1,2) show ?thesis by simp
qed

text \<open>A call for \<open>2^64 - 1\<close> units of a contract that is not tracked: the USD value of the
  event is \<open>2^64\<close>, not the amount of the call.\<close>

theorem parseTRC20TransferData_USDValue_counterexample:
  "big_endian (take 64 (drop 72 max_amount_data)) = Some 18446744073709551615 \<and>
   usd_value_of (parseTRC20TransferData default_config max_amount_data ''T1'' ''T2'' tx1 block115
                   False)
     = Some (Finite 18446744073709551616)"
proof -
  have d: "max_amount_data = ''a9059cbb'' @ pad64 ''a614f803b6fd780986a42c78ec9c7f77e6ded13c''
                               @ pad64 ''ffffffffffffffff''"
    by (simp add: max_amount_data_def)
  have b: "big_endian ''ffffffffffffffff'' = Some 18446744073709551615"
    by (simp add: big_endian_def hex_digit_def)
  from transfer_call [OF d _ _ b, of default_config "''T1''" "''T2''" tx1 block115 False]
  obtain ev where
    "parseTRC20TransferData default_config max_amount_data ''T1'' ''T2'' tx1 block115 False
       = Inr (Some ev)"
    "Amount ev = round64 18446744073709551615" "USDValue ev = Amount ev"
    by auto
  then have "usd_value_of (parseTRC20TransferData default_config max_amount_data ''T1'' ''T2''
                             tx1 block115 False) = Some (Finite 18446744073709551616)"
    by (simp add: round64_max_uint64)
  moreover have "big_endian (take 64 (drop 72 max_amount_data)) = Some 18446744073709551615"
    by (simp add: max_amount_data_def pad64_def eval_nat_numeral big_endian_def hex_digit_def)
  ultimately show ?thesis by simp
qed

section \<open>Contract-token events: data that is no transfer call\<close>

lemma parse_unrecognised:
  "length d < 74 \<or> \<not> HasPrefix d ''a9059cbb'' \<Longrightarrow>
     parseTRC20TransferData cfg d ownerAddress contractAddress tx blockData isUSDT = Inr None"
  by (simp add: parseTRC20TransferData_def)

lemma parse_truncated:
  "HasPrefix d ''a9059cbb'' \<Longrightarrow> 74 \<le> length d \<Longrightarrow> length d < 136 \<Longrightarrow>
     parseTRC20TransferData cfg d ownerAddress contractAddress tx blockData isUSDT
       = Inl AmountDataTooShort"
  by (simp add: parseTRC20TransferData_def Let_def) arith

lemma extractTRC20Transfer_no_event:
  assumes "Parameter c = JObject p" "index p ''value'' = JObject v"
    and "length (stringOrZero (index v ''data'')) < 136
         \<or> \<not> HasPrefix (stringOrZero (index v ''data'')) ''a9059cbb''"
  shows "extractTRC20Transfer cfg c tx blockData ws r = (Inr None, r)
         \<or> extractTRC20Transfer cfg c tx blockData ws r = (Inl AmountDataTooShort, r)"
proof -
  let ?d = "stringOrZero (index v ''data'')"
  let ?o = "convertHexToBase58 (stringOrZero (index v ''owner_address''))"
  let ?c = "convertHexToBase58 (stringOrZero (index v ''contract_address''))"
  let ?P = "parseTRC20TransferData cfg ?d ?o ?c tx blockData (isUSDTContract cfg ?c)"
  have p: "asMap (Parameter c) = Some p" "asMap (index p ''value'') = Some v"
    using assms(1,2) by simp_all
  have "?P = Inr None \<or> ?P = Inl AmountDataTooShort"
  proof (cases "length ?d < 74 \<or> \<not> HasPrefix ?d ''a9059cbb''")
    case True
    then show ?thesis by (simp add: parse_unrecognised)
  next
    case False
    with assms(3) show ?thesis by (simp add: parse_truncated)
  qed
  then show ?thesis
  proof
    assume "?P = Inr None"
    then show ?thesis by (simp add: extractTRC20Transfer_def p Let_def)
  next
    assume "?P = Inl AmountDataTooShort"
    then show ?thesis by (simp add: extractTRC20Transfer_def p Let_def)
  qed
qed

lemma extractContracts_skip:
  assumes "extractTransferFromContract cfg c tx blockData ws r = (res, r)"
    and "res = Inr None \<or> res = Inl e"
  shows "extractContracts cfg (c # rest) tx blockData ws acc r
         = extractContracts cfg rest tx blockData ws acc r"
  using assms by auto

text \<open>
  Claim C6, as the code has it. Data shorter than 74 characters, or without the selector
  \<open>a9059cbb\<close>, decodes to no event and no error. Data with the selector and 74 to 135
  characters, too short for the second argument, decodes to no event and the error of a
  short amount. In both cases the contract adds no event to its transaction, changes no
  statistics, and the loop over the contracts goes on.
\<close>

theorem parseTRC20TransferData_unrecognised:
  "(length d1 < 74 \<or> \<not> HasPrefix d1 ''a9059cbb'' \<longrightarrow>
      parseTRC20TransferData cfg d1 o1 c1 tx blockData u1 = Inr None) \<and>
   (HasPrefix d2 ''a9059cbb'' \<and> 74 \<le> length d2 \<and> length d2 < 136 \<longrightarrow>
      parseTRC20TransferData cfg d2 o2 c2 tx blockData u2 = Inl AmountDataTooShort) \<and>
   (Type c = ''TriggerSmartContract'' \<and> Parameter c = JObject p \<and> index p ''value'' = JObject v \<and>
    (length (stringOrZero (index v ''data'')) < 136
       \<or> \<not> HasPrefix (stringOrZero (index v ''data'')) ''a9059cbb'') \<longrightarrow>
      extractContracts cfg (c # rest) tx blockData ws acc r
        = extractContracts cfg rest tx blockData ws acc r)"
proof (intro conjI impI)
  assume "length d1 < 74 \<or> \<not> HasPrefix d1 ''a9059cbb''"
  then show "parseTRC20TransferData cfg d1 o1 c1 tx blockData u1 = Inr None"
    by (rule parse_unrecognised)
next
  assume "HasPrefix d2 ''a9059cbb'' \<and> 74 \<le> length d2 \<and> length d2 < 136"
  then show "parseTRC20TransferData cfg d2 o2 c2 tx blockData u2 = Inl AmountDataTooShort"
    by (simp add: parse_truncated)
next
  assume a: "Type c = ''TriggerSmartContract'' \<and> Parameter c = JObject p \<and>
             index p ''value'' = JObject v \<and>
             (length (stringOrZero (index v ''data'')) < 136
                \<or> \<not> HasPrefix (stringOrZero (index v ''data'')) ''a9059cbb'')"
  then have t: "extractTransferFromContract cfg c tx blockData ws r
                  = extractTRC20Transfer cfg c tx blockData ws r"
    by (simp add: extractTransferFromContract_def)
  from a have "extractTRC20Transfer cfg c tx blockData ws r = (Inr None, r)
               \<or> extractTRC20Transfer cfg c tx blockData ws r = (Inl AmountDataTooShort, r)"
    using extractTRC20Transfer_no_event [of c p v cfg tx blockData ws r] by blast
  with t show "extractContracts cfg (c # rest) tx blockData ws acc r
                 = extractContracts cfg rest tx blockData ws acc r"
    by (auto intro: extractContracts_skip)
qed

theorem parseTRC20TransferData_unrecognised_witness:
  "parseTRC20TransferData default_config ''deadbeef'' ''T1'' ''T2'' tx1 block115 False = Inr None \<and>
   parseTRC20TransferData default_config short_data ''T1'' ''T2'' tx1 block115 False
     = Inl AmountDataTooShort \<and>
   extractContracts default_config [trigger_contract short_data] tx1 block115 [] [] empty_redis
     = ([], empty_redis)"
  using parseTRC20TransferData_unrecognised
    [where ?d1.0 = "''deadbeef''" and ?d2.0 = short_data
       and c = "trigger_contract short_data"
       and p = "[(''value'', JObject (trigger_fields short_data))]"
       and v = "trigger_fields short_data"
       and cfg = default_config and ?o1.0 = "''T1''" and ?c1.0 = "''T2''" and tx = tx1
       and blockData = block115 and ?u1.0 = False and ?o2.0 = "''T1''" and ?c2.0 = "''T2''"
       and ?u2.0 = False and rest = "[]" and ws = "[]" and acc = "[]" and r = empty_redis]
  by (simp add: trigger_contract_def trigger_fields_def index_def HasPrefix_def short_data_def)

text \<open>Data with the selector and 74 characters: the decoder returns an error.\<close>

theorem parseTRC20TransferData_truncated_counterexample:
  "HasPrefix short_data ''a9059cbb'' \<and> length short_data < 136 \<and>
   parseTRC20TransferData default_config short_data ''T1'' ''T2'' tx1 block115 False
     = Inl AmountDataTooShort"
  by (simp add: parseTRC20TransferData_def HasPrefix_def short_data_def Let_def)

section \<open>Saving an event twice\<close>

lemma LTrim_0: "0 \<le> k \<Longrightarrow> LTrim xs 0 k = take (nat k + 1) xs"
  by (cases xs) (auto simp: LTrim_def Let_def min_def nat_add_distrib)

lemma MarshalTransferEvent_finite:
  "\<not> unsupported (Amount ev) \<Longrightarrow> \<not> unsupported (Fee ev) \<Longrightarrow> \<not> unsupported (USDValue ev) \<Longrightarrow>
     MarshalTransferEvent ev = Inr ev"
  by (simp add: MarshalTransferEvent_def)

lemma SaveTransferEvent_unsupported:
  "unsupported (Amount ev) \<or> unsupported (Fee ev) \<or> unsupported (USDValue ev) \<Longrightarrow>
     SaveTransferEvent r ev = Inl (MarshalTransferEventFailed UnsupportedValue)"
  by (simp add: SaveTransferEvent_def MarshalTransferEvent_def)

lemma SaveTransferEvent_connected:
  "reachable r \<Longrightarrow> MarshalTransferEvent ev = Inr ev \<Longrightarrow>
     SaveTransferEvent r ev =
       Inr (r\<lparr>transfer_keys := (transfer_keys r)((''transfer:'' @ TxHash ev) \<mapsto> ev),
              transfers := take 10000 (ev # transfers r),
              usdt_transfers := (if IsUSDT ev then take 10000 (ev # usdt_transfers r)
                                 else usdt_transfers r)\<rparr>)"
  by (simp add: SaveTransferEvent_def Let_def LTrim_0)

text \<open>
  Claim C8, as the code has it. An event whose amount, fee and USD value are finite is
  serialised, and on a store that answers it is written. When the same event is saved
  twice, the second write replaces the value under the key \<open>transfer:<hash>\<close>, which
  holds the event once; the list \<open>transfers\<close> (and \<open>usdt_transfers\<close> for a tracked event)
  receives the event at each write and holds it twice. An event with an amount, fee or USD
  value that is an infinity or \<open>NaN\<close> is refused before anything is written, each time.
\<close>

theorem SaveTransferEvent_twice:
  "(reachable r \<and> \<not> unsupported (Amount ev) \<and> \<not> unsupported (Fee ev)
      \<and> \<not> unsupported (USDValue ev) \<longrightarrow>
    (\<exists>r1 r2. SaveTransferEvent r ev = Inr r1 \<and> save_twice r ev = Inr r2 \<and>
       transfer_keys r2 = transfer_keys r1 \<and>
       GetTransferEvent r2 (TxHash ev) = Inr (Some ev) \<and>
       take 2 (transfers r2) = [ev, ev] \<and>
       (IsUSDT ev \<longrightarrow> take 2 (usdt_transfers r2) = [ev, ev]))) \<and>
   (unsupported (Amount ev') \<or> unsupported (Fee ev') \<or> unsupported (USDValue ev') \<longrightarrow>
      SaveTransferEvent r' ev' = Inl (MarshalTransferEventFailed UnsupportedValue) \<and>
      save_twice r' ev' = Inl (MarshalTransferEventFailed UnsupportedValue))"
proof (intro conjI impI)
  assume a: "reachable r \<and> \<not> unsupported (Amount ev) \<and> \<not> unsupported (Fee ev)
               \<and> \<not> unsupported (USDValue ev)"
  then have m: "MarshalTransferEvent ev = Inr ev"
    by (simp add: MarshalTransferEvent_finite)
  from a show "\<exists>r1 r2. SaveTransferEvent r ev = Inr r1 \<and> save_twice r ev = Inr r2 \<and>
       transfer_keys r2 = transfer_keys r1 \<and>
       GetTransferEvent r2 (TxHash ev) = Inr (Some ev) \<and>
       take 2 (transfers r2) = [ev, ev] \<and>
       (IsUSDT ev \<longrightarrow> take 2 (usdt_transfers r2) = [ev, ev])"
    by (simp add: save_twice_def SaveTransferEvent_connected [OF _ m] GetTransferEvent_def)
next
  assume a: "unsupported (Amount ev') \<or> unsupported (Fee ev') \<or> unsupported (USDValue ev')"
  then show "SaveTransferEvent r' ev' = Inl (MarshalTransferEventFailed UnsupportedValue)"
    by (rule SaveTransferEvent_unsupported)
  then show "save_twice r' ev' = Inl (MarshalTransferEventFailed UnsupportedValue)"
    by (simp add: save_twice_def)
qed

theorem SaveTransferEvent_twice_witness:
  "reachable empty_redis \<and> \<not> unsupported (Amount trc20_event) \<and>
   \<not> unsupported (Fee trc20_event) \<and> \<not> unsupported (USDValue trc20_event) \<and>
   (\<exists>r1 r2. SaveTransferEvent empty_redis trc20_event = Inr r1 \<and>
      save_twice empty_redis trc20_event = Inr r2 \<and>
      transfer_keys r2 = transfer_keys r1 \<and>
      GetTransferEvent r2 ''tx1'' = Inr (Some trc20_event) \<and>
      take 2 (transfers r2) = [trc20_event, trc20_event]) \<and>
   unsupported (Amount (trc20_event\<lparr>Amount := PosInf\<rparr>)) \<and>
   save_twice empty_redis (trc20_event\<lparr>Amount := PosInf\<rparr>)
     = Inl (MarshalTransferEventFailed UnsupportedValue)"
  using SaveTransferEvent_twice
    [of empty_redis trc20_event "trc20_event\<lparr>Amount := PosInf\<rparr>" empty_redis]
  by (simp add: empty_redis_def trc20_event_def)

text \<open>After two writes into the empty store the list of recent transfers has two entries.\<close>

theorem SaveTransferEvent_twice_counterexample:
  "save_twice empty_redis trc20_event =
     Inr (empty_redis\<lparr>transfer_keys := (transfer_keys empty_redis)(''transfer:tx1'' \<mapsto> trc20_event),
                      transfers := [trc20_event, trc20_event]\<rparr>)"
  by (simp add: save_twice_def SaveTransferEvent_connected MarshalTransferEvent_def
      empty_redis_def trc20_event_def)

section \<open>Malformed parameters\<close>

lemma malformed_result:
  assumes "malformed c"
  shows "\<exists>res. extractTransferFromContract cfg c tx blockData ws r = (res, r)
               \<and> (res = Inr None \<or> (\<exists>e. res = Inl e))"
  using assms
  by (auto simp: malformed_def extractTransferFromContract_def extractTRXTransfer_def
      extractTRC10Transfer_def extractTRC20Transfer_def split: option.splits)

lemma malformed_error:
  assumes "malformed c"
    and "Type c = ''TransferContract'' \<or> Type c = ''TransferAssetContract''
         \<or> Type c = ''TriggerSmartContract''"
  shows "\<exists>e. extractTransferFromContract cfg c tx blockData ws r = (Inl e, r)"
  using assms
  by (auto simp: malformed_def extractTransferFromContract_def extractTRXTransfer_def
      extractTRC10Transfer_def extractTRC20Transfer_def split: option.splits)

lemma extractContracts_drop:
  assumes "\<And>r. \<exists>res. extractTransferFromContract cfg c tx blockData ws r = (res, r)
               \<and> (res = Inr None \<or> (\<exists>e. res = Inl e))"
  shows "extractContracts cfg (cs1 @ c # cs2) tx blockData ws acc r
         = extractContracts cfg (cs1 @ cs2) tx blockData ws acc r"
proof (induction cs1 arbitrary: acc r)
  case Nil
  from assms [of r] show ?case by auto
next
  case (Cons a cs1)
  show ?case
    by (simp add: Cons.IH split: prod.splits sum.splits option.splits)
qed

lemma extractTransfers_connected:
  "reachable r \<Longrightarrow> \<exists>ts r1. extractTransfers cfg tx blockData r = (Inr ts, r1)"
  by (auto simp: extractTransfers_def GetWatchAddresses_def split: option.splits prod.splits)

lemma processBlock_no_error:
  "Block blockData = Some blk \<Longrightarrow> Trans blk = Some txs \<Longrightarrow>
     fst (processBlock cfg blockData (bp, r)) = None"
  by (simp add: processBlock_def split: prod.splits)

lemma extractTRXTransfer_event:
  assumes "Parameter c = JObject p" "index p ''value'' = JObject v"
  shows "fst (extractTRXTransfer c tx blockData ws r) = Inr (Some (native_event v tx blockData))"
  using assms by (simp add: extractTRXTransfer_def native_event_def Let_def)

text \<open>
  Claim C5, as the code has it. A contract whose parameters are no map, or whose \<open>value\<close>
  entry is missing or no map, is a decode failure: it adds no event, and its transaction
  yields what it would yield without that contract. The extraction of a transaction
  does not fail while the store answers, and a block that has its transaction list is
  processed without error. A field \<open>owner_address\<close>, \<open>to_address\<close> or \<open>amount\<close> that is
  missing or of another type is read as the empty string or zero, and the native transfer
  still yields its event.
\<close>

theorem malformed_parameters:
  "(malformed c \<longrightarrow>
      extractContracts cfg (cs1 @ c # cs2) tx blockData ws acc r
        = extractContracts cfg (cs1 @ cs2) tx blockData ws acc r \<and>
      (Type c = ''TransferContract'' \<or> Type c = ''TransferAssetContract''
         \<or> Type c = ''TriggerSmartContract'' \<longrightarrow>
       (\<exists>e. extractTransferFromContract cfg c tx blockData ws r = (Inl e, r)))) \<and>
   (reachable r \<longrightarrow> (\<exists>ts r1. extractTransfers cfg tx blockData r = (Inr ts, r1))) \<and>
   (Block blockData = Some blk \<and> Trans blk = Some txs \<longrightarrow>
      fst (processBlock cfg blockData (bp, r)) = None) \<and>
   (Parameter c' = JObject p \<and> index p ''value'' = JObject v \<longrightarrow>
      fst (extractTRXTransfer c' tx blockData ws r) =
        Inr (Some (native_event v tx blockData)))"
proof (intro conjI impI)
  assume m: "malformed c"
  show "extractContracts cfg (cs1 @ c # cs2) tx blockData ws acc r
          = extractContracts cfg (cs1 @ cs2) tx blockData ws acc r"
    by (rule extractContracts_drop) (rule malformed_result [OF m])
  assume "Type c = ''TransferContract'' \<or> Type c = ''TransferAssetContract''
            \<or> Type c = ''TriggerSmartContract''"
  with m show "\<exists>e. extractTransferFromContract cfg c tx blockData ws r = (Inl e, r)"
    by (rule malformed_error)
next
  assume "reachable r"
  then show "\<exists>ts r1. extractTransfers cfg tx blockData r = (Inr ts, r1)"
    by (rule extractTransfers_connected)
next
  assume "Block blockData = Some blk \<and> Trans blk = Some txs"
  then show "fst (processBlock cfg blockData (bp, r)) = None"
    by (simp add: processBlock_no_error)
next
  assume "Parameter c' = JObject p \<and> index p ''value'' = JObject v"
  then show "fst (extractTRXTransfer c' tx blockData ws r) =
        Inr (Some (native_event v tx blockData))"
    by (simp add: extractTRXTransfer_event)
qed

theorem malformed_parameters_witness:
  "malformed null_contract \<and>
   extractContracts default_config [null_contract] tx1 (block_with []) [] [] empty_redis
     = ([], empty_redis) \<and>
   (\<exists>e. extractTransferFromContract default_config null_contract tx1 (block_with []) [] empty_redis
          = (Inl e, empty_redis)) \<and>
   (\<exists>ts r1. extractTransfers default_config tx1 (block_with []) empty_redis = (Inr ts, r1)) \<and>
   fst (processBlock default_config (block_with []) (pool_on, empty_redis)) = None \<and>
   fst (extractTRXTransfer (native_contract []) tx1 (block_with []) [] empty_redis) =
     Inr (Some \<lparr>Source = [], Destination = [],
                 Amount = Float64Quo (Finite 0) (Finite 1000000),
                 Fee = Finite 0, TxHash = ''tx1'', BlockHeight = 115,
                 EventTimestamp = 1700000000000, Confirmations = 0,
                 TokenType = ''TRX'', ContractAddress = [], AssetName = [],
                 IsUSDT = False, USDValue = Finite 0\<rparr>)"
  using malformed_parameters
    [where c = null_contract and ?cs1.0 = "[]" and ?cs2.0 = "[]" and cfg = default_config
       and tx = tx1 and blockData = "block_with []" and ws = "[]" and acc = "[]"
       and r = empty_redis and blk = "\<lparr>Trans = Some []\<rparr>" and txs = "[]" and bp = pool_on
       and c' = "native_contract []" and p = "[(''value'', JObject [])]" and v = "[]"]
  by (simp add: malformed_def null_contract_def empty_redis_def block_with_def native_contract_def
      index_def convertHexToBase58_Nil tx1_def native_event_def)

text \<open>A native transfer with no field at all yields an event.\<close>

theorem missing_fields_counterexample:
  "fst (extractTRXTransfer (native_contract []) tx1 block115 [] empty_redis) = Inr (Some zero_event)"
  by (simp add: extractTRXTransfer_def native_contract_def index_def convertHexToBase58_Nil
      watched_def tx1_def block115_def zero_event_def Let_def)

section \<open>Native transfers: the amount\<close>

text \<open>
  Claim C3, as the code has it. The decoder of the block reads the amount \<open>A\<close> as the
  nearest \<open>float64\<close>, which is \<open>A\<close> itself up to \<open>2^53\<close>, and the event carries the quotient
  of that number by \<open>1e6\<close> as a \<open>float64\<close>: the \<open>float64\<close> nearest to the quotient, ties to
  even. Where \<open>A\<close> is a \<open>float64\<close> this is \<open>A / 1000000\<close> itself exactly when that rational
  is a \<open>float64\<close>, as it is for a whole number of millions below \<open>2^53\<close>. For every
  positive amount below \<open>2^63\<close> the event's amount is within \<open>2^-51\<close> of \<open>A / 1000000\<close>,
  relatively.
\<close>

theorem native_amount:
  assumes "Type c = ''TransferContract''"
    and "Parameter c = JObject p" and "index p ''value'' = JObject v"
    and "round64 (of_int A) = Finite a" and "index v ''amount'' = JNumber a"
  shows "\<exists>ev. fst (extractTransferFromContract cfg c tx blockData ws r) = Inr (Some ev) \<and>
           Amount ev = round64 (a / 1000000) \<and>
           (is_float64 (of_int A) \<longrightarrow>
              Amount ev = round64 (of_int A / 1000000) \<and>
              (Amount ev = Finite (of_int A / 1000000)) = is_float64 (of_int A / 1000000)) \<and>
           (\<forall>k. A = 1000000 * k \<and> 0 \<le> A \<and> A < 2 ^ 53 \<longrightarrow> Amount ev = Finite (of_int k)) \<and>
           (0 < A \<and> A < 2 ^ 63 \<longrightarrow>
              (\<exists>x. Amount ev = Finite x \<and>
                   \<bar>x - of_int A / 1000000\<bar> \<le> of_int A / 1000000 / 2 ^ 51))"
proof -
  let ?ev = "native_event v tx blockData"
  have e: "fst (extractTransferFromContract cfg c tx blockData ws r) = Inr (Some ?ev)"
    using assms(1-3) by (simp add: extractTransferFromContract_def extractTRXTransfer_event)
  have a: "Amount ?ev = round64 (a / 1000000)"
    using assms(5) by (simp add: native_event_def)
  have x: "Amount ?ev = round64 (of_int A / 1000000) \<and>
      (Amount ?ev = Finite (of_int A / 1000000)) = is_float64 (of_int A / 1000000)"
    if "is_float64 (of_int A)"
  proof -
    from that assms(4) have "a = of_int A" by (simp add: is_float64_def)
    with a show ?thesis by (simp add: is_float64_def)
  qed
  have m: "Amount ?ev = Finite (of_int k)" if "A = 1000000 * k \<and> 0 \<le> A \<and> A < 2 ^ 53" for k
  proof -
    from that have "round64 (of_int A) = Finite (of_int A)" by (intro round64_of_int) simp_all
    with assms(4) have "a = of_int A" by simp
    moreover have "(of_int A :: rat) / 1000000 = of_int k" using that by simp
    moreover have "0 \<le> k" "k < 2 ^ 53" using that by simp_all
    ultimately show ?thesis using a by (simp add: round64_of_int)
  qed
  have c: "\<exists>x. Amount ?ev = Finite x \<and> \<bar>x - of_int A / 1000000\<bar> \<le> of_int A / 1000000 / 2 ^ 51"
    if "0 < A \<and> A < 2 ^ 63"
    unfolding a using that assms(4) by (intro round64_quo_accuracy) simp_all
  from e a x m c show ?thesis by blast
qed

theorem native_amount_witness:
  "\<exists>ev. fst (extractTransferFromContract default_config (native_contract transfer_fields) tx1
              block115 [] empty_redis) = Inr (Some ev) \<and>
     Amount ev = Finite 5 \<and> is_float64 5"
proof -
  have h: "Type (native_contract transfer_fields) = ''TransferContract''"
    "Parameter (native_contract transfer_fields) = JObject [(''value'', JObject transfer_fields)]"
    "index [(''value'', JObject transfer_fields)] ''value'' = JObject transfer_fields"
    "round64 (of_int 5000000) = Finite 5000000"
    "index transfer_fields ''amount'' = JNumber 5000000"
    using is_float64_numeral(1)
    by (simp_all add: native_contract_def index_def transfer_fields_def is_float64_def)
  from native_amount [OF h, of default_config tx1 block115 "[]" empty_redis] obtain ev where
    ev: "fst (extractTransferFromContract default_config (native_contract transfer_fields) tx1
                block115 [] empty_redis) = Inr (Some ev)"
        "\<forall>k. (5000000 :: int) = 1000000 * k \<and> (0 :: int) \<le> 5000000 \<and> (5000000 :: int) < 2 ^ 53
            \<longrightarrow> Amount ev = Finite (of_int k)"
        "is_float64 (of_int 5000000) \<longrightarrow>
           (Amount ev = Finite (of_int 5000000 / 1000000)) = is_float64 (of_int 5000000 / 1000000)"
    by blast
  from ev(2) have a: "Amount ev = Finite 5" by (simp add: all_conj_distrib)
  with ev(3) have "is_float64 5" by simp
  with ev(1) a show ?thesis by blast
qed

text \<open>A native transfer of one unit: the amount of the event is
  \<open>4722366482869645 / 2^72\<close>, the \<open>float64\<close> nearest to a millionth, and no millionth.\<close>

theorem native_amount_counterexample:
  "fst (extractTransferFromContract default_config (native_contract one_sun_fields) tx1
          block115 [] empty_redis) = Inr (Some one_sun_event) \<and>
   Amount one_sun_event = Finite (4722366482869645 / 2 ^ 72) \<and>
   Amount one_sun_event \<noteq> Finite (1 / 1000000)"
  by (simp add: extractTransferFromContract_def extractTRXTransfer_def native_contract_def
      one_sun_fields_def index_def watched_def tx1_def block115_def one_sun_event_def Let_def
      round64_millionth)

section \<open>Watch-address filtering\<close>

lemma updateAddressStats_fields:
  "reachable (updateAddressStats a blockData r) = reachable r"
  "transfers (updateAddressStats a blockData r) = transfers r"
  "usdt_transfers (updateAddressStats a blockData r) = usdt_transfers r"
  "transfer_keys (updateAddressStats a blockData r) = transfer_keys r"
  "watch_addresses (updateAddressStats a blockData r) = watch_addresses r"
  "block_queue (updateAddressStats a blockData r) = block_queue r"
  by (simp_all add: updateAddressStats_def UpdateAddressStats_def Let_def split: sum.splits)

lemma same_events_refl: "same_events r r"
  by (simp add: same_events_def)

lemma same_events_trans: "same_events r r1 \<Longrightarrow> same_events r1 r2 \<Longrightarrow> same_events r r2"
  by (simp add: same_events_def)

lemma extractTransferFromContract_same:
  "same_events r (snd (extractTransferFromContract cfg c tx blockData ws r))"
  by (simp add: same_events_def extractTransferFromContract_def extractTRXTransfer_def
      extractTRC10Transfer_def extractTRC20Transfer_def Let_def updateAddressStats_fields
      split: option.splits sum.splits)

lemma extractContracts_same:
  "same_events r (snd (extractContracts cfg cs tx blockData ws acc r))"
proof (induction cs arbitrary: acc r)
  case Nil
  show ?case by (simp add: same_events_refl)
next
  case (Cons c cs)
  obtain res r1 where e: "extractTransferFromContract cfg c tx blockData ws r = (res, r1)"
    by (cases "extractTransferFromContract cfg c tx blockData ws r")
  have s: "same_events r r1"
    using extractTransferFromContract_same [of r cfg c tx blockData ws] e by simp
  show ?case
    using e same_events_trans [OF s Cons.IH [of r1]]
    by (simp split: sum.splits option.splits)
qed

lemma extractTransfers_same:
  "same_events r (snd (extractTransfers cfg tx blockData r))"
proof -
  have "same_events r r1"
    if "extractContracts cfg cs tx blockData (watch_addresses r) [] r = (ts, r1)" for cs ts r1
    using extractContracts_same [of r cfg cs tx blockData "watch_addresses r" "[]"] that by simp
  then show ?thesis
    by (auto simp: extractTransfers_def GetWatchAddresses_def same_events_refl
        split: option.splits prod.splits)
qed

lemma extractBlock_same:
  "same_events r (snd (extractBlock cfg txs blockData acc r))"
proof (induction txs arbitrary: acc r)
  case Nil
  show ?case by (simp add: same_events_refl)
next
  case (Cons tx txs)
  obtain res r1 where e: "extractTransfers cfg tx blockData r = (res, r1)"
    by (cases "extractTransfers cfg tx blockData r")
  have s: "same_events r r1"
    using extractTransfers_same [of r cfg tx blockData] e by simp
  show ?case
    using e same_events_trans [OF s Cons.IH [of r1]]
    by (simp split: sum.splits)
qed

text \<open>Where the events of a transaction and of a block come from.\<close>

lemma extractContracts_mono:
  "set acc \<subseteq> set (fst (extractContracts cfg cs tx blockData ws acc r))"
proof (induction cs arbitrary: acc r)
  case Nil
  show ?case by simp
next
  case (Cons c cs)
  show ?case
    using Cons.IH [of acc] Cons.IH [of "acc @ [t]" for t]
    by (auto split: prod.splits sum.splits option.splits)
qed

lemma extractContracts_origin:
  assumes "ev \<in> set (fst (extractContracts cfg cs tx blockData ws acc r))"
  shows "ev \<in> set acc \<or>
         (\<exists>c r0. c \<in> set cs \<and> fst (extractTransferFromContract cfg c tx blockData ws r0)
                                 = Inr (Some ev))"
  using assms
proof (induction cs arbitrary: acc r)
  case Nil
  then show ?case by simp
next
  case (Cons c cs)
  obtain res r1 where e: "extractTransferFromContract cfg c tx blockData ws r = (res, r1)"
    by (cases "extractTransferFromContract cfg c tx blockData ws r")
  show ?case
  proof (cases res)
    case (Inl x)
    with e Cons.prems have "ev \<in> set (fst (extractContracts cfg cs tx blockData ws acc r1))"
      by simp
    from Cons.IH [OF this] show ?thesis by auto
  next
    case (Inr opt)
    show ?thesis
    proof (cases opt)
      case None
      with Inr e Cons.prems have "ev \<in> set (fst (extractContracts cfg cs tx blockData ws acc r1))"
        by simp
      from Cons.IH [OF this] show ?thesis by auto
    next
      case (Some t)
      with Inr e Cons.prems
      have "ev \<in> set (fst (extractContracts cfg cs tx blockData ws (acc @ [t]) r1))"
        by simp
      from Cons.IH [OF this] have
        "ev \<in> set acc \<or> ev = t \<or>
         (\<exists>c r0. c \<in> set cs \<and> fst (extractTransferFromContract cfg c tx blockData ws r0)
                                 = Inr (Some ev))"
        by auto
      moreover have "fst (extractTransferFromContract cfg c tx blockData ws r) = Inr (Some t)"
        using e Inr Some by simp
      ultimately show ?thesis by auto
    qed
  qed
qed

lemma extractTransferFromContract_watched:
  assumes "fst (extractTransferFromContract cfg c tx blockData ws r) = Inr (Some ev)"
    and "TokenType ev \<noteq> ''TRX''"
  shows "watched ws (Source ev) \<or> watched ws (Destination ev)"
proof -
  consider "Type c = ''TransferContract''"
    | "Type c \<noteq> ''TransferContract''" "Type c = ''TransferAssetContract''"
    | "Type c \<noteq> ''TransferContract''" "Type c \<noteq> ''TransferAssetContract''"
      "Type c = ''TriggerSmartContract''"
    | "Type c \<noteq> ''TransferContract''" "Type c \<noteq> ''TransferAssetContract''"
      "Type c \<noteq> ''TriggerSmartContract''"
    by blast
  then show ?thesis
  proof cases
    case 1
    with assms show ?thesis
      by (auto simp: extractTransferFromContract_def extractTRXTransfer_def Let_def
          split: option.splits)
  next
    case 2
    with assms(1) show ?thesis
      by (auto simp: extractTransferFromContract_def extractTRC10Transfer_def Let_def
          split: option.splits if_splits)
  next
    case 3
    with assms(1) show ?thesis
      by (auto simp: extractTransferFromContract_def extractTRC20Transfer_def Let_def
          split: option.splits sum.splits if_splits)
  next
    case 4
    with assms(1) show ?thesis
      by (simp add: extractTransferFromContract_def)
  qed
qed

lemma extractTransfers_watched:
  assumes "extractTransfers cfg tx blockData r = (Inr ts, r1)" "ev \<in> set ts"
    and "TokenType ev \<noteq> ''TRX''"
  shows "watched (watch_addresses r) (Source ev) \<or> watched (watch_addresses r) (Destination ev)"
proof -
  from assms(1,2) obtain raw where raw: "RawData tx = Some raw"
    by (cases "RawData tx") (auto simp: extractTransfers_def)
  from assms(1,2) raw have
    "extractContracts cfg (Contracts raw) tx blockData (watch_addresses r) [] r = (ts, r1)"
    by (auto simp: extractTransfers_def GetWatchAddresses_def split: if_splits prod.splits)
  with assms(2) have
    "ev \<in> set (fst (extractContracts cfg (Contracts raw) tx blockData (watch_addresses r) [] r))"
    by simp
  from extractContracts_origin [OF this] obtain c r0 where
    "fst (extractTransferFromContract cfg c tx blockData (watch_addresses r) r0) = Inr (Some ev)"
    by auto
  then show ?thesis
    using assms(3) by (rule extractTransferFromContract_watched)
qed

lemma extractBlock_mono:
  "set acc \<subseteq> set (fst (extractBlock cfg txs blockData acc r))"
proof (induction txs arbitrary: acc r)
  case Nil
  show ?case by simp
next
  case (Cons tx txs)
  show ?case
    using Cons.IH [of acc] Cons.IH [of "acc @ ts" for ts]
    by (auto split: prod.splits sum.splits)
qed

lemma extractBlock_watched:
  assumes "ev \<in> set (fst (extractBlock cfg txs blockData acc r))" "TokenType ev \<noteq> ''TRX''"
  shows "ev \<in> set acc \<or> watched (watch_addresses r) (Source ev)
         \<or> watched (watch_addresses r) (Destination ev)"
  using assms(1)
proof (induction txs arbitrary: acc r)
  case Nil
  then show ?case by simp
next
  case (Cons tx txs)
  obtain res r1 where e: "extractTransfers cfg tx blockData r = (res, r1)"
    by (cases "extractTransfers cfg tx blockData r")
  have w: "watch_addresses r1 = watch_addresses r"
    using extractTransfers_same [of r cfg tx blockData] e by (simp add: same_events_def)
  show ?case
  proof (cases res)
    case (Inl x)
    with e Cons.prems have "ev \<in> set (fst (extractBlock cfg txs blockData acc r1))"
      by simp
    from Cons.IH [OF this] w show ?thesis by simp
  next
    case (Inr ts)
    with e Cons.prems have "ev \<in> set (fst (extractBlock cfg txs blockData (acc @ ts) r1))"
      by simp
    from Cons.IH [OF this] w have
      "ev \<in> set acc \<or> ev \<in> set ts \<or> watched (watch_addresses r) (Source ev)
         \<or> watched (watch_addresses r) (Destination ev)"
      by auto
    moreover have "watched (watch_addresses r) (Source ev)
                     \<or> watched (watch_addresses r) (Destination ev)" if "ev \<in> set ts"
      using e Inr that assms(2) extractTransfers_watched [of cfg tx blockData r ts r1 ev] by simp
    ultimately show ?thesis by blast
  qed
qed

text \<open>A native transfer is among the events of its transaction and of its block.\<close>

lemma extractContracts_native:
  assumes "c \<in> set cs" "Type c = ''TransferContract''"
    and "Parameter c = JObject p" "index p ''value'' = JObject v"
  shows "native_event v tx blockData \<in> set (fst (extractContracts cfg cs tx blockData ws acc r))"
  using assms(1)
proof (induction cs arbitrary: acc r)
  case Nil
  then show ?case by simp
next
  case (Cons a cs)
  obtain res r1 where e: "extractTransferFromContract cfg a tx blockData ws r = (res, r1)"
    by (cases "extractTransferFromContract cfg a tx blockData ws r")
  show ?case
  proof (cases "a = c")
    case True
    have "fst (extractTransferFromContract cfg c tx blockData ws r)
            = Inr (Some (native_event v tx blockData))"
      using assms(2-4) by (simp add: extractTransferFromContract_def extractTRXTransfer_event)
    with e True have res: "res = Inr (Some (native_event v tx blockData))" by simp
    have "native_event v tx blockData \<in> set (acc @ [native_event v tx blockData])" by simp
    with extractContracts_mono [of "acc @ [native_event v tx blockData]" cfg cs tx blockData ws r1]
    show ?thesis using e res by auto
  next
    case False
    with Cons.prems have "c \<in> set cs" by simp
    from Cons.IH [OF this] e show ?thesis
      by (simp split: sum.splits option.splits)
  qed
qed

lemma extractBlock_native:
  assumes "tx \<in> set txs" "RawData tx = Some raw" "c \<in> set (Contracts raw)"
    and "Type c = ''TransferContract''" "Parameter c = JObject p" "index p ''value'' = JObject v"
    and "reachable r"
  shows "native_event v tx blockData \<in> set (fst (extractBlock cfg txs blockData acc r))"
  using assms(1,7)
proof (induction txs arbitrary: acc r)
  case Nil
  then show ?case by simp
next
  case (Cons a txs)
  obtain res r1 where e: "extractTransfers cfg a blockData r = (res, r1)"
    by (cases "extractTransfers cfg a blockData r")
  have c1: "reachable r1"
    using extractTransfers_same [of r cfg a blockData] e Cons.prems(2)
    by (simp add: same_events_def)
  show ?case
  proof (cases "a = tx")
    case True
    have ne: "length (Contracts raw) \<noteq> 0" using assms(3) by auto
    have "fst (extractTransfers cfg tx blockData r)
            = Inr (fst (extractContracts cfg (Contracts raw) tx blockData (watch_addresses r) [] r))"
      using assms(2) ne Cons.prems(2)
      by (simp add: extractTransfers_def GetWatchAddresses_def split: prod.splits)
    with e True obtain ts where res: "res = Inr ts"
      and ts: "ts = fst (extractContracts cfg (Contracts raw) tx blockData (watch_addresses r) [] r)"
      by simp
    have "native_event v tx blockData \<in> set ts"
      unfolding ts by (rule extractContracts_native [OF assms(3-6)])
    then have "native_event v tx blockData \<in> set (acc @ ts)" by simp
    with extractBlock_mono [of "acc @ ts" cfg txs blockData r1] show ?thesis
      using e res by auto
  next
    case False
    with Cons.prems have "tx \<in> set txs" by simp
    from Cons.IH [OF this c1] e show ?thesis
      by (simp split: sum.splits)
  qed
qed

text \<open>What the loop that saves the events leaves in the store.\<close>

lemma MarshalTransferEvent_eq:
  "MarshalTransferEvent ev = (if finite_amounts ev then Inr ev else Inl UnsupportedValue)"
  by (auto simp: MarshalTransferEvent_def finite_amounts_def)

lemma foldl_push_take:
  "0 < n \<Longrightarrow> foldl (\<lambda>q e. take n (e # q)) (take n q) es = take n (rev es @ q)"
proof (induction es arbitrary: q)
  case Nil
  then show ?case by simp
next
  case (Cons e es)
  obtain m where m: "n = Suc m" using Cons.prems by (cases n) simp_all
  have "take n (e # take n q) = take n (e # q)"
    by (simp add: m min_def)
  with Cons.IH [OF Cons.prems, of "e # q"] show ?case by simp
qed

lemma foldl_push:
  assumes "0 < n" "es \<noteq> []"
  shows "foldl (\<lambda>q e. take n (e # q)) q es = take n (rev es @ q)"
proof -
  obtain e es' where es: "es = e # es'" using assms(2) by (cases es) simp_all
  have "foldl (\<lambda>q e. take n (e # q)) q es = foldl (\<lambda>q e. take n (e # q)) (take n (e # q)) es'"
    by (simp add: es)
  also have "\<dots> = take n (rev es' @ e # q)"
    by (rule foldl_push_take [OF assms(1)])
  finally show ?thesis by (simp add: es)
qed

lemma saveTransfers_transfers:
  assumes "reachable r"
  shows "reachable (snd (saveTransfers ts (bp, r))) \<and>
         transfers (snd (saveTransfers ts (bp, r)))
           = foldl (\<lambda>q e. take 10000 (e # q)) (transfers r) (filter finite_amounts ts)"
  using assms
proof (induction ts arbitrary: bp r)
  case Nil
  then show ?case
    by simp
next
  case (Cons t ts)
  show ?case
  proof (cases "finite_amounts t")
    case False
    then have "SaveTransferEvent r t = Inl (MarshalTransferEventFailed UnsupportedValue)"
      by (simp add: SaveTransferEvent_def MarshalTransferEvent_eq)
    with Cons.IH [OF Cons.prems, of bp] False show ?thesis by simp
  next
    case True
    let ?r1 = "r\<lparr>transfer_keys := (transfer_keys r)((''transfer:'' @ TxHash t) \<mapsto> t),
                   transfers := take 10000 (t # transfers r),
                   usdt_transfers := (if IsUSDT t then take 10000 (t # usdt_transfers r)
                                      else usdt_transfers r)\<rparr>"
    have s: "SaveTransferEvent r t = Inr ?r1"
      using Cons.prems True by (simp add: SaveTransferEvent_connected MarshalTransferEvent_eq)
    have c1: "reachable ?r1" using Cons.prems by simp
    from Cons.IH [OF c1, of "bp\<lparr>transfersFound := transfersFound bp + 1\<rparr>"] s True
    show ?thesis by simp
  qed
qed

lemma saveTransfers_append:
  "saveTransfers (xs @ ys) (bp, r) = saveTransfers ys (saveTransfers xs (bp, r))"
  by (induction xs arbitrary: bp r) (simp_all split: sum.splits)

lemma saveTransfers_unreachable:
  "\<not> reachable r \<Longrightarrow> saveTransfers ts (bp, r) = (bp, r)"
  by (induction ts) (simp_all add: SaveTransferEvent_def Let_def split: sum.splits)

lemma saveTransfers_key:
  assumes "reachable r"
    and "(\<exists>e. transfer_keys r (''transfer:'' @ h) = Some e \<and> TxHash e = h \<and> P e)
         \<or> (\<exists>ev\<in>set ts. finite_amounts ev \<and> TxHash ev = h)"
    and "\<forall>ev\<in>set ts. P ev"
  shows "\<exists>e. transfer_keys (snd (saveTransfers ts (bp, r))) (''transfer:'' @ h) = Some e
             \<and> TxHash e = h \<and> P e"
  using assms
proof (induction ts arbitrary: bp r)
  case Nil
  then show ?case by simp
next
  case (Cons t ts)
  show ?case
  proof (cases "finite_amounts t")
    case False
    then have s: "SaveTransferEvent r t = Inl (MarshalTransferEventFailed UnsupportedValue)"
      by (simp add: SaveTransferEvent_def MarshalTransferEvent_eq)
    have "(\<exists>e. transfer_keys r (''transfer:'' @ h) = Some e \<and> TxHash e = h \<and> P e)
            \<or> (\<exists>ev\<in>set ts. finite_amounts ev \<and> TxHash ev = h)"
      using Cons.prems(2) False by auto
    from Cons.IH [OF Cons.prems(1) this, of bp] Cons.prems(3) s show ?thesis by simp
  next
    case True
    let ?r1 = "r\<lparr>transfer_keys := (transfer_keys r)((''transfer:'' @ TxHash t) \<mapsto> t),
                   transfers := take 10000 (t # transfers r),
                   usdt_transfers := (if IsUSDT t then take 10000 (t # usdt_transfers r)
                                      else usdt_transfers r)\<rparr>"
    have s: "SaveTransferEvent r t = Inr ?r1"
      using Cons.prems(1) True by (simp add: SaveTransferEvent_connected MarshalTransferEvent_eq)
    have c1: "reachable ?r1" using Cons.prems(1) by simp
    have pt: "P t" using Cons.prems(3) by simp
    have "(\<exists>e. transfer_keys ?r1 (''transfer:'' @ h) = Some e \<and> TxHash e = h \<and> P e)
            \<or> (\<exists>ev\<in>set ts. finite_amounts ev \<and> TxHash ev = h)"
    proof (cases "TxHash t = h")
      case True
      with pt show ?thesis by simp
    next
      case False
      with Cons.prems(2) show ?thesis by auto
    qed
    from Cons.IH [OF c1 this, of "bp\<lparr>transfersFound := transfersFound bp + 1\<rparr>"]
      Cons.prems(3) s
    show ?thesis by simp
  qed
qed

lemma native_event_finite:
  assumes "\<forall>q. index v ''amount'' = JNumber q \<longrightarrow> is_float64 q"
  shows "finite_amounts (native_event v tx blockData)"
proof (cases "index v ''amount''")
  case (JNumber q)
  with assms have "round64 q = Finite q" by (simp add: is_float64_def)
  from Float64Quo_finite [OF this] JNumber show ?thesis
    by (auto simp: finite_amounts_def native_event_def)
qed (simp_all add: finite_amounts_def native_event_def round64_def)

lemma extractTRC10Transfer_unwatched:
  assumes "Parameter c = JObject p" "index p ''value'' = JObject v"
    and "\<not> watched ws (convertHexToBase58 (stringOrZero (index v ''owner_address'')))"
    and "\<not> watched ws (convertHexToBase58 (stringOrZero (index v ''to_address'')))"
  shows "extractTRC10Transfer c tx blockData ws r = (Inr None, r)"
  using assms by (simp add: extractTRC10Transfer_def Let_def)

lemma extractTRC20Transfer_unwatched:
  assumes "Parameter c = JObject p" "index p ''value'' = JObject v"
    and "parseTRC20TransferData cfg (stringOrZero (index v ''data''))
           (convertHexToBase58 (stringOrZero (index v ''owner_address'')))
           (convertHexToBase58 (stringOrZero (index v ''contract_address''))) tx blockData
           (isUSDTContract cfg (convertHexToBase58 (stringOrZero (index v ''contract_address''))))
         = Inr (Some t)"
    and "\<not> watched ws (Source t)" "\<not> watched ws (Destination t)"
  shows "extractTRC20Transfer cfg c tx blockData ws r = (Inr None, r)"
  using assms by (simp add: extractTRC20Transfer_def Let_def)

lemma parse_transfer_data_mixed:
  "parseTRC20TransferData default_config transfer_data ''T1'' ''T2'' mixed_tx
     (block_with [mixed_tx]) False = Inr (Some trc20_event)"
  by (simp add: parseTRC20TransferData_def transfer_data_def HasPrefix_def TrimLeft_def
      Repeat_def parseHexAmount_def ParseUint16_def fromHexChar_def mixed_tx_def block_with_def
      trc20_event_def Let_def)

lemma native_event_mixed:
  "native_event transfer_fields mixed_tx (block_with [mixed_tx]) = five_trx"
  by (simp add: native_event_def transfer_fields_def index_def mixed_tx_def block_with_def
      five_trx_def)

lemma extractBlock_mixed:
  "extractBlock default_config [mixed_tx] (block_with [mixed_tx]) [] watching_redis
     = ([five_trx, five_trx], watching_redis)"
proof -
  let ?ws = "[''TLa2f6VPqDgRE67v1736s7bJ8Ray5wYjU7'']"
  let ?bd = "block_with [mixed_tx]"
  have u: "\<not> isUSDTContract default_config ''T2''"
    by (simp add: isUSDTContract_def default_config_def)
  have d: "Source trc20_event = ''T1''"
    "Destination trc20_event = ''TR7NHqjeKQxGTCi8q8ZY4pL8otSzgjLj6t''"
    by (simp_all add: trc20_event_def convertHexToBase58_usdt)
  have a: "extractTransferFromContract default_config (asset_contract transfer_fields) mixed_tx
             ?bd ?ws r = (Inr None, r)" for r
    by (simp add: extractTransferFromContract_def extractTRC10Transfer_def asset_contract_def
        transfer_fields_def index_def watched_def Let_def)
  have n: "extractTransferFromContract default_config (native_contract transfer_fields) mixed_tx
             ?bd ?ws r = (Inr (Some five_trx), r)" for r
    using native_event_mixed
    by (simp add: extractTransferFromContract_def extractTRXTransfer_def native_contract_def
        native_event_def transfer_fields_def index_def watched_def Let_def)
  have t: "extractTransferFromContract default_config (trigger_contract transfer_data) mixed_tx
             ?bd ?ws r = (Inr None, r)" for r
    using extractTRC20Transfer_unwatched
      [of "trigger_contract transfer_data" "[(''value'', JObject (trigger_fields transfer_data))]"
          "trigger_fields transfer_data" default_config mixed_tx ?bd trc20_event ?ws r]
    by (simp add: extractTransferFromContract_def trigger_contract_def trigger_fields_def
        index_def u d watched_def parse_transfer_data_mixed)
  have "extractContracts default_config
          [asset_contract transfer_fields, native_contract transfer_fields,
           trigger_contract transfer_data, native_contract transfer_fields]
          mixed_tx ?bd ?ws [] watching_redis = ([five_trx, five_trx], watching_redis)"
    by (simp add: a n t)
  then show ?thesis
    by (simp add: extractTransfers_def GetWatchAddresses_def mixed_tx_def watching_redis_def
        empty_redis_def)
qed

text \<open>
  Claim C4. An asset transfer and a contract-token transfer whose source and destination
  are both outside the watch set yield no event and leave the store as it is, so no
  statistics are updated; at any place in the contract list of any transaction, the
  transaction yields what it would yield without that contract. A block stores the events
  that its transactions yield and no others, and each of these that is no native transfer
  has its source or its destination in the watch set. A native transfer yields its event
  whatever the watch set is; on a store that answers, the event is among those that the
  block stores, and when its turn comes it is written under the key of its transaction
  and pushed onto the list of recent transfers. After the block, the list holds the
  events pushed, cut to 10000 entries after each push, and the key of the transaction
  holds an event of that transaction (the last one saved, since the key has the
  transaction hash only).
\<close>

theorem watch_address_filtering:
  "(Type c10 = ''TransferAssetContract'' \<and> Parameter c10 = JObject p10 \<and>
    index p10 ''value'' = JObject v10 \<and>
    \<not> watched ws (convertHexToBase58 (stringOrZero (index v10 ''owner_address''))) \<and>
    \<not> watched ws (convertHexToBase58 (stringOrZero (index v10 ''to_address''))) \<longrightarrow>
      extractTransferFromContract cfg c10 tx bd ws r = (Inr None, r) \<and>
      extractContracts cfg (cs1 @ c10 # cs2) tx bd ws acc r
        = extractContracts cfg (cs1 @ cs2) tx bd ws acc r) \<and>
   (Type c20 = ''TriggerSmartContract'' \<and> Parameter c20 = JObject p20 \<and>
    index p20 ''value'' = JObject v20 \<and>
    parseTRC20TransferData cfg (stringOrZero (index v20 ''data''))
      (convertHexToBase58 (stringOrZero (index v20 ''owner_address'')))
      (convertHexToBase58 (stringOrZero (index v20 ''contract_address''))) tx bd
      (isUSDTContract cfg (convertHexToBase58 (stringOrZero (index v20 ''contract_address''))))
      = Inr (Some t) \<and>
    \<not> watched ws (Source t) \<and> \<not> watched ws (Destination t) \<longrightarrow>
      extractTransferFromContract cfg c20 tx bd ws r = (Inr None, r) \<and>
      extractContracts cfg (cs1 @ c20 # cs2) tx bd ws acc r
        = extractContracts cfg (cs1 @ cs2) tx bd ws acc r) \<and>
   (Block bd = Some blk \<and> Trans blk = Some txs \<longrightarrow>
      processBlock cfg bd (bp, r)
        = (None, saveTransfers (fst (extractBlock cfg txs bd [] r))
                   (bp, snd (extractBlock cfg txs bd [] r))) \<and>
      same_events r (snd (extractBlock cfg txs bd [] r)) \<and>
      (\<forall>ev\<in>set (fst (extractBlock cfg txs bd [] r)).
         TokenType ev \<noteq> ''TRX'' \<longrightarrow>
         watched (watch_addresses r) (Source ev) \<or> watched (watch_addresses r) (Destination ev))) \<and>
   (Block bd = Some blk \<and> Trans blk = Some txs \<and> tx \<in> set txs \<and> RawData tx = Some raw \<and>
    c \<in> set (Contracts raw) \<and> Type c = ''TransferContract'' \<and> Parameter c = JObject p \<and>
    index p ''value'' = JObject v \<and> (\<forall>q. index v ''amount'' = JNumber q \<longrightarrow> is_float64 q) \<and>
    reachable r \<longrightarrow>
      (\<forall>ws' r'. fst (extractTransferFromContract cfg c tx bd ws' r')
                  = Inr (Some (native_event v tx bd))) \<and>
      native_event v tx bd \<in> set (fst (extractBlock cfg txs bd [] r)) \<and>
      (\<exists>xs ys bp' r' r''.
         fst (extractBlock cfg txs bd [] r) = xs @ native_event v tx bd # ys \<and>
         saveTransfers xs (bp, snd (extractBlock cfg txs bd [] r)) = (bp', r') \<and>
         SaveTransferEvent r' (native_event v tx bd) = Inr r'' \<and>
         GetTransferEvent r'' (TxID tx) = Inr (Some (native_event v tx bd)) \<and>
         transfers r'' = take 10000 (native_event v tx bd # transfers r') \<and>
         processBlock cfg bd (bp, r)
           = (None, saveTransfers ys (bp'\<lparr>transfersFound := transfersFound bp' + 1\<rparr>, r''))) \<and>
      (\<exists>bp1 r1. processBlock cfg bd (bp, r) = (None, bp1, r1) \<and>
         transfers r1 = foldl (\<lambda>q e. take 10000 (e # q)) (transfers r)
                          (filter finite_amounts (fst (extractBlock cfg txs bd [] r))) \<and>
         (length (fst (extractBlock cfg txs bd [] r)) \<le> 10000 \<longrightarrow>
            native_event v tx bd \<in> set (transfers r1)) \<and>
         (\<exists>e. GetTransferEvent r1 (TxID tx) = Inr (Some e) \<and> TxHash e = TxID tx \<and>
               e \<in> set (fst (extractBlock cfg txs bd [] r)))))"
proof (intro conjI impI)
  assume a: "Type c10 = ''TransferAssetContract'' \<and> Parameter c10 = JObject p10 \<and>
    index p10 ''value'' = JObject v10 \<and>
    \<not> watched ws (convertHexToBase58 (stringOrZero (index v10 ''owner_address''))) \<and>
    \<not> watched ws (convertHexToBase58 (stringOrZero (index v10 ''to_address'')))"
  have e: "extractTransferFromContract cfg c10 tx bd ws r' = (Inr None, r')" for r'
    using a extractTRC10Transfer_unwatched [of c10 p10 v10 ws tx bd r']
    by (simp add: extractTransferFromContract_def)
  show "extractTransferFromContract cfg c10 tx bd ws r = (Inr None, r)"
    by (rule e)
  show "extractContracts cfg (cs1 @ c10 # cs2) tx bd ws acc r
          = extractContracts cfg (cs1 @ cs2) tx bd ws acc r"
    by (rule extractContracts_drop) (simp add: e)
next
  assume a: "Type c20 = ''TriggerSmartContract'' \<and> Parameter c20 = JObject p20 \<and>
    index p20 ''value'' = JObject v20 \<and>
    parseTRC20TransferData cfg (stringOrZero (index v20 ''data''))
      (convertHexToBase58 (stringOrZero (index v20 ''owner_address'')))
      (convertHexToBase58 (stringOrZero (index v20 ''contract_address''))) tx bd
      (isUSDTContract cfg (convertHexToBase58 (stringOrZero (index v20 ''contract_address''))))
      = Inr (Some t) \<and>
    \<not> watched ws (Source t) \<and> \<not> watched ws (Destination t)"
  have e: "extractTransferFromContract cfg c20 tx bd ws r' = (Inr None, r')" for r'
    using a extractTRC20Transfer_unwatched [of c20 p20 v20 cfg tx bd t ws r']
    by (simp add: extractTransferFromContract_def)
  show "extractTransferFromContract cfg c20 tx bd ws r = (Inr None, r)"
    by (rule e)
  show "extractContracts cfg (cs1 @ c20 # cs2) tx bd ws acc r
          = extractContracts cfg (cs1 @ cs2) tx bd ws acc r"
    by (rule extractContracts_drop) (simp add: e)
next
  assume a: "Block bd = Some blk \<and> Trans blk = Some txs"
  then show "processBlock cfg bd (bp, r)
        = (None, saveTransfers (fst (extractBlock cfg txs bd [] r))
                   (bp, snd (extractBlock cfg txs bd [] r)))"
    by (simp add: processBlock_def split: prod.splits)
  show "same_events r (snd (extractBlock cfg txs bd [] r))"
    by (rule extractBlock_same)
  show "\<forall>ev\<in>set (fst (extractBlock cfg txs bd [] r)).
         TokenType ev \<noteq> ''TRX'' \<longrightarrow>
         watched (watch_addresses r) (Source ev) \<or> watched (watch_addresses r) (Destination ev)"
    using extractBlock_watched [of _ cfg txs bd "[]" r] by auto
next
  assume a: "Block bd = Some blk \<and> Trans blk = Some txs \<and> tx \<in> set txs \<and> RawData tx = Some raw \<and>
    c \<in> set (Contracts raw) \<and> Type c = ''TransferContract'' \<and> Parameter c = JObject p \<and>
    index p ''value'' = JObject v \<and> (\<forall>q. index v ''amount'' = JNumber q \<longrightarrow> is_float64 q) \<and>
    reachable r"
  let ?ev = "native_event v tx bd"
  let ?ts = "fst (extractBlock cfg txs bd [] r)"
  let ?r0 = "snd (extractBlock cfg txs bd [] r)"
  let ?s = "saveTransfers ?ts (bp, ?r0)"
  from a show "\<forall>ws' r'. fst (extractTransferFromContract cfg c tx bd ws' r') = Inr (Some ?ev)"
    by (simp add: extractTransferFromContract_def extractTRXTransfer_event)
  from a show m: "?ev \<in> set ?ts"
    using extractBlock_native [of tx txs raw c p v r bd cfg "[]"] by simp
  have pb: "processBlock cfg bd (bp, r) = (None, fst ?s, snd ?s)"
    using a by (simp add: processBlock_def split: prod.splits)
  have pb': "processBlock cfg bd (bp, r) = (None, ?s)"
    using pb by simp
  have s0: "same_events r ?r0" by (rule extractBlock_same)
  then have c0: "reachable ?r0" and t0: "transfers ?r0 = transfers r"
    and k0: "transfer_keys ?r0 = transfer_keys r"
    using a by (simp_all add: same_events_def)
  have f: "finite_amounts ?ev" using a by (simp add: native_event_finite)
  have tr: "reachable (snd ?s)"
    "transfers (snd ?s) = foldl (\<lambda>q e. take 10000 (e # q)) (transfers r)
                            (filter finite_amounts ?ts)"
    using saveTransfers_transfers [OF c0, of ?ts bp] t0 by simp_all
  have inl: "?ev \<in> set (transfers (snd ?s))" if l: "length ?ts \<le> 10000"
  proof -
    let ?es = "filter finite_amounts ?ts"
    have ne: "?es \<noteq> []" and mem: "?ev \<in> set ?es"
      using m f by (auto simp: filter_empty_conv)
    have "length (rev ?es) \<le> 10000"
      by (rule order_trans [OF _ l]) simp
    then have "take 10000 (rev ?es @ transfers r)
                 = rev ?es @ take (10000 - length ?es) (transfers r)"
      by simp
    moreover have "transfers (snd ?s) = take 10000 (rev ?es @ transfers r)"
      unfolding tr(2) by (rule foldl_push [OF _ ne]) simp
    ultimately show ?thesis using mem by simp
  qed
  have h: "TxHash ?ev = TxID tx" by (simp add: native_event_def)
  show "\<exists>xs ys bp' r' r''.
         ?ts = xs @ ?ev # ys \<and>
         saveTransfers xs (bp, ?r0) = (bp', r') \<and>
         SaveTransferEvent r' ?ev = Inr r'' \<and>
         GetTransferEvent r'' (TxID tx) = Inr (Some ?ev) \<and>
         transfers r'' = take 10000 (?ev # transfers r') \<and>
         processBlock cfg bd (bp, r)
           = (None, saveTransfers ys (bp'\<lparr>transfersFound := transfersFound bp' + 1\<rparr>, r''))"
  proof -
    from m obtain xs ys where sp: "?ts = xs @ ?ev # ys"
      by (auto simp: in_set_conv_decomp)
    obtain bp' r' where s1: "saveTransfers xs (bp, ?r0) = (bp', r')"
      by (cases "saveTransfers xs (bp, ?r0)")
    have c': "reachable r'"
      using saveTransfers_transfers [OF c0, of xs bp] s1 by simp
    let ?r2 = "r'\<lparr>transfer_keys := (transfer_keys r')((''transfer:'' @ TxHash ?ev) \<mapsto> ?ev),
                    transfers := take 10000 (?ev # transfers r'),
                    usdt_transfers := (if IsUSDT ?ev then take 10000 (?ev # usdt_transfers r')
                                       else usdt_transfers r')\<rparr>"
    have sv: "SaveTransferEvent r' ?ev = Inr ?r2"
      using c' f by (simp add: SaveTransferEvent_connected MarshalTransferEvent_eq)
    have g: "GetTransferEvent ?r2 (TxID tx) = Inr (Some ?ev)"
      using c' h by (simp add: GetTransferEvent_def)
    have "?s = saveTransfers (?ev # ys) (saveTransfers xs (bp, ?r0))"
      by (simp only: sp saveTransfers_append)
    also have "\<dots> = saveTransfers ys (bp'\<lparr>transfersFound := transfersFound bp' + 1\<rparr>, ?r2)"
      by (simp only: s1 saveTransfers.simps sv sum.case)
    finally have "processBlock cfg bd (bp, r)
        = (None, saveTransfers ys (bp'\<lparr>transfersFound := transfersFound bp' + 1\<rparr>, ?r2))"
      using pb' by simp
    with sp s1 sv g show ?thesis
      by (intro exI [of _ xs] exI [of _ ys] exI [of _ bp'] exI [of _ r'] exI [of _ ?r2]) simp
  qed
  have "\<exists>e. transfer_keys (snd ?s) (''transfer:'' @ TxID tx) = Some e \<and> TxHash e = TxID tx
             \<and> e \<in> set ?ts"
    by (rule saveTransfers_key [OF c0, where P = "\<lambda>e. e \<in> set ?ts"])
       (use m f h in auto)
  then have key: "\<exists>e. GetTransferEvent (snd ?s) (TxID tx) = Inr (Some e) \<and> TxHash e = TxID tx
                       \<and> e \<in> set ?ts"
    using tr(1) by (simp add: GetTransferEvent_def)
  show "\<exists>bp1 r1. processBlock cfg bd (bp, r) = (None, bp1, r1) \<and>
         transfers r1 = foldl (\<lambda>q e. take 10000 (e # q)) (transfers r)
                          (filter finite_amounts ?ts) \<and>
         (length ?ts \<le> 10000 \<longrightarrow> ?ev \<in> set (transfers r1)) \<and>
         (\<exists>e. GetTransferEvent r1 (TxID tx) = Inr (Some e) \<and> TxHash e = TxID tx \<and> e \<in> set ?ts)"
    using pb tr(2) inl key by blast
qed

theorem watch_address_filtering_witness:
  "extractTransferFromContract default_config (asset_contract transfer_fields) mixed_tx
     (block_with [mixed_tx]) [''TLa2f6VPqDgRE67v1736s7bJ8Ray5wYjU7''] watching_redis
     = (Inr None, watching_redis) \<and>
   extractTransferFromContract default_config (trigger_contract transfer_data) mixed_tx
     (block_with [mixed_tx]) [''TLa2f6VPqDgRE67v1736s7bJ8Ray5wYjU7''] watching_redis
     = (Inr None, watching_redis) \<and>
   fst (extractBlock default_config [mixed_tx] (block_with [mixed_tx]) [] watching_redis)
     = [five_trx, five_trx] \<and>
   (\<exists>bp1 r1. processBlock default_config (block_with [mixed_tx]) (pool_on, watching_redis)
                = (None, bp1, r1) \<and>
      transfers r1 = [five_trx, five_trx] \<and>
      GetTransferEvent r1 ''tx1'' = Inr (Some five_trx))"
proof -
  let ?ws = "[''TLa2f6VPqDgRE67v1736s7bJ8Ray5wYjU7'']"
  let ?bd = "block_with [mixed_tx]"
  let ?cs = "[asset_contract transfer_fields, native_contract transfer_fields,
              trigger_contract transfer_data, native_contract transfer_fields]"
  note th = watch_address_filtering
      [where ?c10.0 = "asset_contract transfer_fields"
         and ?p10.0 = "[(''value'', JObject transfer_fields)]"
         and ?v10.0 = transfer_fields and ws = ?ws and cfg = default_config
         and tx = mixed_tx and bd = ?bd and r = watching_redis
         and ?cs1.0 = "[]" and ?cs2.0 = "[]" and acc = "[]"
         and ?c20.0 = "trigger_contract transfer_data"
         and ?p20.0 = "[(''value'', JObject (trigger_fields transfer_data))]"
         and ?v20.0 = "trigger_fields transfer_data" and t = trc20_event
         and blk = "\<lparr>Trans = Some [mixed_tx]\<rparr>" and txs = "[mixed_tx]" and bp = pool_on
         and raw = "\<lparr>Contracts = ?cs\<rparr>"
         and c = "native_contract transfer_fields"
         and p = "[(''value'', JObject transfer_fields)]" and v = transfer_fields]
  have u: "\<not> isUSDTContract default_config ''T2''"
    by (simp add: isUSDTContract_def default_config_def)
  have d: "Source trc20_event = ''T1''"
    "Destination trc20_event = ''TR7NHqjeKQxGTCi8q8ZY4pL8otSzgjLj6t''"
    by (simp_all add: trc20_event_def convertHexToBase58_usdt)
  have h1: "Type (asset_contract transfer_fields) = ''TransferAssetContract'' \<and>
    Parameter (asset_contract transfer_fields) = JObject [(''value'', JObject transfer_fields)] \<and>
    index [(''value'', JObject transfer_fields)] ''value'' = JObject transfer_fields \<and>
    \<not> watched ?ws (convertHexToBase58 (stringOrZero (index transfer_fields ''owner_address''))) \<and>
    \<not> watched ?ws (convertHexToBase58 (stringOrZero (index transfer_fields ''to_address'')))"
    by (simp add: asset_contract_def index_def transfer_fields_def watched_def)
  have h2: "Type (trigger_contract transfer_data) = ''TriggerSmartContract'' \<and>
    Parameter (trigger_contract transfer_data)
      = JObject [(''value'', JObject (trigger_fields transfer_data))] \<and>
    index [(''value'', JObject (trigger_fields transfer_data))] ''value''
      = JObject (trigger_fields transfer_data) \<and>
    parseTRC20TransferData default_config
      (stringOrZero (index (trigger_fields transfer_data) ''data''))
      (convertHexToBase58 (stringOrZero (index (trigger_fields transfer_data) ''owner_address'')))
      (convertHexToBase58 (stringOrZero (index (trigger_fields transfer_data) ''contract_address'')))
      mixed_tx ?bd
      (isUSDTContract default_config
         (convertHexToBase58 (stringOrZero (index (trigger_fields transfer_data)
                                                  ''contract_address''))))
      = Inr (Some trc20_event) \<and>
    \<not> watched ?ws (Source trc20_event) \<and> \<not> watched ?ws (Destination trc20_event)"
    by (simp add: trigger_contract_def trigger_fields_def index_def u d watched_def
        parse_transfer_data_mixed)
  have h4: "Block ?bd = Some \<lparr>Trans = Some [mixed_tx]\<rparr> \<and>
    Trans \<lparr>Trans = Some [mixed_tx]\<rparr> = Some [mixed_tx] \<and> mixed_tx \<in> set [mixed_tx] \<and>
    RawData mixed_tx = Some \<lparr>Contracts = ?cs\<rparr> \<and>
    native_contract transfer_fields \<in> set (Contracts \<lparr>Contracts = ?cs\<rparr>) \<and>
    Type (native_contract transfer_fields) = ''TransferContract'' \<and>
    Parameter (native_contract transfer_fields) = JObject [(''value'', JObject transfer_fields)] \<and>
    index [(''value'', JObject transfer_fields)] ''value'' = JObject transfer_fields \<and>
    (\<forall>q. index transfer_fields ''amount'' = JNumber q \<longrightarrow> is_float64 q) \<and>
    reachable watching_redis"
    by (simp add: block_with_def mixed_tx_def native_contract_def index_def transfer_fields_def
        watching_redis_def empty_redis_def)
  have ts: "fst (extractBlock default_config [mixed_tx] ?bd [] watching_redis)
              = [five_trx, five_trx]"
    by (simp only: extractBlock_mixed fst_conv)
  have f: "finite_amounts five_trx" "TxHash five_trx = ''tx1''" "TxID mixed_tx = ''tx1''"
    "transfers watching_redis = []"
    by (simp_all add: finite_amounts_def five_trx_def mixed_tx_def watching_redis_def
        empty_redis_def)
  from th [THEN conjunct1, THEN mp, OF h1]
  have c1: "extractTransferFromContract default_config (asset_contract transfer_fields) mixed_tx
              ?bd ?ws watching_redis = (Inr None, watching_redis)"
    by simp
  from th [THEN conjunct2, THEN conjunct1, THEN mp, OF h2]
  have c2: "extractTransferFromContract default_config (trigger_contract transfer_data) mixed_tx
              ?bd ?ws watching_redis = (Inr None, watching_redis)"
    by simp
  from th [THEN conjunct2, THEN conjunct2, THEN conjunct2, THEN mp, OF h4]
  obtain bp1 r1 e where
    r1: "processBlock default_config ?bd (pool_on, watching_redis) = (None, bp1, r1)"
      "transfers r1 = foldl (\<lambda>q e. take 10000 (e # q)) (transfers watching_redis)
                        (filter finite_amounts
                           (fst (extractBlock default_config [mixed_tx] ?bd [] watching_redis)))"
      "GetTransferEvent r1 (TxID mixed_tx) = Inr (Some e)"
      "e \<in> set (fst (extractBlock default_config [mixed_tx] ?bd [] watching_redis))"
    by blast
  have "transfers r1 = [five_trx, five_trx]"
    using r1(2) [unfolded ts] by (simp add: f)
  moreover have "GetTransferEvent r1 ''tx1'' = Inr (Some five_trx)"
    using r1(3) r1(4) [unfolded ts] by (simp add: f)
  ultimately show ?thesis
    using c1 c2 ts r1(1) by blast
qed

section \<open>Contract-token events: a well-formed transfer call\<close>

text \<open>
  Let the data be \<open>a9059cbb\<close>, then the destination padded to 64 digits, then the amount
  padded to 64 digits, where the destination has at most 40 digits (the upper 12 bytes of
  the first argument are zero) and the amount is below \<open>2^64\<close>. Decoding yields an event
  whose destination is the codec applied to \<open>41\<close> and the low 20 bytes of the first
  argument, and whose amount is the \<open>float64\<close> of the amount as a big-endian unsigned
  integer, divided by \<open>math.Pow(10, decimals)\<close> exactly when the converted contract
  address is the configured one. This is the event that \<open>extractTRC20Transfer\<close> emits for
  a contract with this data, when an endpoint is watched and, for the tracked contract,
  monitoring is enabled.
\<close>

lemma transfer_call_decoding:
  assumes "data = ''a9059cbb'' @ pad64 destHex @ pad64 amountHex"
    and "length destHex \<le> 40"
    and "length amountHex \<le> 64"
    and "big_endian amountHex = Some n" and "n < 2 ^ 64"
  shows "\<exists>ev. parseTRC20TransferData cfg data ownerAddress
                 (convertHexToBase58 contractAddressHex) tx blockData
                 (isUSDTContract cfg (convertHexToBase58 contractAddressHex)) = Inr (Some ev) \<and>
           Destination ev = convertHexToBase58 (''41'' @ drop 24 (pad64 destHex)) \<and>
           Amount ev =
             (if convertHexToBase58 contractAddressHex = USDT_ContractAddress cfg
              then Float64Quo (round64 (of_int n))
                     (MathPow10 (Float64FromInt (USDT_Decimals cfg)))
              else round64 (of_int n)) \<and>
           (\<forall>c p v ws r.
              Parameter c = JObject p \<and> index p ''value'' = JObject v \<and>
              stringOrZero (index v ''data'') = data \<and>
              convertHexToBase58 (stringOrZero (index v ''owner_address'')) = ownerAddress \<and>
              stringOrZero (index v ''contract_address'') = contractAddressHex \<and>
              (convertHexToBase58 contractAddressHex = USDT_ContractAddress cfg
                 \<longrightarrow> USDT_EnableMonitoring cfg) \<and>
              (watched ws (Source ev) \<or> watched ws (Destination ev)) \<longrightarrow>
              fst (extractTRC20Transfer cfg c tx blockData ws r) = Inr (Some ev))"
proof -
  from transfer_call [OF assms] obtain ev where
    ev: "parseTRC20TransferData cfg data ownerAddress (convertHexToBase58 contractAddressHex)
           tx blockData (isUSDTContract cfg (convertHexToBase58 contractAddressHex))
         = Inr (Some ev)"
      "Destination ev = convertHexToBase58 (''41'' @ drop 24 (pad64 destHex))"
      "Amount ev =
         (if isUSDTContract cfg (convertHexToBase58 contractAddressHex)
          then Float64Quo (round64 (of_int n))
                 (MathPow10 (Float64FromInt (USDT_Decimals cfg)))
          else round64 (of_int n))"
    by blast
  have "fst (extractTRC20Transfer cfg c tx blockData ws r) = Inr (Some ev)"
    if "Parameter c = JObject p \<and> index p ''value'' = JObject v \<and>
        stringOrZero (index v ''data'') = data \<and>
        convertHexToBase58 (stringOrZero (index v ''owner_address'')) = ownerAddress \<and>
        stringOrZero (index v ''contract_address'') = contractAddressHex \<and>
        (convertHexToBase58 contractAddressHex = USDT_ContractAddress cfg
           \<longrightarrow> USDT_EnableMonitoring cfg) \<and>
        (watched ws (Source ev) \<or> watched ws (Destination ev))" for c p v ws r
    using that ev(1)
    by (intro extractTRC20Transfer_emits [of c p v]) (auto simp: isUSDTContract_def)
  with ev show ?thesis
    by (auto simp: isUSDTContract_def)
qed

text \<open>A transfer of one million units of the default contract: the amount of the event
  is 1.\<close>

lemma transfer_call_example:
  "\<exists>ev. parseTRC20TransferData default_config transfer_data ''T1''
           (convertHexToBase58 usdt_hex) tx1 block115
           (isUSDTContract default_config (convertHexToBase58 usdt_hex)) = Inr (Some ev) \<and>
     Destination ev = ''TR7NHqjeKQxGTCi8q8ZY4pL8otSzgjLj6t'' \<and>
     Amount ev = Finite 1 \<and>
     fst (extractTRC20Transfer default_config usdt_transfer_contract tx1 block115
            [''TR7NHqjeKQxGTCi8q8ZY4pL8otSzgjLj6t''] empty_redis) = Inr (Some ev)"
proof -
  let ?dest = "''a614f803b6fd780986a42c78ec9c7f77e6ded13c''"
  let ?v = "[(''owner_address'', JString ''T1''), (''contract_address'', JString usdt_hex),
             (''data'', JString transfer_data)]"
  have h1: "transfer_data = ''a9059cbb'' @ pad64 ?dest @ pad64 ''f4240''"
    by (rule transfer_data_pad64)
  have h2: "length ?dest \<le> 40" by simp
  have h3: "length ''f4240'' \<le> 64" by simp
  have h4: "big_endian ''f4240'' = Some 1000000" by (simp add: big_endian_def hex_digit_def)
  have h5: "(1000000 :: int) < 2 ^ 64" by simp
  from transfer_call_decoding
    [OF h1 h2 h3 h4 h5, where cfg = default_config and ownerAddress = "''T1''"
       and contractAddressHex = usdt_hex and tx = tx1 and blockData = block115]
  obtain ev where
    ev: "parseTRC20TransferData default_config transfer_data ''T1''
           (convertHexToBase58 usdt_hex) tx1 block115
           (isUSDTContract default_config (convertHexToBase58 usdt_hex)) = Inr (Some ev)"
      "Destination ev = convertHexToBase58 (''41'' @ drop 24 (pad64 ?dest))"
      "Amount ev =
         (if convertHexToBase58 usdt_hex = USDT_ContractAddress default_config
          then Float64Quo (round64 (of_int 1000000))
                 (MathPow10 (Float64FromInt (USDT_Decimals default_config)))
          else round64 (of_int 1000000))"
    and link: "\<forall>c p v ws r.
      Parameter c = JObject p \<and> index p ''value'' = JObject v \<and>
      stringOrZero (index v ''data'') = transfer_data \<and>
      convertHexToBase58 (stringOrZero (index v ''owner_address'')) = ''T1'' \<and>
      stringOrZero (index v ''contract_address'') = usdt_hex \<and>
      (convertHexToBase58 usdt_hex = USDT_ContractAddress default_config
         \<longrightarrow> USDT_EnableMonitoring default_config) \<and>
      (watched ws (Source ev) \<or> watched ws (Destination ev)) \<longrightarrow>
      fst (extractTRC20Transfer default_config c tx1 block115 ws r) = Inr (Some ev)"
    by blast
  have d: "convertHexToBase58 (''41'' @ drop 24 (pad64 ?dest)) = ''TR7NHqjeKQxGTCi8q8ZY4pL8otSzgjLj6t''"
    by (simp add: pad64_def eval_nat_numeral convertHexToBase58_usdt)
  have u: "convertHexToBase58 usdt_hex = USDT_ContractAddress default_config"
    by (simp add: usdt_hex_def convertHexToBase58_usdt default_config_def)
  have c: "USDT_Decimals default_config = 6" "USDT_EnableMonitoring default_config"
    by (simp_all add: default_config_def)
  have m: "round64 (of_int 1000000) = Finite 1000000"
    using round64_of_int [of 1000000] by simp
  have o: "round64 1 = Finite 1"
    using round64_of_int [of 1] by simp
  have dest: "Destination ev = ''TR7NHqjeKQxGTCi8q8ZY4pL8otSzgjLj6t''"
    using ev(2) d by simp
  have amount: "Amount ev = Finite 1"
    unfolding ev(3) using u by (simp only: if_True c MathPow10_6 m) (simp add: o)
  have "Parameter usdt_transfer_contract = JObject [(''value'', JObject ?v)] \<and>
        index [(''value'', JObject ?v)] ''value'' = JObject ?v \<and>
        stringOrZero (index ?v ''data'') = transfer_data \<and>
        convertHexToBase58 (stringOrZero (index ?v ''owner_address'')) = ''T1'' \<and>
        stringOrZero (index ?v ''contract_address'') = usdt_hex \<and>
        (convertHexToBase58 usdt_hex = USDT_ContractAddress default_config
           \<longrightarrow> USDT_EnableMonitoring default_config) \<and>
        (watched [''TR7NHqjeKQxGTCi8q8ZY4pL8otSzgjLj6t''] (Source ev)
           \<or> watched [''TR7NHqjeKQxGTCi8q8ZY4pL8otSzgjLj6t''] (Destination ev))"
    by (simp add: usdt_transfer_contract_def index_def c dest watched_def)
  with link have "fst (extractTRC20Transfer default_config usdt_transfer_contract tx1 block115
                         [''TR7NHqjeKQxGTCi8q8ZY4pL8otSzgjLj6t''] empty_redis) = Inr (Some ev)"
    by blast
  with ev(1) dest amount show ?thesis by blast
qed

text \<open>
  Claim C1. The decoder departs from the claim on two kinds of well-formed data. A first
  argument whose upper 12 bytes are not zero is not cut to its low 20 bytes: the digits
  are stripped of leading zeros and padded to 40 when they are fewer, and more than 40
  digits are kept as they are. For the address of the default contract written with its
  prefix byte, 21 bytes, the destination is the encoding of 22 bytes,
  \<open>2zu1CLYjdgqKdiwcje6D2o9BV3oodNbfjKAE\<close>, where the low 20 bytes give
  \<open>TR7NHqjeKQxGTCi8q8ZY4pL8otSzgjLj6t\<close>; a transfer to that address, when it is the
  watched one, yields no event. An amount of \<open>2^64\<close> or more is no event either: the
  digits are parsed into 64 bits and the call is a decode error.
\<close>

theorem transfer_call_failing_inputs:
  "destination_of (parseTRC20TransferData default_config prefixed_data ''T1'' ''T2'' tx1 block115 False)
     = Some ''2zu1CLYjdgqKdiwcje6D2o9BV3oodNbfjKAE'' \<and>
   convertHexToBase58 (''41'' @ drop 24 (pad64 ''41a614f803b6fd780986a42c78ec9c7f77e6ded13c''))
     = ''TR7NHqjeKQxGTCi8q8ZY4pL8otSzgjLj6t'' \<and>
   extractTRC20Transfer default_config (trigger_contract prefixed_data) tx1 block115
     [''TR7NHqjeKQxGTCi8q8ZY4pL8otSzgjLj6t''] empty_redis = (Inr None, empty_redis) \<and>
   big_endian ''10000000000000000'' = Some 18446744073709551616 \<and>
   parseTRC20TransferData default_config overflow_data ''T1'' ''T2'' tx1 block115 False
     = Inl (ParseAmountFailed (ParseHexAmountFailed ParseUintRange))"
proof -
  have p: "parseTRC20TransferData default_config prefixed_data ''T1'' ''T2'' tx1 block115 False
             = Inr (Some (trc20_event\<lparr>Destination := ''2zu1CLYjdgqKdiwcje6D2o9BV3oodNbfjKAE''\<rparr>))"
    by (simp add: parseTRC20TransferData_def prefixed_data_def pad64_def
        eval_nat_numeral HasPrefix_def TrimLeft_def Repeat_def parseHexAmount_def ParseUint16_def
        fromHexChar_def Let_def convertHexToBase58_prefixed trc20_event_def tx1_def block115_def)
  have u: "\<not> isUSDTContract default_config ''T2''"
    by (simp add: isUSDTContract_def default_config_def)
  have "extractTRC20Transfer default_config (trigger_contract prefixed_data) tx1 block115
          [''TR7NHqjeKQxGTCi8q8ZY4pL8otSzgjLj6t''] empty_redis = (Inr None, empty_redis)"
    by (rule extractTRC20Transfer_unwatched
          [of _ "[(''value'', JObject (trigger_fields prefixed_data))]"
              "trigger_fields prefixed_data" _ _ _
              "trc20_event\<lparr>Destination := ''2zu1CLYjdgqKdiwcje6D2o9BV3oodNbfjKAE''\<rparr>"])
       (simp_all add: trigger_contract_def trigger_fields_def index_def u p watched_def
          trc20_event_def)
  moreover have
    "parseTRC20TransferData default_config overflow_data ''T1'' ''T2'' tx1 block115 False
       = Inl (ParseAmountFailed (ParseHexAmountFailed ParseUintRange))"
    by (simp add: parseTRC20TransferData_def overflow_data_def pad64_def
        eval_nat_numeral HasPrefix_def TrimLeft_def Repeat_def parseHexAmount_def ParseUint16_def
        fromHexChar_def Let_def)
  moreover have
    "convertHexToBase58 (''41'' @ drop 24 (pad64 ''41a614f803b6fd780986a42c78ec9c7f77e6ded13c''))
       = ''TR7NHqjeKQxGTCi8q8ZY4pL8otSzgjLj6t''"
    by (simp add: pad64_def eval_nat_numeral convertHexToBase58_usdt)
  moreover have "big_endian ''10000000000000000'' = Some 18446744073709551616"
    by (simp add: big_endian_def hex_digit_def)
  ultimately show ?thesis using p by simp
qed

section \<open>Block monitor: gap recovery\<close>

lemma fetched_Nil: "fetched http [] = []"
  by (simp add: fetched_def map_filter_simps)

lemma fetched_Cons:
  "fetched http (h # hs) =
     (case GetBlockByNumber http h of Inl e \<Rightarrow> fetched http hs | Inr b \<Rightarrow> b # fetched http hs)"
  by (simp add: fetched_def map_filter_simps split: sum.splits)


lemma fetched_cong:
  "\<forall>h\<in>set hs. GetBlockByNumber http' h = GetBlockByNumber http h \<Longrightarrow>
     fetched http' hs = fetched http hs"
  by (induction hs) (auto simp: fetched_Nil fetched_Cons split: sum.splits)











end
